(* ===== verification/Prelude.thy ===== *)
theory Prelude
  imports Main "HOL-Library.Sublist"
begin

text \<open>
  Shared vocabulary of the development: Python exceptions as values, effectful code as
  explicit state passing, and the string and list operations of the Python standard library
  that the sources use.

  A Python \<^verbatim>\<open>str\<close> is a \<^typ>\<open>string\<close> whose characters stand for the code points 0 to 255;
  the predicates below (white space, lower case) agree with Python on that range.
\<close>

named_theorems prog_simps \<open>unfolding of the effect combinators\<close>
named_theorems keeps_intros \<open>rules that show that every step of a program stays in a relation\<close>

section \<open>Exceptions and effectful programs\<close>

text \<open>
  One constructor per exception class that the sources raise or catch by name; every other
  class that a library may raise is \<open>OtherError\<close> with its class name.
\<close>

datatype exc =
    LLMProviderError string
  | BookingError string
  | CalendarError string
  | NotificationError string
  | STTError string
  | TTSError string
  | IntegrityError string
  | OverflowError string
  | ValueError string
  | RuntimeError string
  | NotImplementedErr string
  | IndexError string
  | ValidationError string
  | OtherError string string

text \<open>\<^verbatim>\<open>str(exc)\<close>: the message the exception was built with.\<close>

fun exc_str :: "exc \<Rightarrow> string" where
  "exc_str (LLMProviderError m) = m"
| "exc_str (BookingError m) = m"
| "exc_str (CalendarError m) = m"
| "exc_str (NotificationError m) = m"
| "exc_str (STTError m) = m"
| "exc_str (TTSError m) = m"
| "exc_str (IntegrityError m) = m"
| "exc_str (OverflowError m) = m"
| "exc_str (ValueError m) = m"
| "exc_str (RuntimeError m) = m"
| "exc_str (NotImplementedErr m) = m"
| "exc_str (IndexError m) = m"
| "exc_str (ValidationError m) = m"
| "exc_str (OtherError c m) = m"

type_synonym 'a res = "exc + 'a"

text \<open>
  A program over a state \<open>'s\<close> either raises (\<open>Inl\<close>) or returns (\<open>Inr\<close>); in both cases the
  effects it had are in the state it leaves.
\<close>

type_synonym ('s, 'a) prog = "'s \<Rightarrow> 'a res \<times> 's"

definition ret :: "'a \<Rightarrow> ('s, 'a) prog" where
  "ret x = (\<lambda>s. (Inr x, s))"

definition raise :: "exc \<Rightarrow> ('s, 'a) prog" where
  "raise e = (\<lambda>s. (Inl e, s))"

definition bind_prog :: "('s, 'a) prog \<Rightarrow> ('a \<Rightarrow> ('s, 'b) prog) \<Rightarrow> ('s, 'b) prog" where
  "bind_prog m f =
     (\<lambda>s. case m s of (Inl e, t) \<Rightarrow> (Inl e, t) | (Inr x, t) \<Rightarrow> f x t)"

text \<open>\<^verbatim>\<open>try: m except e: h(e)\<close>; a handler that does not match re-raises.\<close>

definition try_prog :: "('s, 'a) prog \<Rightarrow> (exc \<Rightarrow> ('s, 'a) prog) \<Rightarrow> ('s, 'a) prog" where
  "try_prog m h =
     (\<lambda>s. case m s of (Inl e, t) \<Rightarrow> h e t | (Inr x, t) \<Rightarrow> (Inr x, t))"

definition lift_res :: "'a res \<Rightarrow> ('s, 'a) prog" where
  "lift_res r = (\<lambda>s. (r, s))"

definition bind_res :: "'a res \<Rightarrow> ('a \<Rightarrow> 'b res) \<Rightarrow> 'b res" where
  "bind_res r f = (case r of Inl e \<Rightarrow> Inl e | Inr x \<Rightarrow> f x)"

lemma ret_apply [simp, prog_simps]: "ret x s = (Inr x, s)"
  by (simp add: ret_def)

lemma raise_apply [simp, prog_simps]: "raise e s = (Inl e, s)"
  by (simp add: raise_def)

lemma lift_res_apply [simp, prog_simps]: "lift_res r s = (r, s)"
  by (simp add: lift_res_def)

lemma bind_prog_apply [prog_simps]:
  "bind_prog m f s = (case m s of (Inl e, t) \<Rightarrow> (Inl e, t) | (Inr x, t) \<Rightarrow> f x t)"
  by (simp add: bind_prog_def)

lemma try_prog_apply [prog_simps]:
  "try_prog m h s = (case m s of (Inl e, t) \<Rightarrow> h e t | (Inr x, t) \<Rightarrow> (Inr x, t))"
  by (simp add: try_prog_def)

lemma bind_res_simps [simp]:
  "bind_res (Inl e) f = Inl e"
  "bind_res (Inr x) f = f x"
  by (simp_all add: bind_res_def)

lemma bind_res_Inr: "bind_res r f = Inr y \<longleftrightarrow> (\<exists>x. r = Inr x \<and> f x = Inr y)"
  by (cases r) auto

lemma bind_prog_Inr:
  "bind_prog m f s = (Inr y, u) \<longleftrightarrow> (\<exists>x t. m s = (Inr x, t) \<and> f x t = (Inr y, u))"
  by (auto simp: bind_prog_apply split: prod.splits sum.splits)

lemma bind_progE:
  assumes "bind_prog m f s = (Inr y, u)"
  obtains x t where "m s = (Inr x, t)" and "f x t = (Inr y, u)"
  using assms by (auto simp: bind_prog_Inr)

lemma bind_prog_assoc: "bind_prog (bind_prog m f) g = bind_prog m (\<lambda>x. bind_prog (f x) g)"
  by (rule ext) (simp add: bind_prog_def split: prod.splits sum.splits)

lemma snd_bindI:
  assumes "\<And>e t. m s = (Inl e, t) \<Longrightarrow> Q t" and "\<And>x t. m s = (Inr x, t) \<Longrightarrow> Q (snd (f x t))"
  shows "Q (snd (bind_prog m f s))"
  using assms by (auto simp: bind_prog_apply split: prod.split sum.split)

text \<open>A first part that only reads, and a last part that only returns.\<close>

lemma snd_bind_read:
  "snd (m s) = s \<Longrightarrow>
   snd (bind_prog m f s) = (case fst (m s) of Inl e \<Rightarrow> s | Inr x \<Rightarrow> snd (f x s))"
  by (cases "m s") (auto simp: bind_prog_apply split: sum.split)

lemma snd_bind_ret [simp]: "snd (bind_prog m (\<lambda>x. ret (g x)) s) = snd (m s)"
  by (simp add: bind_prog_apply split: prod.split sum.split)

subsection \<open>Programs whose every effect stays in a relation\<close>

text \<open>
  \<open>keeps R m\<close>: whatever \<open>m\<close> does, returning or raising, the state it leaves is
  related by \<open>R\<close> to the state it started from. With \<open>R\<close> reflexive and transitive this composes,
  so a frame property of a long handler is proved operation by operation.
\<close>

definition keeps :: "('s \<Rightarrow> 's \<Rightarrow> bool) \<Rightarrow> ('s, 'a) prog \<Rightarrow> bool" where
  "keeps R m \<longleftrightarrow> (\<forall>s. R s (snd (m s)))"

lemma keepsI: "(\<And>s. R s (snd (m s))) \<Longrightarrow> keeps R m"
  by (simp add: keeps_def)

lemma keepsD: "keeps R m \<Longrightarrow> R s (snd (m s))"
  by (simp add: keeps_def)

locale frame =
  fixes R :: "'s \<Rightarrow> 's \<Rightarrow> bool"
  assumes frame_refl: "R s s"
    and frame_trans: "R s t \<Longrightarrow> R t u \<Longrightarrow> R s u"
begin

lemma keeps_ret [keeps_intros]: "keeps R (ret x)"
  by (simp add: keeps_def frame_refl)

lemma keeps_raise [keeps_intros]: "keeps R (raise e)"
  by (simp add: keeps_def frame_refl)

lemma keeps_lift [keeps_intros]: "keeps R (lift_res r)"
  by (simp add: keeps_def frame_refl)

lemma keeps_bind [keeps_intros]:
  assumes m: "keeps R m" and f: "\<And>x. keeps R (f x)"
  shows "keeps R (bind_prog m f)"
proof (rule keepsI)
  fix s
  show "R s (snd (bind_prog m f s))"
    using keepsD [OF m, of s] keepsD [OF f] frame_trans
    by (fastforce simp: bind_prog_apply split: prod.splits sum.splits)
qed

lemma keeps_try [keeps_intros]:
  assumes m: "keeps R m" and h: "\<And>e. keeps R (h e)"
  shows "keeps R (try_prog m h)"
proof (rule keepsI)
  fix s
  show "R s (snd (try_prog m h s))"
    using keepsD [OF m, of s] keepsD [OF h] frame_trans
    by (fastforce simp: try_prog_apply split: prod.splits sum.splits)
qed

end

subsection \<open>Values that survive being written as text\<close>

text \<open>
  The interface of a text form: what is written is read back, for the valid values. Every value
  that the model reads in a tool result and repeats in its next call crosses such a form.
\<close>

locale codec =
  fixes enc :: "'a \<Rightarrow> string"
    and dec :: "string \<Rightarrow> 'a option"
    and valid :: "'a \<Rightarrow> bool"
  assumes dec_enc: "valid x \<Longrightarrow> dec (enc x) = Some x"
begin

lemma enc_inject: "valid x \<Longrightarrow> valid y \<Longrightarrow> enc x = enc y \<longleftrightarrow> x = y"
  using dec_enc by (metis option.inject)

lemma dec_all: "list_all valid xs \<Longrightarrow> map (dec \<circ> enc) xs = map Some xs"
  by (induction xs) (simp_all add: dec_enc)

end

subsection \<open>Refinement of an abstract state\<close>

text \<open>
  A concrete transition system with an invariant simulates an abstract one through an abstraction
  function; whole runs then do, and what the abstract steps keep holds of the concrete states.
\<close>

locale simulation =
  fixes inv :: "'s \<Rightarrow> bool"
    and step :: "'s \<Rightarrow> 's \<Rightarrow> bool"
    and abs :: "'s \<Rightarrow> 'a"
    and astep :: "'a \<Rightarrow> 'a \<Rightarrow> bool"
  assumes inv_step: "inv s \<Longrightarrow> step s t \<Longrightarrow> inv t"
    and sim_step: "inv s \<Longrightarrow> step s t \<Longrightarrow> astep (abs s) (abs t)"
begin

lemma run_simulated:
  assumes "step\<^sup>*\<^sup>* s t" and "inv s"
  shows "inv t \<and> astep\<^sup>*\<^sup>* (abs s) (abs t)"
  using assms
proof (induction rule: rtranclp_induct)
  case base
  then show ?case by simp
next
  case (step t u)
  then show ?case using inv_step sim_step by (meson rtranclp.rtrancl_into_rtrancl)
qed

lemma abstract_invariant:
  assumes "step\<^sup>*\<^sup>* s t" and "inv s" and "J (abs s)" and "\<And>a b. J a \<Longrightarrow> astep a b \<Longrightarrow> J b"
  shows "J (abs t)"
proof -
  have "astep\<^sup>*\<^sup>* (abs s) (abs t)" using run_simulated [OF assms(1,2)] by blast
  then show ?thesis using assms(3,4) by (induction rule: rtranclp_induct) blast+
qed

end

section \<open>Lists\<close>

lemma find_unknown: "i \<notin> f ` set xs \<Longrightarrow> find (\<lambda>x. f x = i) xs = None"
  by (auto simp: find_None_iff)

lemma find_mem: "find P xs = Some x \<Longrightarrow> x \<in> set xs \<and> P x"
  by (induction xs) (auto split: if_splits)

section \<open>Strings\<close>

text \<open>\<^verbatim>\<open>str.isspace\<close> on the code points below 256.\<close>

definition is_space :: "char \<Rightarrow> bool" where
  "is_space c = (let n = (of_char c :: nat)
     in (9 \<le> n \<and> n \<le> 13) \<or> (28 \<le> n \<and> n \<le> 32) \<or> n = 133 \<or> n = 160)"

definition py_lstrip :: "string \<Rightarrow> string" where
  "py_lstrip s = dropWhile is_space s"

definition py_rstrip :: "string \<Rightarrow> string" where
  "py_rstrip s = rev (dropWhile is_space (rev s))"

definition py_strip :: "string \<Rightarrow> string" where
  "py_strip s = py_rstrip (py_lstrip s)"

text \<open>\<^verbatim>\<open>str.lower\<close> on the code points below 256.\<close>

definition lower_char :: "char \<Rightarrow> char" where
  "lower_char c = (let n = (of_char c :: nat)
     in if (65 \<le> n \<and> n \<le> 90) \<or> (192 \<le> n \<and> n \<le> 222 \<and> n \<noteq> 215)
        then char_of (n + 32) else c)"

definition py_lower :: "string \<Rightarrow> string" where
  "py_lower s = map lower_char s"

text \<open>\<^verbatim>\<open>s.find(pat)\<close>, with \<open>None\<close> for the result -1.\<close>

fun py_find :: "string \<Rightarrow> string \<Rightarrow> nat option" where
  "py_find pat [] = (if pat = [] then Some 0 else None)"
| "py_find pat (c # cs) =
     (if prefix pat (c # cs) then Some 0 else map_option Suc (py_find pat cs))"

text \<open>\<^verbatim>\<open>sep.join(parts)\<close>.\<close>

fun py_join :: "string \<Rightarrow> string list \<Rightarrow> string" where
  "py_join sep [] = []"
| "py_join sep [x] = x"
| "py_join sep (x # y # ys) = x @ sep @ py_join sep (y # ys)"

subsection \<open>Searching\<close>

lemma py_find_Some_iff:
  "py_find pat s = Some i \<longleftrightarrow>
     i \<le> length s \<and> prefix pat (drop i s) \<and> (\<forall>j < i. \<not> prefix pat (drop j s))"
proof (induction s arbitrary: i)
  case Nil
  then show ?case by auto
next
  case (Cons c cs)
  show ?case
  proof (cases "prefix pat (c # cs)")
    case True
    then show ?thesis by (cases i) auto
  next
    case False
    then show ?thesis
    proof (cases i)
      case 0
      with False show ?thesis by auto
    next
      case (Suc k)
      have "(\<forall>j < Suc k. \<not> prefix pat (drop j (c # cs))) \<longleftrightarrow>
        (\<forall>j < k. \<not> prefix pat (drop j cs))"
        using False by (auto simp: less_Suc_eq_0_disj)
      with Suc False Cons.IH [of k] show ?thesis by auto
    qed
  qed
qed

lemma py_find_None_iff:
  "py_find pat s = None \<longleftrightarrow> (\<forall>j \<le> length s. \<not> prefix pat (drop j s))"
proof (induction s)
  case Nil
  then show ?case by auto
next
  case (Cons c cs)
  have "(\<forall>j \<le> length (c # cs). \<not> prefix pat (drop j (c # cs))) \<longleftrightarrow>
    \<not> prefix pat (c # cs) \<and> (\<forall>j \<le> length cs. \<not> prefix pat (drop j cs))"
    by (metis Suc_le_mono drop0 drop_Suc_Cons le0 length_Cons not0_implies_Suc)
  with Cons.IH show ?case by simp
qed

lemma py_find_bound: "py_find pat s = Some i \<Longrightarrow> i + length pat \<le> length s"
  by (fastforce simp: py_find_Some_iff dest: prefix_length_le)

lemma py_find_split:
  assumes "py_find pat s = Some i"
  shows "s = take i s @ pat @ drop (i + length pat) s"
proof -
  from assms have "prefix pat (drop i s)" by (simp add: py_find_Some_iff)
  then obtain u where u: "drop i s = pat @ u" by (auto simp: prefix_def)
  then have "drop (i + length pat) s = u"
    by (metis add.commute append_eq_conv_conj drop_drop)
  with u show ?thesis by (metis append_take_drop_id)
qed

lemma py_find_append:
  assumes "py_find pat s = Some i"
  shows "py_find pat (s @ t) = Some i"
proof -
  have b: "i + length pat \<le> length s" by (rule py_find_bound [OF assms])
  have p: "prefix pat (drop i s)" and n: "\<forall>j < i. \<not> prefix pat (drop j s)"
    using assms by (simp_all add: py_find_Some_iff)
  have "\<not> prefix pat (drop j (s @ t))" if "j < i" for j
  proof
    assume "prefix pat (drop j (s @ t))"
    then obtain u where u: "drop j (s @ t) = pat @ u" by (elim prefixE)
    have "length pat \<le> length (drop j s)" using b that by simp
    with u have "prefix pat (drop j s)"
      by (auto simp: append_eq_append_conv_if prefix_def split: if_splits)
        (metis append_take_drop_id)
    with n that show False by blast
  qed
  moreover have "prefix pat (drop i (s @ t))"
    using p b by (auto simp: prefix_def)
  ultimately show ?thesis using b by (simp add: py_find_Some_iff)
qed

text \<open>A character outside the pattern is a wall: no match straddles it.\<close>

lemma prefix_wall: "prefix pat (r @ c # s) \<Longrightarrow> c \<notin> set pat \<Longrightarrow> prefix pat r"
proof (induction r arbitrary: pat)
  case Nil
  then show ?case by (cases pat) auto
next
  case (Cons x r)
  then show ?case by (cases pat) auto
qed

lemma py_find_wall:
  assumes "pat \<noteq> []" and "c \<notin> set pat" and "py_find pat r = None"
  shows "py_find pat (r @ c # s) = map_option (\<lambda>i. Suc (length r + i)) (py_find pat s)"
  using assms(3)
proof (induction r)
  case Nil
  have "\<not> prefix pat (c # s)" using assms(1,2) by (cases pat) auto
  then show ?case by simp
next
  case (Cons x r)
  then have "\<not> prefix pat (x # r)" and none: "py_find pat r = None"
    by (auto split: if_splits)
  then have "\<not> prefix pat (x # r @ c # s)"
    using prefix_wall [of pat "x # r" c s] assms(2) by auto
  with Cons.IH [OF none] show ?case by (simp add: option.map_comp comp_def)
qed

lemma py_find_self: "pat \<noteq> [] \<Longrightarrow> py_find pat (pat @ s) = Some 0"
  by (cases pat) auto

subsection \<open>Stripping\<close>

lemma py_rstrip_Nil [simp]: "py_rstrip [] = []"
  by (simp add: py_rstrip_def)

lemma py_lstrip_Nil [simp]: "py_lstrip [] = []"
  by (simp add: py_lstrip_def)

lemma py_strip_Nil [simp]: "py_strip [] = []"
  by (simp add: py_strip_def)

lemma py_rstrip_snoc [simp]:
  "py_rstrip (s @ [c]) = (if is_space c then py_rstrip s else s @ [c])"
  by (simp add: py_rstrip_def)

lemma py_rstrip_prefix: "prefix (py_rstrip s) s"
proof -
  have "suffix (dropWhile is_space (rev s)) (rev s)" by (rule suffix_dropWhile)
  then show ?thesis by (simp add: py_rstrip_def suffix_to_prefix)
qed

lemma py_rstrip_idem [simp]: "py_rstrip (py_rstrip s) = py_rstrip s"
  by (induction s rule: rev_induct) auto

lemma py_rstrip_append: "py_rstrip (s @ t) =
  (if py_rstrip t = [] then py_rstrip s else s @ py_rstrip t)"
  by (induction t rule: rev_induct) (auto simp flip: append_assoc)

lemma py_rstrip_append_rstrip [simp]: "py_rstrip (s @ py_rstrip t) = py_rstrip (s @ t)"
  by (simp add: py_rstrip_append)

lemma py_rstrip_spaces: "\<forall>c \<in> set s. is_space c \<Longrightarrow> py_rstrip s = []"
  by (induction s rule: rev_induct) auto

lemma py_rstrip_eq_Nil: "py_rstrip s = [] \<longleftrightarrow> (\<forall>c \<in> set s. is_space c)"
  by (induction s rule: rev_induct) auto

lemma py_lstrip_eq_Nil: "py_lstrip s = [] \<longleftrightarrow> (\<forall>c \<in> set s. is_space c)"
  by (simp add: py_lstrip_def)

lemma py_lstrip_decomp:
  obtains w where "s = w @ py_lstrip s" and "\<forall>c \<in> set w. is_space c"
  using takeWhile_dropWhile_id [of is_space s] set_takeWhileD [of _ is_space s]
  by (metis py_lstrip_def)

lemma py_strip_eq_Nil: "py_strip s = [] \<longleftrightarrow> (\<forall>c \<in> set s. is_space c)"
proof -
  have "(\<forall>c \<in> set (py_lstrip s). is_space c) \<longleftrightarrow> (\<forall>c \<in> set s. is_space c)"
    by (rule py_lstrip_decomp [of s]) (metis Un_iff set_append)
  then show ?thesis by (simp add: py_strip_def py_rstrip_eq_Nil)
qed

text \<open>Stripping both ends can be done in either order.\<close>

lemma py_lstrip_Cons: "py_lstrip (c # s) = (if is_space c then py_lstrip s else c # s)"
  by (simp add: py_lstrip_def)

lemma py_rstrip_Cons:
  "py_rstrip (c # s) = (if py_rstrip s = [] then py_rstrip [c] else c # py_rstrip s)"
  using py_rstrip_append [of "[c]" s] by simp

lemma py_strip_lstrip_rstrip: "py_strip s = py_lstrip (py_rstrip s)"
proof (induction s)
  case Nil
  then show ?case by simp
next
  case (Cons c s)
  show ?case
  proof (cases "is_space c")
    case True
    then have "py_strip (c # s) = py_strip s"
      by (simp add: py_strip_def py_lstrip_Cons)
    moreover have "py_rstrip [c] = []" using True by (simp add: py_rstrip_def)
    then have "py_lstrip (py_rstrip (c # s)) = py_lstrip (py_rstrip s)"
      using True by (cases "py_rstrip s = []")
        (simp_all add: py_rstrip_Cons [of c s] py_lstrip_Cons)
    ultimately show ?thesis using Cons.IH by simp
  next
    case False
    then have "py_rstrip [c] = [c]" by (simp add: py_rstrip_def)
    then have "py_rstrip (c # s) = c # py_rstrip s"
      by (simp add: py_rstrip_Cons [of c s])
    with False show ?thesis
      by (simp add: py_strip_def py_lstrip_Cons)
  qed
qed

lemma py_strip_rstrip [simp]: "py_strip (py_rstrip s) = py_strip s"
  by (simp add: py_strip_lstrip_rstrip)

lemma py_rstrip_strip [simp]: "py_rstrip (py_strip s) = py_strip s"
  by (simp add: py_strip_def)

section \<open>Lists\<close>

text \<open>
  \<^verbatim>\<open>xs[i]\<close> with Python's negative indices; out of range raises.
\<close>

definition py_index :: "'a list \<Rightarrow> int \<Rightarrow> 'a res" where
  "py_index xs i =
     (if i < - int (length xs) \<or> int (length xs) \<le> i
      then Inl (IndexError ''list index out of range'')
      else Inr (xs ! (if 0 \<le> i then nat i else length xs - nat (- i))))"

text \<open>A list or \<open>None\<close> is truthy when it is a non-empty list.\<close>

definition truthy_list :: "'a list option \<Rightarrow> bool" where
  "truthy_list x = (case x of None \<Rightarrow> False | Some xs \<Rightarrow> xs \<noteq> [])"

definition truthy_str :: "string option \<Rightarrow> bool" where
  "truthy_str x = (case x of None \<Rightarrow> False | Some s \<Rightarrow> s \<noteq> [])"

lemma truthy_list_simps [simp]:
  "truthy_list None = False"
  "truthy_list (Some xs) = (xs \<noteq> [])"
  by (simp_all add: truthy_list_def)

lemma truthy_str_simps [simp]:
  "truthy_str None = False"
  "truthy_str (Some s) = (s \<noteq> [])"
  by (simp_all add: truthy_str_def)

lemma concat_filter_nonempty [simp]: "concat (filter (\<lambda>x. x \<noteq> []) xs) = concat xs"
  by (induction xs) auto

end
