(* ===== verification/Agent_Base.thy ===== *)
theory Agent_Base
  imports Prelude
begin

text \<open>
  \<^verbatim>\<open>openvoice/agent/base.py\<close>: the intent of an utterance and the reply of the agent.
\<close>

datatype intent = BOOKING | SUPPORT_QUESTION | URGENT | HUMAN_TRANSFER | GENERAL

text \<open>The string value of each member of the \<^verbatim>\<open>StrEnum\<close>.\<close>

fun intent_value :: "intent \<Rightarrow> string" where
  "intent_value BOOKING = ''booking''"
| "intent_value SUPPORT_QUESTION = ''support_question''"
| "intent_value URGENT = ''urgent''"
| "intent_value HUMAN_TRANSFER = ''human_transfer''"
| "intent_value GENERAL = ''general''"

text \<open>The members in declaration order (\<^verbatim>\<open>for intent in Intent\<close>).\<close>

definition intent_members :: "intent list" where
  "intent_members = [BOOKING, SUPPORT_QUESTION, URGENT, HUMAN_TRANSFER, GENERAL]"

text \<open>\<^verbatim>\<open>Intent(label)\<close>: the member with that value, \<open>None\<close> for the \<^verbatim>\<open>ValueError\<close>.\<close>

definition intent_of :: "string \<Rightarrow> intent option" where
  "intent_of label = find (\<lambda>i. intent_value i = label) intent_members"

record agent_reply =
  reply_text :: string
  reply_intent :: intent
  transfer_to_human :: bool

lemma intent_of_value [simp]: "intent_of (intent_value i) = Some i"
  by (cases i) (simp_all add: intent_of_def intent_members_def)

lemma intent_of_Some: "intent_of label = Some i \<longleftrightarrow> label = intent_value i"
  by (cases i) (auto simp: intent_of_def intent_members_def split: if_splits)

interpretation intent_text: codec intent_value intent_of "\<lambda>_. True"
  by unfold_locales simp

lemma intent_value_inject [simp]: "intent_value i = intent_value j \<longleftrightarrow> i = j"
  by (simp add: intent_text.enc_inject)

end
