(* ===== verification/Structured_Reply.thy ===== *)
theory Structured_Reply
  imports Agent_Base
begin

text \<open>
  \<^verbatim>\<open>openvoice/agent/structured_reply.py\<close>: the reply format (spoken text, then the line
  \<^verbatim>\<open>###INTENT: <label>\<close>), the parser for a complete completion, and the incremental extractor
  that releases speakable text while deltas still arrive. The interface locale
  \<open>delta_consumer\<close> states what any incremental consumer of a text stream promises (its state
  depends on the text received, not on how it was cut into deltas) and the extractor is its
  first provider.
\<close>

section \<open>The format\<close>

definition intent_marker :: string where
  "intent_marker = ''###INTENT:''"

definition intent_labels :: string where
  "intent_labels = py_join '', '' (map (\<lambda>i. CHR 0x22 # intent_value i @ [CHR 0x22]) intent_members)"

definition structured_output_instructions :: string where
  "structured_output_instructions =
     ''\<newline>\<newline>Additionally, classify the caller's latest message. First write your natural spoken reply to the caller, in the caller's own language. Then, on its own new line, write exactly '' @ [CHR 0x22] @ intent_marker @ '' <label>'' @ [CHR 0x22]
     @ '' where <label> is one of '' @ intent_labels
     @ ''. Do not write anything after the intent line. Do not use markdown code fences or any other formatting around either part.\<newline>\<newline>Example:\<newline>Sure, I can help with that.\<newline>''
     @ intent_marker @ '' general\<newline>''"

definition build_structured_system_prompt :: "string \<Rightarrow> string" where
  "build_structured_system_prompt base_prompt = base_prompt @ structured_output_instructions"


section \<open>Parsing a complete completion\<close>

definition intent_or_general :: "string \<Rightarrow> intent" where
  "intent_or_general label = (case intent_of label of Some i \<Rightarrow> i | None \<Rightarrow> GENERAL)"

definition parse_structured_reply :: "string \<Rightarrow> intent \<times> string" where
  "parse_structured_reply raw =
     (case py_find intent_marker raw of
        None \<Rightarrow> (GENERAL, py_strip raw)
      | Some marker_index \<Rightarrow>
          let reply = py_strip (take marker_index raw);
              label = py_lower (py_strip (drop (marker_index + length intent_marker) raw));
              intent = intent_or_general label
          in if reply = [] then (intent, py_strip raw) else (intent, reply))"

section \<open>Extracting the reply from a stream of deltas\<close>

record extractor =
  pending :: string
  released :: string
  marker_found :: bool
  after_marker :: string

definition new_extractor :: extractor where
  "new_extractor = \<lparr>pending = [], released = [], marker_found = False, after_marker = []\<rparr>"

text \<open>\<^verbatim>\<open>feed\<close>: the newly speakable text and the extractor afterwards.\<close>

definition feed :: "extractor \<Rightarrow> string \<Rightarrow> string \<times> extractor" where
  "feed x delta =
     (if delta = [] then ([], x)
      else if marker_found x then ([], x\<lparr>after_marker := after_marker x @ delta\<rparr>)
      else
        let p = pending x @ delta in
        case py_find intent_marker p of
          Some marker_index \<Rightarrow>
            let newly_safe = py_rstrip (take marker_index p)
            in (newly_safe,
                x\<lparr>after_marker := drop (marker_index + length intent_marker) p,
                  marker_found := True, pending := [],
                  released := released x @ newly_safe\<rparr>)
        | None \<Rightarrow>
            let hold_back = length intent_marker - 1
            in if length p \<le> hold_back then ([], x\<lparr>pending := p\<rparr>)
               else
                 let cut = length p - hold_back;
                     newly_safe = take cut p
                 in (newly_safe,
                     x\<lparr>pending := drop cut p, released := released x @ newly_safe\<rparr>))"

text \<open>\<^verbatim>\<open>finalize\<close>: \<open>(full reply, trailing unspoken text, intent)\<close>.\<close>

definition finalize :: "extractor \<Rightarrow> (string \<times> string \<times> intent) \<times> extractor" where
  "finalize x =
     (if \<not> marker_found x then
        let trailing = pending x;
            full = released x @ trailing
        in ((full, trailing, GENERAL), x\<lparr>released := full, pending := []\<rparr>)
      else
        let label = py_lower (py_strip (after_marker x))
        in ((released x, [], intent_or_general label), x))"

text \<open>Feeding a whole stream: the pieces released, in order, and the final state.\<close>

fun feed_all :: "extractor \<Rightarrow> string list \<Rightarrow> string list \<times> extractor" where
  "feed_all x [] = ([], x)"
| "feed_all x (d # ds) =
     (let (out, y) = feed x d; (outs, z) = feed_all y ds in (out # outs, z))"

subsection \<open>The interface of an incremental consumer\<close>

text \<open>
  \<open>holds s t\<close>: \<open>s\<close> is a correct state after receiving the text \<open>t\<close>. A provider shows that
  one delta keeps it, and the client learns that the state after any stream is correct for
  the whole text, whatever the boundaries of the deltas were.
\<close>

locale delta_consumer =
  fixes start :: "'s"
    and step :: "'s \<Rightarrow> string \<Rightarrow> 's"
    and holds :: "'s \<Rightarrow> string \<Rightarrow> bool"
  assumes holds_start: "holds start []"
    and holds_step: "holds s t \<Longrightarrow> holds (step s d) (t @ d)"
begin

lemma holds_foldl: "holds s t \<Longrightarrow> holds (foldl step s ds) (t @ concat ds)"
proof (induction ds arbitrary: s t)
  case Nil
  then show ?case by simp
next
  case (Cons d ds)
  from Cons.IH [OF holds_step [OF Cons.prems, of d]] show ?case by simp
qed

lemma holds_stream: "holds (foldl step start ds) (concat ds)"
  using holds_foldl [OF holds_start] by simp

end

subsection \<open>The extractor provides the interface\<close>

definition extractor_holds :: "extractor \<Rightarrow> string \<Rightarrow> bool" where
  "extractor_holds x t \<longleftrightarrow>
     (if marker_found x
      then \<exists>i. py_find intent_marker t = Some i \<and> pending x = []
        \<and> after_marker x = drop (i + length intent_marker) t
        \<and> prefix (released x) (take i t)
        \<and> py_rstrip (released x) = py_rstrip (take i t)
      else py_find intent_marker t = None \<and> released x @ pending x = t
        \<and> after_marker x = []
        \<and> length (pending x) = min (length t) (length intent_marker - 1))"

lemma intent_marker_nonempty [simp]: "intent_marker \<noteq> []" "0 < length intent_marker"
  by (simp_all add: intent_marker_def)

lemma length_intent_marker: "length intent_marker = 10"
  by (simp add: intent_marker_def)

text \<open>
  The heart of the hold-back: when no occurrence lies inside \<open>r @ p\<close> and \<open>p\<close> keeps at least
  \<open>length pat - 1\<close> characters, searching \<open>p @ d\<close> finds what searching the whole text finds.
\<close>

lemma py_find_skip:
  assumes "py_find pat (r @ p) = None" and "r \<noteq> [] \<Longrightarrow> length pat \<le> Suc (length p)"
  shows "py_find pat (r @ p @ d) = map_option ((+) (length r)) (py_find pat (p @ d))"
  using assms
proof (induction r)
  case Nil
  then show ?case by (cases "py_find pat (p @ d)") simp_all
next
  case (Cons c r)
  have no: "\<not> prefix pat (c # r @ p)" and none: "py_find pat (r @ p) = None"
    using Cons.prems(1) by (auto split: if_splits)
  have "length pat \<le> length (c # r @ p)" using Cons.prems(2) by simp
  with no have "\<not> prefix pat ((c # r @ p) @ d)"
    using prefix_length_prefix [of pat "(c # r @ p) @ d" "c # r @ p"] by auto
  moreover have "py_find pat (r @ p @ d) = map_option ((+) (length r)) (py_find pat (p @ d))"
    using none Cons.prems(2) by (intro Cons.IH) simp_all
  ultimately show ?case by (simp add: option.map_comp comp_def)
qed

lemma extractor_holds_new: "extractor_holds new_extractor []"
  by (simp add: extractor_holds_def new_extractor_def)

lemma extractor_holds_feed:
  assumes h: "extractor_holds x t"
  shows "extractor_holds (snd (feed x d)) (t @ d)"
proof (cases "d = [] \<or> marker_found x")
  case True
  then show ?thesis
  proof
    assume "d = []"
    with h show ?thesis by (simp add: feed_def)
  next
    assume m: "marker_found x"
    with h obtain i where i: "py_find intent_marker t = Some i"
      by (auto simp: extractor_holds_def)
    from py_find_append [OF i] py_find_bound [OF i] h i m show ?thesis
      by (cases "d = []") (auto simp: extractor_holds_def feed_def)
  qed
next
  case False
  then have d: "d \<noteq> []" and m: "\<not> marker_found x" by simp_all
  let ?r = "released x" and ?q = "pending x @ d"
  from h m have t: "?r @ pending x = t" and none: "py_find intent_marker t = None"
    and am: "after_marker x = []"
    and len: "length (pending x) = min (length t) (length intent_marker - 1)"
    by (simp_all add: extractor_holds_def)
  have lt: "length t = length ?r + length (pending x)" using t by auto
  have hb: "length intent_marker \<le> Suc (length (pending x))" if "?r \<noteq> []"
  proof -
    from that have "0 < length ?r" by simp
    with len lt show ?thesis unfolding length_intent_marker by arith
  qed
  have td: "t @ d = ?r @ ?q" using t by auto
  have find: "py_find intent_marker (t @ d)
      = map_option ((+) (length ?r)) (py_find intent_marker ?q)"
    unfolding td by (rule py_find_skip) (simp_all only: t none hb not_False_eq_True)
  show ?thesis
  proof (cases "py_find intent_marker ?q")
    case None
    with find have none': "py_find intent_marker (t @ d) = None" by simp
    show ?thesis
    proof (cases "length ?q \<le> length intent_marker - 1")
      case True
      have r: "?r = []"
        using True hb d by (cases d; cases "?r = []") (simp_all add: length_intent_marker)
      with True None none' d m am t show ?thesis
        by (simp add: extractor_holds_def feed_def)
    next
      case False
      with lt None none' d m am td show ?thesis
        by (simp add: extractor_holds_def feed_def Let_def length_intent_marker
          del: take_append drop_append)
    qed
  next
    case (Some i)
    then have i: "i \<le> length ?q" using py_find_bound by fastforce
    have "prefix (?r @ py_rstrip (take i ?q)) (?r @ take i ?q)"
      using py_rstrip_prefix by simp
    moreover have "take (length ?r + i) (t @ d) = ?r @ take i ?q"
      unfolding td by simp
    ultimately show ?thesis
      using Some d m find td by (simp add: extractor_holds_def feed_def Let_def del: take_append)
  qed
qed

interpretation extractor: delta_consumer new_extractor "\<lambda>x d. snd (feed x d)" extractor_holds
  by unfold_locales (simp_all add: extractor_holds_new extractor_holds_feed)

subsection \<open>What a whole stream releases\<close>

lemma feed_released: "released (snd (feed x d)) = released x @ fst (feed x d)"
  by (auto simp: feed_def Let_def split: option.splits)

lemma feed_all_state: "snd (feed_all x ds) = foldl (\<lambda>x d. snd (feed x d)) x ds"
  by (induction ds arbitrary: x) (simp_all add: case_prod_beta)

lemma feed_all_released: "released (snd (feed_all x ds)) = released x @ concat (fst (feed_all x ds))"
  by (induction ds arbitrary: x) (simp_all add: case_prod_beta feed_released)

lemma feed_all_holds: "extractor_holds (snd (feed_all new_extractor ds)) (concat ds)"
  using extractor.holds_stream [of ds] by (simp add: feed_all_state)

lemma feed_all_spoken: "concat (fst (feed_all new_extractor ds)) = released (snd (feed_all new_extractor ds))"
  by (simp add: feed_all_released) (simp add: new_extractor_def)

text \<open>What \<open>finalize\<close> returns after a stream, read off the text the stream carried.\<close>

definition stream_result :: "string list \<Rightarrow> string \<times> string \<times> intent" where
  "stream_result ds = fst (finalize (snd (feed_all new_extractor ds)))"

definition spoken :: "string list \<Rightarrow> string" where
  "spoken ds = concat (fst (feed_all new_extractor ds))"

lemma stream_result_cases:
  obtains (no_marker) "py_find intent_marker (concat ds) = None"
      "stream_result ds = (concat ds, drop (length (spoken ds)) (concat ds), GENERAL)"
      "prefix (spoken ds) (concat ds)"
      "length (spoken ds) = length (concat ds) - (length intent_marker - 1)"
    | (marker) i where "py_find intent_marker (concat ds) = Some i"
      "stream_result ds = (spoken ds, [], intent_or_general
         (py_lower (py_strip (drop (i + length intent_marker) (concat ds)))))"
      "prefix (spoken ds) (take i (concat ds))"
      "py_rstrip (spoken ds) = py_rstrip (take i (concat ds))"
proof (cases "marker_found (snd (feed_all new_extractor ds))")
  case True
  with feed_all_holds [of ds] marker show ?thesis
    by (auto simp: extractor_holds_def stream_result_def finalize_def spoken_def feed_all_spoken)
next
  case False
  let ?x = "snd (feed_all new_extractor ds)"
  from False feed_all_holds [of ds]
  have none: "py_find intent_marker (concat ds) = None"
    and cat: "released ?x @ pending ?x = concat ds"
    and len: "length (pending ?x) = min (length (concat ds)) (length intent_marker - 1)"
    by (simp_all add: extractor_holds_def)
  have sp: "spoken ds = released ?x" by (simp add: spoken_def feed_all_spoken)
  have "length (concat ds) = length (released ?x) + length (pending ?x)"
    by (simp flip: cat)
  with len have "length (released ?x) = length (concat ds) - (length intent_marker - 1)"
    by arith
  moreover have "stream_result ds = (released ?x @ pending ?x, pending ?x, GENERAL)"
    using False by (simp add: stream_result_def finalize_def Let_def)
  ultimately show ?thesis
    using no_marker none sp cat by (metis append_eq_conv_conj prefixI)
qed

section \<open>Properties\<close>

lemma stream_reply_pieces:
  assumes "stream_result ds = (full, trailing, i)"
  shows "spoken ds @ trailing = full"
proof (cases rule: stream_result_cases [of ds])
  case no_marker
  then have "spoken ds @ drop (length (spoken ds)) (concat ds) = concat ds"
    by (metis append_eq_conv_conj prefix_def)
  with no_marker assms show ?thesis by simp
next
  case (marker i)
  with assms show ?thesis by simp
qed

lemma stream_reply_agreement:
  assumes "stream_result ds = (full, trailing, i)"
  shows "parse_structured_reply (concat ds) =
    (i, if py_strip full = [] then py_strip (concat ds) else py_strip full)"
proof (cases rule: stream_result_cases [of ds])
  case no_marker
  with assms show ?thesis by (simp add: parse_structured_reply_def)
next
  case (marker i)
  then have "py_strip (spoken ds) = py_strip (take i (concat ds))"
    by (metis py_strip_rstrip)
  with marker assms show ?thesis by (simp add: parse_structured_reply_def Let_def)
qed

text \<open>
  (C2) Streaming neither loses nor invents text and never speaks the marker, wherever the
  provider cut its deltas: the pieces released plus the trailing text are exactly the full
  reply; without a marker that is the whole completion; with one it is the text before its
  first occurrence up to white space right before it, and nothing trails.
\<close>

theorem stream_speaks_the_reply:
  "case stream_result ds of (full, trailing, _) \<Rightarrow>
     spoken ds @ trailing = full \<and>
     (case py_find intent_marker (concat ds) of
        None \<Rightarrow> full = concat ds
      | Some i \<Rightarrow> trailing = [] \<and> prefix full (take i (concat ds))
          \<and> py_rstrip full = py_rstrip (take i (concat ds)))"
proof -
  obtain full trailing i where res: "stream_result ds = (full, trailing, i)"
    by (metis prod_cases3)
  show ?thesis
  proof (cases rule: stream_result_cases [of ds])
    case no_marker
    with stream_reply_pieces [OF res] res show ?thesis by auto
  next
    case (marker i)
    with stream_reply_pieces [OF res] res show ?thesis by auto
  qed
qed

text \<open>
  (C5) The streaming extractor and the parser of complete completions agree for every way of
  cutting the completion into deltas: the same intent, and the same reply once both ends are
  stripped, except that the parser falls back to the whole raw completion when no speakable
  text precedes the marker.
\<close>

theorem stream_agrees_with_parse:
  "case stream_result ds of (full, _, intent) \<Rightarrow>
     parse_structured_reply (concat ds) =
       (intent, if py_strip full = [] then py_strip (concat ds) else py_strip full)"
  using stream_reply_agreement [of ds] by (simp split: prod.split)

text \<open>
  (C10) At no moment of the stream has anything been spoken that could belong to a marker
  still arriving: whatever text \<open>u\<close> follows, if the marker then appears first at \<open>i\<close>, what was
  already spoken is a prefix of the text before \<open>i\<close>. Holding back costs at most nine
  characters of delay.
\<close>

theorem stream_never_speaks_marker:
  assumes "py_find intent_marker (concat ds @ u) = Some i"
  shows "prefix (spoken ds) (take i (concat ds @ u)) \<and>
    (length (concat ds) \<le> length (spoken ds) + 9 \<or> i < length (concat ds))"
proof (cases rule: stream_result_cases [of ds])
  case no_marker
  have "prefix (spoken ds) (spoken (ds @ [u]))"
    by (simp add: spoken_def feed_all_spoken feed_all_state feed_released)
  moreover have "prefix (spoken (ds @ [u])) (take i (concat ds @ u))"
    using assms by (cases rule: stream_result_cases [of "ds @ [u]"]) auto
  ultimately have "prefix (spoken ds) (take i (concat ds @ u))"
    by (rule prefix_order.trans)
  moreover have "length (concat ds) \<le> length (spoken ds) + 9"
    using no_marker(4) unfolding length_intent_marker by arith
  ultimately show ?thesis by blast
next
  case (marker k)
  with py_find_append [OF marker(1), of u] assms have "k = i" by simp
  with marker py_find_bound [OF marker(1)] show ?thesis
    by (simp add: length_intent_marker)
qed

theorem stream_never_speaks_marker_witness:
  "prefix (spoken [''Sure.'', '' ##'']) (take 6 (concat [''Sure.'', '' ##''] @ ''#INTENT: general''))"
  using stream_never_speaks_marker [of "[''Sure.'', '' ##'']" "''#INTENT: general''" 6]
  by (simp add: intent_marker_def)

text \<open>
  (C10) A completion in the format the prompt asks for is read back exactly, by the parser and by
  the stream: the reply that was written, and the intent whose label was written.
\<close>

theorem structured_reply_roundtrip:
  assumes "py_find intent_marker reply = None" and "py_strip reply = reply" and "reply \<noteq> []"
    and "concat ds = reply @ ''\<newline>'' @ intent_marker @ '' '' @ intent_value i"
  shows "parse_structured_reply (concat ds) = (i, reply) \<and>
    stream_result ds = (spoken ds, [], i) \<and> py_strip (spoken ds) = reply"
proof -
  have nl: "CHR ''\<newline>'' \<notin> set intent_marker" by (simp add: intent_marker_def)
  have find: "py_find intent_marker (concat ds) = Some (Suc (length reply))"
    using py_find_wall [OF intent_marker_nonempty(1) nl assms(1)] assms(4)
    by (simp add: py_find_self)
  have label: "py_lower (py_strip ('' '' @ intent_value i)) = intent_value i"
    by (cases i) (simp_all add: py_lower_def py_strip_def py_lstrip_def py_rstrip_def
      is_space_def lower_char_def)
  have after: "drop (Suc (length reply) + length intent_marker) (concat ds) = '' '' @ intent_value i"
    using assms(4) by simp
  have before: "take (Suc (length reply)) (concat ds) = reply @ ''\<newline>''"
    using assms(4) by simp
  have "py_strip (reply @ ''\<newline>'') = py_strip reply"
    by (simp add: py_strip_lstrip_rstrip is_space_def)
  with before assms(2) have strip: "py_strip (take (Suc (length reply)) (concat ds)) = reply"
    by simp
  have parse: "parse_structured_reply (concat ds) = (i, reply)"
    using find label after strip assms(3)
    by (simp add: parse_structured_reply_def intent_or_general_def Let_def)
  show ?thesis
  proof (cases rule: stream_result_cases [of ds])
    case no_marker
    with find show ?thesis by simp
  next
    case (marker k)
    with find have k: "k = Suc (length reply)" by simp
    have "py_strip (spoken ds) = reply"
      using marker(4) strip unfolding k by (metis py_strip_rstrip)
    with parse marker(2) label after show ?thesis
      by (simp add: k intent_or_general_def)
  qed
qed

theorem structured_reply_roundtrip_witness:
  "parse_structured_reply ''Sure.\<newline>###INTENT: booking'' = (BOOKING, ''Sure.'')"
  using structured_reply_roundtrip
    [of "''Sure.''" "[''Sure.'', ''\<newline>###IN'', ''TENT: booking'']" BOOKING]
  by (simp add: intent_marker_def py_strip_def py_lstrip_def py_rstrip_def is_space_def)

end
