(* ===== verification/LLM_Base.thy ===== *)
theory LLM_Base
  imports Prelude
begin

text \<open>
  \<^verbatim>\<open>openvoice/llm/base.py\<close> and \<^verbatim>\<open>openvoice/agent/tools/base.py\<close>: the provider-agnostic
  messages, tool calls and responses, and the types of the LLM provider and of the tool
  executor that the conversation calls.
\<close>

text \<open>
  JSON values as \<^verbatim>\<open>json.loads\<close> yields them. A float carries its \<^verbatim>\<open>repr\<close>, an object its
  members in insertion order.
\<close>

datatype json =
    JNull
  | JBool bool
  | JInt int
  | JFloat string
  | JStr string
  | JArr "json list"
  | JObj "(string \<times> json) list"

datatype role = USER | ASSISTANT | TOOL

fun role_value :: "role \<Rightarrow> string" where
  "role_value USER = ''user''"
| "role_value ASSISTANT = ''assistant''"
| "role_value TOOL = ''tool''"

record tool_definition =
  td_name :: string
  td_description :: string
  td_parameters :: json

record tool_call =
  tc_id :: string
  tc_name :: string
  tc_arguments :: "(string \<times> json) list"

record llm_message =
  m_role :: role
  m_content :: string
  m_tool_calls :: "tool_call list option"
  m_tool_call_id :: "string option"
  m_tool_call_is_error :: bool

record llm_response =
  r_content :: string
  r_model :: string
  r_input_tokens :: "int option"
  r_output_tokens :: "int option"
  r_tool_calls :: "tool_call list option"

text \<open>The constructor calls of the sources, with the defaults of the fields they leave out.\<close>

definition text_message :: "role \<Rightarrow> string \<Rightarrow> llm_message" where
  "text_message r content = \<lparr>m_role = r, m_content = content, m_tool_calls = None,
     m_tool_call_id = None, m_tool_call_is_error = False\<rparr>"

definition tool_request_message :: "string \<Rightarrow> tool_call list option \<Rightarrow> llm_message" where
  "tool_request_message content calls = \<lparr>m_role = ASSISTANT, m_content = content,
     m_tool_calls = calls, m_tool_call_id = None, m_tool_call_is_error = False\<rparr>"

definition tool_result_message :: "string \<Rightarrow> string \<Rightarrow> bool \<Rightarrow> llm_message" where
  "tool_result_message content call_id is_error = \<lparr>m_role = TOOL, m_content = content,
     m_tool_calls = None, m_tool_call_id = Some call_id, m_tool_call_is_error = is_error\<rparr>"

text \<open>
  A provider over the world \<open>'w\<close>. A stream is the deltas it yielded, followed by the exception
  that ended it, if one did.
\<close>

record 'w llm_provider =
  generate :: "llm_message list \<Rightarrow> string option \<Rightarrow> int \<Rightarrow> tool_definition list option
    \<Rightarrow> ('w, llm_response) prog"
  generate_stream :: "llm_message list \<Rightarrow> string option \<Rightarrow> 'w
    \<Rightarrow> (string list \<times> exc option) \<times> 'w"

text \<open>
  A tool executor returns \<open>(result content, is_error)\<close>, or raises.
\<close>

type_synonym 'w tool_executor = "tool_call \<Rightarrow> ('w, string \<times> bool) prog"

lemma text_message_simps [simp]:
  "m_role (text_message r c) = r"
  "m_content (text_message r c) = c"
  "m_tool_calls (text_message r c) = None"
  "m_tool_call_id (text_message r c) = None"
  by (simp_all add: text_message_def)

lemma tool_request_message_simps [simp]:
  "m_role (tool_request_message c tcs) = ASSISTANT"
  "m_content (tool_request_message c tcs) = c"
  "m_tool_calls (tool_request_message c tcs) = tcs"
  by (simp_all add: tool_request_message_def)

lemma tool_result_message_simps [simp]:
  "m_role (tool_result_message c i e) = TOOL"
  "m_content (tool_result_message c i e) = c"
  "m_tool_calls (tool_result_message c i e) = None"
  "m_tool_call_id (tool_result_message c i e) = Some i"
  "m_tool_call_is_error (tool_result_message c i e) = e"
  by (simp_all add: tool_result_message_def)

end
