(* ===== verification/Conversation.thy ===== *)
theory Conversation
  imports Structured_Reply LLM_Base Complex_Main
begin

text \<open>
  \<^verbatim>\<open>openvoice/agent/conversation.py\<close>: one call's conversation. The world \<open>'w\<close> is everything
  outside the manager: the LLM service, the database and calendar behind the tools, the clock.
  The manager's own mutable fields, and the process metrics it counts, are the record
  \<open>conv_state\<close>; its constructor arguments are \<open>conv_config\<close>.
\<close>

definition fallback_message :: string where
  "fallback_message = ''I'm sorry, I'm having trouble processing that right now. Let me transfer you to a member of our team.''"

definition call_limit_message :: string where
  "call_limit_message = ''We've been on the line for a while -- let me transfer you to a member of our team so we can keep helping you.''"

definition is_transfer_intent :: "intent \<Rightarrow> bool" where
  "is_transfer_intent i = (i \<in> {HUMAN_TRANSFER, URGENT})"

record 'w conv_config =
  cc_llm :: "'w llm_provider"
  cc_system_prompt :: string
  cc_call_id :: string
  cc_max_history_turns :: int
  cc_tools :: "tool_definition list option"
  cc_tool_executor :: "'w tool_executor option"
  cc_max_tool_iterations :: int
  cc_max_conversation_turns :: "int option"
  cc_max_call_duration_seconds :: "rat option"
  cc_call_started_at :: int
  cc_now :: "'w \<Rightarrow> int"

text \<open>
  Times are microseconds. \<open>llm_errors\<close> is \<^verbatim>\<open>metrics.llm_errors_total\<close>; \<open>tool_outcomes\<close> lists the
  increments of \<^verbatim>\<open>metrics.tool_calls_total\<close>, each with its tool and outcome labels.
\<close>

record 'w conv_state =
  cs_turn_count :: int
  cs_history :: "llm_message list"
  cs_last_reply :: "agent_reply option"
  cs_llm_errors :: nat
  cs_tool_outcomes :: "(string \<times> string) list"
  cs_world :: 'w

definition conv_init ::
  "'w llm_provider \<Rightarrow> string \<Rightarrow> string \<Rightarrow> int \<Rightarrow> tool_definition list option
   \<Rightarrow> 'w tool_executor option \<Rightarrow> int \<Rightarrow> int option \<Rightarrow> rat option \<Rightarrow> int option
   \<Rightarrow> ('w \<Rightarrow> int) \<Rightarrow> 'w \<Rightarrow> ('w conv_config \<times> 'w conv_state) res" where
  "conv_init llm system_prompt call_id max_history tools executor max_iter max_turns max_secs
     started now w =
     (if truthy_list tools \<noteq> (executor \<noteq> None)
      then Inl (ValueError ''tools and tool_executor must be provided together, or not at all'')
      else Inr
        (\<lparr>cc_llm = llm,
          cc_system_prompt = build_structured_system_prompt system_prompt,
          cc_call_id = call_id,
          cc_max_history_turns = max_history,
          cc_tools = (if truthy_list tools then tools else None),
          cc_tool_executor = executor,
          cc_max_tool_iterations = max_iter,
          cc_max_conversation_turns = max_turns,
          cc_max_call_duration_seconds = max_secs,
          cc_call_started_at = (case started of Some t \<Rightarrow> t | None \<Rightarrow> now w),
          cc_now = now\<rparr>,
         \<lparr>cs_turn_count = 0, cs_history = [], cs_last_reply = None, cs_llm_errors = 0,
          cs_tool_outcomes = [], cs_world = w\<rparr>))"

definition mk_reply :: "string \<Rightarrow> intent \<Rightarrow> bool \<Rightarrow> agent_reply" where
  "mk_reply t i b = \<lparr>reply_text = t, reply_intent = i, transfer_to_human = b\<rparr>"

definition fallback_reply :: agent_reply where
  "fallback_reply = mk_reply fallback_message GENERAL True"

definition call_limit_reply :: agent_reply where
  "call_limit_reply = mk_reply call_limit_message HUMAN_TRANSFER True"

definition call_limit_reached :: "'w conv_config \<Rightarrow> 'w conv_state \<Rightarrow> bool" where
  "call_limit_reached c s =
     ((case cc_max_conversation_turns c of
         Some m \<Rightarrow> cs_turn_count s \<ge> m
       | None \<Rightarrow> False) \<or>
      (case cc_max_call_duration_seconds c of
         Some m \<Rightarrow>
           (let elapsed = rat_of_int (cc_now c (cs_world s) - cc_call_started_at c) / 1000000
            in elapsed \<ge> m)
       | None \<Rightarrow> False))"

text \<open>\<^verbatim>\<open>_execute_tool\<close>: whatever the executor raises becomes an error result.\<close>

definition execute_tool ::
  "'w conv_config \<Rightarrow> tool_call \<Rightarrow> 'w conv_state \<Rightarrow> (string \<times> bool) \<times> 'w conv_state" where
  "execute_tool c tc s =
     (let ((result_text, is_error), w) =
        (case cc_tool_executor c of
           None \<Rightarrow> ((''Tool '' @ [CHR 0x27] @ tc_name tc @ [CHR 0x27] @ '' is not available.'', True), cs_world s)
         | Some executor \<Rightarrow>
             (case executor tc (cs_world s) of
                (Inl e, w) \<Rightarrow> ((''An internal error occurred while executing this action.'', True), w)
              | (Inr r, w) \<Rightarrow> (r, w)))
      in ((result_text, is_error),
          s\<lparr>cs_world := w,
            cs_tool_outcomes := cs_tool_outcomes s
              @ [(tc_name tc, if is_error then ''error'' else ''success'')]\<rparr>))"


text \<open>The inner \<^verbatim>\<open>for tool_call in response.tool_calls\<close> loop: one result message per call.\<close>

fun run_tools ::
  "'w conv_config \<Rightarrow> tool_call list \<Rightarrow> 'w conv_state \<Rightarrow> 'w conv_state" where
  "run_tools c [] s = s"
| "run_tools c (tc # tcs) s =
     (let ((result_text, is_error), s1) = execute_tool c tc s
      in run_tools c tcs
           (s1\<lparr>cs_history := cs_history s1
              @ [tool_result_message result_text (tc_id tc) is_error]\<rparr>))"

text \<open>
  \<^verbatim>\<open>_trim_history\<close>: Python's \<^verbatim>\<open>user_indices[-max_history_turns]\<close>, with \<^verbatim>\<open>-0\<close> read as index 0 and
  an index out of range raising.
\<close>

definition user_indices :: "llm_message list \<Rightarrow> nat list" where
  "user_indices h = map fst (filter (\<lambda>(i, m). m_role m = USER) (enumerate 0 h))"

definition trim_history :: "int \<Rightarrow> llm_message list \<Rightarrow> llm_message list res" where
  "trim_history max_turns h =
     (let ui = user_indices h
      in if int (length ui) > max_turns
         then bind_res (py_index ui (- max_turns)) (\<lambda>cutoff. Inr (drop cutoff h))
         else Inr h)"

text \<open>
  The last part of a turn: append the assistant's reply and trim. An exception of the trimming
  leaves the appended message in place.
\<close>

definition finish_turn ::
  "'w conv_config \<Rightarrow> string \<Rightarrow> intent \<Rightarrow> 'w conv_state \<Rightarrow> agent_reply res \<times> 'w conv_state" where
  "finish_turn c text intent s =
     (let h = cs_history s @ [text_message ASSISTANT text]
      in case trim_history (cc_max_history_turns c) h of
           Inl e \<Rightarrow> (Inl e, s\<lparr>cs_history := h\<rparr>)
         | Inr h' \<Rightarrow> (Inr (mk_reply text intent (is_transfer_intent intent)),
                     s\<lparr>cs_history := h'\<rparr>))"

definition drop_turn :: "nat \<Rightarrow> 'w conv_state \<Rightarrow> 'w conv_state" where
  "drop_turn turn_start s = s\<lparr>cs_history := take turn_start (cs_history s)\<rparr>"

text \<open>The \<^verbatim>\<open>for iteration in range(max_tool_iterations)\<close> loop, by the iterations left.\<close>

fun tool_loop ::
  "'w conv_config \<Rightarrow> nat \<Rightarrow> nat \<Rightarrow> 'w conv_state \<Rightarrow> agent_reply res \<times> 'w conv_state" where
  "tool_loop c turn_start 0 s = (Inr fallback_reply, drop_turn turn_start s)"
| "tool_loop c turn_start (Suc n) s =
     (case generate (cc_llm c) (cs_history s) (Some (cc_system_prompt c)) 1024 (cc_tools c)
             (cs_world s) of
        (Inl (LLMProviderError e), w) \<Rightarrow>
          (Inr fallback_reply,
           drop_turn turn_start (s\<lparr>cs_world := w, cs_llm_errors := Suc (cs_llm_errors s)\<rparr>))
      | (Inl e, w) \<Rightarrow> (Inl e, s\<lparr>cs_world := w\<rparr>)
      | (Inr response, w) \<Rightarrow>
          (if truthy_list (r_tool_calls response)
           then tool_loop c turn_start n
                  (run_tools c (the (r_tool_calls response))
                    (s\<lparr>cs_world := w, cs_history := cs_history s
                       @ [tool_request_message (r_content response) (r_tool_calls response)]\<rparr>))
           else
             (let (intent, text) = parse_structured_reply (r_content response)
              in finish_turn c text intent (s\<lparr>cs_world := w\<rparr>))))"

definition begin_turn :: "string \<Rightarrow> 'w conv_state \<Rightarrow> 'w conv_state" where
  "begin_turn caller_text s =
     s\<lparr>cs_turn_count := cs_turn_count s + 1,
       cs_history := cs_history s @ [text_message USER caller_text]\<rparr>"

definition handle_utterance ::
  "'w conv_config \<Rightarrow> string \<Rightarrow> 'w conv_state \<Rightarrow> agent_reply res \<times> 'w conv_state" where
  "handle_utterance c caller_text s =
     (if call_limit_reached c s then (Inr call_limit_reply, s)
      else tool_loop c (length (cs_history s)) (nat (cc_max_tool_iterations c))
             (begin_turn caller_text s))"

text \<open>
  \<^verbatim>\<open>handle_utterance_stream\<close>, consumed to its end: the chunks it yielded, whether it raised, and
  the state it leaves. Chunks are yielded only when they are not empty.
\<close>

definition nonempty :: "string list \<Rightarrow> string list" where
  "nonempty = filter (\<lambda>x. x \<noteq> [])"

definition handle_utterance_stream ::
  "'w conv_config \<Rightarrow> string \<Rightarrow> 'w conv_state \<Rightarrow> (string list \<times> exc option) \<times> 'w conv_state" where
  "handle_utterance_stream c caller_text s =
     (if cc_tools c \<noteq> None then
        (case handle_utterance c caller_text s of
           (Inl e, t) \<Rightarrow> (([], Some e), t)
         | (Inr reply, t) \<Rightarrow>
             ((nonempty [reply_text reply], None), t\<lparr>cs_last_reply := Some reply\<rparr>))
      else if call_limit_reached c s then
        (([call_limit_message], None), s\<lparr>cs_last_reply := Some call_limit_reply\<rparr>)
      else
        (let turn_start = length (cs_history s);
             s1 = begin_turn caller_text s;
             ((deltas, failure), w) =
               generate_stream (cc_llm c) (cs_history s1) (Some (cc_system_prompt c)) (cs_world s1);
             (outs, x) = feed_all new_extractor deltas;
             s2 = s1\<lparr>cs_world := w\<rparr>
         in case failure of
              Some (LLMProviderError e) \<Rightarrow>
                ((nonempty outs @ [fallback_message], None),
                 (drop_turn turn_start (s2\<lparr>cs_llm_errors := Suc (cs_llm_errors s2)\<rparr>))
                   \<lparr>cs_last_reply := Some fallback_reply\<rparr>)
            | Some e \<Rightarrow> ((nonempty outs, Some e), s2)
            | None \<Rightarrow>
                (let ((full, trailing, intent), _) = finalize x
                 in case finish_turn c full intent s2 of
                      (Inl e, s3) \<Rightarrow> ((nonempty (outs @ [trailing]), Some e), s3)
                    | (Inr reply, s3) \<Rightarrow>
                        ((nonempty (outs @ [trailing]), None),
                         s3\<lparr>cs_last_reply := Some reply\<rparr>))))"

text \<open>
  A caller who interrupts the agent cancels the reply task. The cancellation is raised at the
  \<^verbatim>\<open>await\<close> or \<^verbatim>\<open>yield\<close> the coroutine is suspended at and is not an \<^verbatim>\<open>Exception\<close>, so no handler
  of the manager runs and the fields keep the values they had. \<open>abandon_stream\<close>: while the
  deltas of a reply without tools are consumed (\<open>w\<close> is the world at that moment).
  \<open>cancelled_in_request k\<close>: in the tool loop, while the response of the \<open>k\<close>-th round (from 0) is
  awaited. \<open>cancelled_in_tools k j\<close>: in the \<open>k\<close>-th round, while the tool after the first \<open>j\<close> of that
  round is executing. Both are \<open>None\<close> when the run has no such moment.
\<close>

definition abandon_stream :: "string \<Rightarrow> 'w \<Rightarrow> 'w conv_state \<Rightarrow> 'w conv_state" where
  "abandon_stream caller_text w s = (begin_turn caller_text s)\<lparr>cs_world := w\<rparr>"

fun loop_waiting :: "'w conv_config \<Rightarrow> nat \<Rightarrow> 'w conv_state \<Rightarrow> 'w conv_state option" where
  "loop_waiting c 0 s = Some s"
| "loop_waiting c (Suc k) s =
     (case generate (cc_llm c) (cs_history s) (Some (cc_system_prompt c)) 1024 (cc_tools c)
             (cs_world s) of
        (Inl e, w) \<Rightarrow> None
      | (Inr response, w) \<Rightarrow>
          (if truthy_list (r_tool_calls response)
           then loop_waiting c k (run_tools c (the (r_tool_calls response))
                  (s\<lparr>cs_world := w, cs_history := cs_history s
                     @ [tool_request_message (r_content response) (r_tool_calls response)]\<rparr>))
           else None))"

definition cancelled_in_request ::
  "'w conv_config \<Rightarrow> string \<Rightarrow> nat \<Rightarrow> 'w conv_state \<Rightarrow> 'w conv_state option" where
  "cancelled_in_request c caller_text k s =
     (if call_limit_reached c s \<or> int k \<ge> cc_max_tool_iterations c then None
      else loop_waiting c k (begin_turn caller_text s))"

fun loop_cancelled ::
  "'w conv_config \<Rightarrow> nat \<Rightarrow> nat \<Rightarrow> 'w conv_state \<Rightarrow> 'w conv_state option" where
  "loop_cancelled c k j s =
     (case generate (cc_llm c) (cs_history s) (Some (cc_system_prompt c)) 1024 (cc_tools c)
             (cs_world s) of
        (Inl e, w) \<Rightarrow> None
      | (Inr response, w) \<Rightarrow>
          (if truthy_list (r_tool_calls response)
           then let tcs = the (r_tool_calls response);
                    s1 = s\<lparr>cs_world := w, cs_history := cs_history s
                       @ [tool_request_message (r_content response) (r_tool_calls response)]\<rparr>
                in case k of
                     0 \<Rightarrow> if j < length tcs then Some (run_tools c (take j tcs) s1) else None
                   | Suc k' \<Rightarrow> loop_cancelled c k' j (run_tools c tcs s1)
           else None))"

declare loop_cancelled.simps [simp del]

definition cancelled_in_tools ::
  "'w conv_config \<Rightarrow> string \<Rightarrow> nat \<Rightarrow> nat \<Rightarrow> 'w conv_state \<Rightarrow> 'w conv_state option" where
  "cancelled_in_tools c caller_text k j s =
     (if call_limit_reached c s \<or> int k \<ge> cc_max_tool_iterations c then None
      else loop_cancelled c k j (begin_turn caller_text s))"

section \<open>A whole call\<close>

text \<open>
  A call is a sequence of utterances, each handled in one piece, streamed, or interrupted: while the
  stream is consumed, while a response is awaited, or while a tool is executing. The flag of a tool
  tells whether its effects had already taken place when it was cancelled. An interruption at a moment
  that the turn does not reach does not happen.
\<close>

datatype call_event =
    Answered string
  | Streamed string
  | Stream_Cut string
  | Request_Cut string nat
  | Tool_Cut string nat nat bool

definition stream_cut :: "'w conv_config \<Rightarrow> string \<Rightarrow> 'w conv_state \<Rightarrow> 'w conv_state" where
  "stream_cut c x s =
     (if cc_tools c \<noteq> None \<or> call_limit_reached c s then s
      else abandon_stream x (snd (generate_stream (cc_llm c) (cs_history (begin_turn x s))
             (Some (cc_system_prompt c)) (cs_world s))) s)"

text \<open>The request that is awaited is made, so the world is the one after it.\<close>

definition request_cut :: "'w conv_config \<Rightarrow> string \<Rightarrow> nat \<Rightarrow> 'w conv_state \<Rightarrow> 'w conv_state" where
  "request_cut c x k s =
     (case cancelled_in_request c x k s of
        None \<Rightarrow> s
      | Some s' \<Rightarrow> s'\<lparr>cs_world := snd (generate (cc_llm c) (cs_history s') (Some (cc_system_prompt c)) 1024
          (cc_tools c) (cs_world s'))\<rparr>)"

text \<open>The tool that was cancelled: the first of the last request that has no result.\<close>

definition cancelled_tool :: "nat \<Rightarrow> llm_message list \<Rightarrow> tool_call option" where
  "cancelled_tool j h =
     (case find (\<lambda>m. m_tool_calls m \<noteq> None) (rev h) of
        None \<Rightarrow> None
      | Some m \<Rightarrow> (case drop j (the (m_tool_calls m)) of [] \<Rightarrow> None | tc # _ \<Rightarrow> Some tc))"

definition tool_cut :: "'w conv_config \<Rightarrow> string \<Rightarrow> nat \<Rightarrow> nat \<Rightarrow> bool \<Rightarrow> 'w conv_state \<Rightarrow> 'w conv_state" where
  "tool_cut c x k j took_place s =
     (case cancelled_in_tools c x k j s of
        None \<Rightarrow> s
      | Some s' \<Rightarrow>
          (case if took_place then cancelled_tool j (cs_history s') else None of
             None \<Rightarrow> s'
           | Some tc \<Rightarrow> s'\<lparr>cs_world := cs_world (snd (execute_tool c tc s'))\<rparr>))"

fun event_step :: "'w conv_config \<Rightarrow> call_event \<Rightarrow> 'w conv_state \<Rightarrow> 'w conv_state" where
  "event_step c (Answered x) s = snd (handle_utterance c x s)"
| "event_step c (Streamed x) s = snd (handle_utterance_stream c x s)"
| "event_step c (Stream_Cut x) s = stream_cut c x s"
| "event_step c (Request_Cut x k) s = request_cut c x k s"
| "event_step c (Tool_Cut x k j b) s = tool_cut c x k j b s"

definition run_call :: "'w conv_config \<Rightarrow> call_event list \<Rightarrow> 'w conv_state \<Rightarrow> 'w conv_state" where
  "run_call c evs s = fold (event_step c) evs s"

end
