(* ===== verification/Conversation_Props.thy ===== *)
theory Conversation_Props
  imports Conversation
begin

text \<open>
  What \<open>Conversation\<close> guarantees: the history is always a sequence of turns in which every tool
  request is followed by exactly its results; trimming cuts at turn boundaries; failures roll
  the turn back; the number of LLM calls is bounded per utterance and per call; and the world
  is touched only through the provider and the tool executor (locale \<open>conv_frame\<close> of \<open>Conversation_Frame\<close>).
\<close>

section \<open>Turns\<close>

definition answers :: "tool_call \<Rightarrow> llm_message \<Rightarrow> bool" where
  "answers tc r \<longleftrightarrow> m_role r = TOOL \<and> m_tool_call_id r = Some (tc_id tc) \<and> m_tool_calls r = None"

text \<open>Tool rounds: a request, then one result for each of its calls, in order.\<close>

inductive tool_rounds :: "llm_message list \<Rightarrow> bool" where
  rounds_none: "tool_rounds []"
| rounds_more: "tool_rounds h \<Longrightarrow> m_role a = ASSISTANT \<Longrightarrow> m_tool_calls a = Some tcs \<Longrightarrow>
     tcs \<noteq> [] \<Longrightarrow> list_all2 answers tcs rs \<Longrightarrow> tool_rounds (h @ a # rs)"

definition final_reply :: "llm_message \<Rightarrow> bool" where
  "final_reply a \<longleftrightarrow> m_role a = ASSISTANT \<and> m_tool_calls a = None"

text \<open>
  A turn is the caller's message, tool rounds and the reply; the reply is missing only when the
  turn was interrupted.
\<close>

definition open_turn :: "llm_message list \<Rightarrow> bool" where
  "open_turn t \<longleftrightarrow> (\<exists>u rs. t = u # rs \<and> m_role u = USER \<and> m_tool_calls u = None \<and> tool_rounds rs)"

definition complete_turn :: "llm_message list \<Rightarrow> bool" where
  "complete_turn t \<longleftrightarrow> (\<exists>t' a. t = t' @ [a] \<and> open_turn t' \<and> final_reply a)"

definition is_turn :: "llm_message list \<Rightarrow> bool" where
  "is_turn t \<longleftrightarrow> open_turn t \<or> complete_turn t"

definition turns_of :: "llm_message list \<Rightarrow> llm_message list list \<Rightarrow> bool" where
  "turns_of h ts \<longleftrightarrow> h = concat ts \<and> (\<forall>t \<in> set ts. is_turn t)"

definition history_ok :: "llm_message list \<Rightarrow> bool" where
  "history_ok h \<longleftrightarrow> (\<exists>ts. turns_of h ts)"

text \<open>
  A turn whose last round was cut off while a tool was executing: the request stands with the
  results of the tools before that one.
\<close>

definition cut_turn :: "llm_message list \<Rightarrow> bool" where
  "cut_turn t \<longleftrightarrow> (\<exists>t' a tcs rs. t = t' @ a # rs \<and> open_turn t' \<and> m_role a = ASSISTANT \<and>
     m_tool_calls a = Some tcs \<and> length rs < length tcs \<and> list_all2 answers (take (length rs) tcs) rs)"

definition made_of :: "(llm_message list \<Rightarrow> bool) \<Rightarrow> llm_message list \<Rightarrow> bool" where
  "made_of P h \<longleftrightarrow> (\<exists>ts. h = concat ts \<and> (\<forall>t \<in> set ts. P t))"

lemma history_made_of: "history_ok h \<longleftrightarrow> made_of is_turn h"
  by (simp add: history_ok_def turns_of_def made_of_def)

definition shaped :: "llm_message list \<Rightarrow> bool" where
  "shaped t \<longleftrightarrow> (\<exists>u rs. t = u # rs \<and> m_role u = USER \<and> (\<forall>m \<in> set rs. m_role m \<noteq> USER))"

lemma answers_not_user: "list_all2 answers tcs rs \<Longrightarrow> r \<in> set rs \<Longrightarrow> m_role r \<noteq> USER"
  by (auto simp: list_all2_conv_all_nth in_set_conv_nth answers_def)

lemma tool_rounds_no_user: "tool_rounds h \<Longrightarrow> m \<in> set h \<Longrightarrow> m_role m \<noteq> USER"
  by (induction rule: tool_rounds.induct) (auto dest: answers_not_user)

lemma open_turn_shape: "open_turn t \<Longrightarrow>
    \<exists>u rs. t = u # rs \<and> m_role u = USER \<and> (\<forall>m \<in> set rs. m_role m \<noteq> USER)"
  by (auto simp: open_turn_def dest: tool_rounds_no_user)

lemma turn_shape: "is_turn t \<Longrightarrow>
    \<exists>u rs. t = u # rs \<and> m_role u = USER \<and> (\<forall>m \<in> set rs. m_role m \<noteq> USER)"
  by (fastforce simp: is_turn_def complete_turn_def final_reply_def dest: open_turn_shape)

lemma turn_shaped: "is_turn t \<Longrightarrow> shaped t"
  by (simp add: shaped_def turn_shape)

lemma cut_turn_shaped: "cut_turn t \<Longrightarrow> shaped t"
  by (fastforce simp: cut_turn_def shaped_def dest: open_turn_shape answers_not_user)

lemma turn_nonempty: "is_turn t \<Longrightarrow> t \<noteq> []"
  by (auto dest: turn_shape)

lemma turns_of_append: "turns_of h ts \<Longrightarrow> is_turn t \<Longrightarrow> turns_of (h @ t) (ts @ [t])"
  by (auto simp: turns_of_def)

lemma turns_of_drop: "turns_of h ts \<Longrightarrow> turns_of (concat (drop n ts)) (drop n ts)"
  by (auto simp: turns_of_def dest: in_set_dropD)

lemma open_turn_round:
  assumes "open_turn t" and "m_role a = ASSISTANT" and "m_tool_calls a = Some tcs"
    and "tcs \<noteq> []" and "list_all2 answers tcs rs"
  shows "open_turn (t @ a # rs)"
  using assms by (auto simp: open_turn_def intro: rounds_more)

section \<open>Trimming\<close>

fun turn_starts :: "nat \<Rightarrow> llm_message list list \<Rightarrow> nat list" where
  "turn_starts n [] = []"
| "turn_starts n (t # ts) = n # turn_starts (n + length t) ts"

lemma length_turn_starts [simp]: "length (turn_starts n ts) = length ts"
  by (induction ts arbitrary: n) auto

lemma nth_turn_starts: "j < length ts \<Longrightarrow> turn_starts n ts ! j = n + length (concat (take j ts))"
  by (induction ts arbitrary: n j) (auto simp: nth_Cons split: nat.splits)

lemma user_indices_turns:
  assumes "\<forall>t \<in> set ts. shaped t"
  shows "map fst (filter (\<lambda>(i, m). m_role m = USER) (enumerate n (concat ts))) = turn_starts n ts"
  using assms
proof (induction ts arbitrary: n)
  case Nil
  then show ?case by simp
next
  case (Cons t ts)
  from Cons.prems obtain u rs where t: "t = u # rs" "m_role u = USER"
    and rs: "\<forall>m \<in> set rs. m_role m \<noteq> USER" by (auto simp: shaped_def)
  have "filter (\<lambda>(i, m). m_role m = USER) (enumerate (Suc n) rs) = []"
    using rs by (auto simp: filter_empty_conv in_set_enumerate_eq)
  moreover have "map fst (filter (\<lambda>(i, m). m_role m = USER)
      (enumerate (Suc (n + length rs)) (concat ts))) = turn_starts (Suc (n + length rs)) ts"
    using Cons.prems by (intro Cons.IH) simp
  ultimately show ?case using t by (simp add: enumerate_append_eq)
qed

lemma user_indices_starts: "\<forall>t \<in> set ts. shaped t \<Longrightarrow> user_indices (concat ts) = turn_starts 0 ts"
  using user_indices_turns [of ts 0] by (simp add: user_indices_def)

lemma drop_turn_start:
  assumes "\<forall>t \<in> set ts. shaped t" and "j < length ts"
  shows "drop (user_indices (concat ts) ! j) (concat ts) = concat (drop j ts)"
proof -
  have "concat ts = concat (take j ts) @ concat (drop j ts)" by (simp flip: concat_append)
  moreover have "user_indices (concat ts) ! j = length (concat (take j ts))"
    using assms by (simp add: user_indices_starts nth_turn_starts)
  ultimately show ?thesis by simp
qed

lemma trim_shaped:
  assumes "\<forall>t \<in> set ts. shaped t"
  shows "trim_history k (concat ts) =
    (if int (length ts) \<le> k then Inr (concat ts)
     else if 0 < k then Inr (concat (drop (length ts - nat k) ts))
     else if nat (- k) < length ts then Inr (concat (drop (nat (- k)) ts))
     else Inl (IndexError ''list index out of range''))"
proof -
  have len: "length (user_indices (concat ts)) = length ts" by (simp add: user_indices_starts [OF assms])
  have "nat (int (length ts) - k) = length ts - nat k" if "0 < k" "k < int (length ts)"
    using that by arith
  then show ?thesis
    using drop_turn_start [OF assms] len
    by (auto simp: trim_history_def py_index_def Let_def)
qed

lemma trim_turns:
  assumes "turns_of h ts"
  shows "trim_history k h =
    (if int (length ts) \<le> k then Inr h
     else if 0 < k then Inr (concat (drop (length ts - nat k) ts))
     else if nat (- k) < length ts then Inr (concat (drop (nat (- k)) ts))
     else Inl (IndexError ''list index out of range''))"
  using assms trim_shaped [of ts k] turn_shaped by (auto simp: turns_of_def)

lemma trim_keeps_latest:
  assumes "turns_of h ts" and "1 \<le> k" and "trim_history k h = Inr h'"
  shows "turns_of h' (drop (length ts - nat k) ts)"
proof (cases "int (length ts) \<le> k")
  case True
  then have "length ts - nat k = 0" by simp
  with True assms show ?thesis by (simp add: trim_turns)
next
  case False
  then show ?thesis using assms turns_of_drop [OF assms(1)] by (auto simp: trim_turns)
qed

section \<open>The outcomes of one turn\<close>

text \<open>
  The contract of a turn on a history \<open>h\<close>: roll back and fall back, or answer and trim, or raise
  an exception that is not the provider's.
\<close>

inductive turn_outcome ::
  "int \<Rightarrow> llm_message list \<Rightarrow> agent_reply res \<Rightarrow> llm_message list \<Rightarrow> bool" for k h where
  fell_back: "turn_outcome k h (Inr fallback_reply) h"
| replied: "open_turn t \<Longrightarrow> trim_history k (h @ t @ [text_message ASSISTANT text]) = Inr h' \<Longrightarrow>
     turn_outcome k h (Inr (mk_reply text i (is_transfer_intent i))) h'"
| trim_failed: "open_turn t \<Longrightarrow> trim_history k (h @ t @ [text_message ASSISTANT text]) = Inl e \<Longrightarrow>
     turn_outcome k h (Inl e) (h @ t @ [text_message ASSISTANT text])"
| provider_raised: "open_turn t \<Longrightarrow> (\<And>m. e \<noteq> LLMProviderError m) \<Longrightarrow>
     turn_outcome k h (Inl e) (h @ t)"

inductive_cases turn_outcome_Inr: "turn_outcome k h (Inr r) h'"
inductive_cases turn_outcome_Inl: "turn_outcome k h (Inl e) h'"

lemma execute_tool_fields [simp]:
  "cs_history (snd (execute_tool c tc s)) = cs_history s"
  "cs_turn_count (snd (execute_tool c tc s)) = cs_turn_count s"
  "cs_last_reply (snd (execute_tool c tc s)) = cs_last_reply s"
  "cs_llm_errors (snd (execute_tool c tc s)) = cs_llm_errors s"
  by (simp_all add: execute_tool_def split: prod.split)

lemma run_tools_Cons:
  "run_tools c (tc # tcs) s =
     run_tools c tcs ((snd (execute_tool c tc s))\<lparr>cs_history := cs_history s
       @ [tool_result_message (fst (fst (execute_tool c tc s))) (tc_id tc)
            (snd (fst (execute_tool c tc s)))]\<rparr>)"
  by (simp split: prod.splits) (metis execute_tool_fields(1) snd_conv)

declare run_tools.simps(2) [simp del]

lemma answers_result [simp]: "answers tc (tool_result_message x (tc_id tc) b)"
  by (simp add: answers_def)

lemma run_tools_history:
  "\<exists>rs. cs_history (run_tools c tcs s) = cs_history s @ rs \<and> list_all2 answers tcs rs"
proof (induction tcs arbitrary: s)
  case Nil
  then show ?case by simp
next
  case (Cons tc tcs)
  let ?m = "tool_result_message (fst (fst (execute_tool c tc s))) (tc_id tc)
            (snd (fst (execute_tool c tc s)))"
  from Cons.IH [of "(snd (execute_tool c tc s))\<lparr>cs_history := cs_history s @ [?m]\<rparr>"]
  obtain rs where "cs_history (run_tools c (tc # tcs) s) = (cs_history s @ [?m]) @ rs"
    and "list_all2 answers tcs rs"
    by (auto simp: run_tools_Cons)
  then show ?case by (intro exI [of _ "?m # rs"]) simp
qed

lemma run_tools_fields [simp]:
  "cs_turn_count (run_tools c tcs s) = cs_turn_count s"
  "cs_last_reply (run_tools c tcs s) = cs_last_reply s"
  "cs_llm_errors (run_tools c tcs s) = cs_llm_errors s"
  by (induction tcs arbitrary: s) (simp_all add: run_tools_Cons)

lemma run_tools_open_turn:
  assumes "open_turn t" and "truthy_list tcs" and "cs_history s = h @ t @ [tool_request_message text tcs]"
  obtains t' where "open_turn t'" and "cs_history (run_tools c (the tcs) s) = h @ t'"
proof -
  from assms(2) obtain calls where tcs: "tcs = Some calls" "calls \<noteq> []" by (cases tcs) auto
  obtain rs where rs: "cs_history (run_tools c calls s) = cs_history s @ rs"
    "list_all2 answers calls rs" using run_tools_history by blast
  have "open_turn (t @ tool_request_message text tcs # rs)"
    using assms(1) tcs rs(2) by (intro open_turn_round) auto
  with rs(1) tcs(1) assms(3) show thesis by (intro that) auto
qed

lemma finish_turn_outcome:
  assumes "open_turn t" and "cs_history s = h @ t"
  shows "turn_outcome (cc_max_history_turns c) h (fst (finish_turn c text i s))
    (cs_history (snd (finish_turn c text i s)))"
  using assms by (auto simp: finish_turn_def Let_def split: sum.split intro: replied trim_failed)

lemma tool_loop_outcome:
  assumes "open_turn t" and "cs_history s = h @ t"
  shows "turn_outcome (cc_max_history_turns c) h (fst (tool_loop c (length h) n s))
    (cs_history (snd (tool_loop c (length h) n s)))"
  using assms
proof (induction n arbitrary: s t)
  case 0
  then show ?case by (simp add: drop_turn_def fell_back)
next
  case (Suc n)
  obtain r w where g: "generate (cc_llm c) (cs_history s) (Some (cc_system_prompt c)) 1024
      (cc_tools c) (cs_world s) = (r, w)" by fastforce
  show ?case
  proof (cases r)
    case (Inl e)
    show ?thesis
    proof (cases "\<exists>m. e = LLMProviderError m")
      case True
      with g Inl Suc.prems show ?thesis by (auto simp: drop_turn_def intro: fell_back)
    next
      case False
      then have "tool_loop c (length h) (Suc n) s = (Inl e, s\<lparr>cs_world := w\<rparr>)"
        using g Inl by (cases e) auto
      with False Suc.prems show ?thesis by (auto intro: provider_raised)
    qed
  next
    case (Inr resp)
    show ?thesis
    proof (cases "truthy_list (r_tool_calls resp)")
      case True
      let ?s = "s\<lparr>cs_world := w, cs_history := cs_history s
        @ [tool_request_message (r_content resp) (r_tool_calls resp)]\<rparr>"
      obtain t' where "open_turn t'"
        "cs_history (run_tools c (the (r_tool_calls resp)) ?s) = h @ t'"
        using run_tools_open_turn [of t "r_tool_calls resp" ?s h] True Suc.prems by auto
      from Suc.IH [OF this] show ?thesis using g Inr True by simp
    next
      case False
      then show ?thesis using g Inr Suc.prems
        by (auto split: prod.split intro!: finish_turn_outcome)
    qed
  qed
qed

lemma open_turn_user: "open_turn [text_message USER x]"
  by (simp add: open_turn_def rounds_none)

lemma begin_turn_fields [simp]:
  "cs_history (begin_turn x s) = cs_history s @ [text_message USER x]"
  "cs_world (begin_turn x s) = cs_world s"
  "cs_turn_count (begin_turn x s) = cs_turn_count s + 1"
  by (simp_all add: begin_turn_def)

text \<open>Every turn that is not cut off by the call limit meets the contract.\<close>

lemma handle_utterance_outcome:
  "\<not> call_limit_reached c s \<Longrightarrow>
   turn_outcome (cc_max_history_turns c) (cs_history s) (fst (handle_utterance c x s))
     (cs_history (snd (handle_utterance c x s)))"
  by (simp add: handle_utterance_def tool_loop_outcome [OF open_turn_user])

section \<open>Whole calls\<close>

text \<open>
  What can happen to a conversation: an utterance handled in one piece or streamed, a reply that the
  caller interrupts while the provider is awaited, and the world moving on in between. Apart from
  these, the caller may interrupt while a tool is executing; \<open>conv_reach c broken\<close> are the states
  that a conversation reaches, and \<open>broken\<close> tells whether that has happened.
\<close>

inductive conv_step :: "'w conv_config \<Rightarrow> 'w conv_state \<Rightarrow> 'w conv_state \<Rightarrow> bool" for c where
  utterance: "conv_step c s (snd (handle_utterance c x s))"
| streamed: "conv_step c s (snd (handle_utterance_stream c x s))"
| interrupted: "cc_tools c = None \<Longrightarrow> \<not> call_limit_reached c s \<Longrightarrow>
     conv_step c s (abandon_stream x w s)"
| interrupted_request: "cancelled_in_request c x k s = Some s' \<Longrightarrow> conv_step c s s'"
| world_moves: "conv_step c s (s\<lparr>cs_world := w\<rparr>)"

inductive conv_reach :: "'w conv_config \<Rightarrow> bool \<Rightarrow> 'w conv_state \<Rightarrow> bool" for c where
  start: "cs_history s = [] \<Longrightarrow> conv_reach c False s"
| next_step: "conv_reach c broken s \<Longrightarrow> conv_step c s s' \<Longrightarrow> conv_reach c broken s'"
| tool_cut: "conv_reach c broken s \<Longrightarrow> cancelled_in_tools c x k j s = Some s' \<Longrightarrow> conv_reach c True s'"

lemma stream_outcome:
  assumes "cc_tools c = None" and "\<not> call_limit_reached c s"
  shows "\<exists>r. turn_outcome (cc_max_history_turns c) (cs_history s) r
    (cs_history (snd (handle_utterance_stream c x s)))"
proof -
  let ?s1 = "begin_turn x s"
  let ?k = "cc_max_history_turns c" and ?h = "cs_history s"
  obtain ds f w where g: "generate_stream (cc_llm c) (cs_history ?s1) (Some (cc_system_prompt c))
      (cs_world ?s1) = ((ds, f), w)" by (metis prod.exhaust)
  obtain outs y where f: "feed_all new_extractor ds = (outs, y)" by fastforce
  obtain full trailing i y' where fin: "finalize y = ((full, trailing, i), y')"
    by (metis prod.exhaust)
  show ?thesis
  proof (cases f)
    case None
    let ?s2 = "?s1\<lparr>cs_world := w\<rparr>"
    have "turn_outcome ?k ?h (fst (finish_turn c full i ?s2)) (cs_history (snd (finish_turn c full i ?s2)))"
      by (rule finish_turn_outcome [OF open_turn_user [of x]]) simp
    moreover have "cs_history (snd (handle_utterance_stream c x s)) =
        cs_history (snd (finish_turn c full i ?s2))"
      using assms None g f fin
      by (auto simp: handle_utterance_stream_def Let_def split: prod.splits sum.splits)
    ultimately show ?thesis by auto
  next
    case (Some e)
    show ?thesis
    proof (cases "\<exists>m. e = LLMProviderError m")
      case True
      with assms Some g f have "cs_history (snd (handle_utterance_stream c x s)) = ?h"
        by (auto simp: handle_utterance_stream_def Let_def drop_turn_def)
      then show ?thesis using fell_back by auto
    next
      case False
      with assms Some g f have "cs_history (snd (handle_utterance_stream c x s))
          = ?h @ [text_message USER x]"
        by (cases e) (auto simp: handle_utterance_stream_def Let_def)
      with False show ?thesis
        using provider_raised [OF open_turn_user [of x], of e ?k ?h] by auto
    qed
  qed
qed

lemma stream_limit:
  "cc_tools c = None \<Longrightarrow> call_limit_reached c s \<Longrightarrow>
   handle_utterance_stream c x s =
     (([call_limit_message], None), s\<lparr>cs_last_reply := Some call_limit_reply\<rparr>)"
  by (simp add: handle_utterance_stream_def)

lemma stream_tools:
  "cc_tools c \<noteq> None \<Longrightarrow>
   cs_history (snd (handle_utterance_stream c x s)) = cs_history (snd (handle_utterance c x s))"
  by (auto simp: handle_utterance_stream_def split: prod.splits sum.splits)

text \<open>Where the tool loop can be cut off.\<close>

abbreviation after_request :: "llm_response \<Rightarrow> 'w \<Rightarrow> 'w conv_state \<Rightarrow> 'w conv_state" where
  "after_request resp w s \<equiv> s\<lparr>cs_world := w, cs_history := cs_history s
     @ [tool_request_message (r_content resp) (r_tool_calls resp)]\<rparr>"

lemma loop_waiting_Suc:
  "loop_waiting c (Suc k) s = Some s' \<Longrightarrow> \<exists>resp w. truthy_list (r_tool_calls resp) \<and>
     loop_waiting c k (run_tools c (the (r_tool_calls resp)) (after_request resp w s)) = Some s'"
  by (simp split: prod.splits sum.splits if_splits) blast

lemma loop_cancelled_Suc:
  "loop_cancelled c (Suc k) j s = Some s' \<Longrightarrow> \<exists>resp w. truthy_list (r_tool_calls resp) \<and>
     loop_cancelled c k j (run_tools c (the (r_tool_calls resp)) (after_request resp w s)) = Some s'"
  by (subst (asm) loop_cancelled.simps) (simp add: Let_def split: prod.splits sum.splits if_splits, blast)

lemma loop_cancelled_0:
  "loop_cancelled c 0 j s = Some s' \<Longrightarrow> \<exists>resp w tcs. r_tool_calls resp = Some tcs \<and> j < length tcs \<and>
     s' = run_tools c (take j tcs) (after_request resp w s)"
  by (subst (asm) loop_cancelled.simps)
    (simp add: Let_def split: prod.splits sum.splits if_splits,
      metis option.collapse truthy_list_simps(1))

lemma loop_waiting_history:
  assumes "loop_waiting c k s = Some s'" and "open_turn t" and "cs_history s = h @ t"
  shows "\<exists>t'. open_turn t' \<and> cs_history s' = h @ t'"
  using assms
proof (induction k arbitrary: s t)
  case 0
  then show ?case by auto
next
  case (Suc k)
  from loop_waiting_Suc [OF Suc.prems(1)] obtain resp w where calls: "truthy_list (r_tool_calls resp)"
    and waiting: "loop_waiting c k (run_tools c (the (r_tool_calls resp)) (after_request resp w s)) = Some s'"
    by blast
  let ?s = "after_request resp w s"
  have "cs_history ?s = h @ t @ [tool_request_message (r_content resp) (r_tool_calls resp)]"
    using Suc.prems(3) by simp
  then obtain t' where "open_turn t'" "cs_history (run_tools c (the (r_tool_calls resp)) ?s) = h @ t'"
    by (rule run_tools_open_turn [OF Suc.prems(2) calls])
  with waiting Suc.IH show ?case by blast
qed

lemma run_tools_cut:
  assumes "open_turn t" and "cs_history s = h @ t @ [tool_request_message text (Some tcs)]"
    and "j < length tcs"
  shows "\<exists>t'. cut_turn t' \<and> cs_history (run_tools c (take j tcs) s) = h @ t'"
proof -
  obtain rs where rs: "cs_history (run_tools c (take j tcs) s) = cs_history s @ rs"
    "list_all2 answers (take j tcs) rs" using run_tools_history by blast
  then have "length rs = j" using assms(3) by (auto dest: list_all2_lengthD)
  then have "cut_turn (t @ tool_request_message text (Some tcs) # rs)"
    using assms rs(2) unfolding cut_turn_def
    by (intro exI [of _ t] exI [of _ "tool_request_message text (Some tcs)"] exI [of _ tcs] exI [of _ rs]) auto
  with rs(1) assms(2) show ?thesis by auto
qed

lemma loop_cancelled_turn:
  assumes "loop_cancelled c k j s = Some s'" and "open_turn t" and "cs_history s = h @ t"
  shows "\<exists>t'. cut_turn t' \<and> cs_history s' = h @ t'"
  using assms
proof (induction k arbitrary: s t)
  case 0
  from loop_cancelled_0 [OF 0(1)] obtain resp w tcs where "r_tool_calls resp = Some tcs" "j < length tcs"
    "s' = run_tools c (take j tcs) (after_request resp w s)" by blast
  with 0(2,3) run_tools_cut [OF 0(2), of "after_request resp w s" h "r_content resp" tcs j c] show ?case by simp
next
  case (Suc k)
  from loop_cancelled_Suc [OF Suc.prems(1)] obtain resp w where calls: "truthy_list (r_tool_calls resp)"
    and rest: "loop_cancelled c k j (run_tools c (the (r_tool_calls resp)) (after_request resp w s)) = Some s'"
    by blast
  let ?s = "after_request resp w s"
  have "cs_history ?s = h @ t @ [tool_request_message (r_content resp) (r_tool_calls resp)]"
    using Suc.prems(3) by simp
  then obtain t' where "open_turn t'" "cs_history (run_tools c (the (r_tool_calls resp)) ?s) = h @ t'"
    by (rule run_tools_open_turn [OF Suc.prems(2) calls])
  with rest Suc.IH show ?case by blast
qed

lemma cancelled_in_request_turn:
  "cancelled_in_request c x k s = Some s' \<Longrightarrow> \<exists>t. open_turn t \<and> cs_history s' = cs_history s @ t"
  using loop_waiting_history [OF _ open_turn_user, of c k "begin_turn x s" s' "cs_history s" x]
  by (simp add: cancelled_in_request_def split: if_splits)

lemma cancelled_in_tools_turn:
  "cancelled_in_tools c x k j s = Some s' \<Longrightarrow> \<exists>t. cut_turn t \<and> cs_history s' = cs_history s @ t"
  using loop_cancelled_turn [OF _ open_turn_user, of c k j "begin_turn x s" s' "cs_history s" x]
  by (simp add: cancelled_in_tools_def split: if_splits)

text \<open>
  Histories made of turns of one kind: every step keeps them, as long as the kind has all the turns
  that a step can leave and every turn begins with its only message of the caller.
\<close>

locale turn_kind =
  fixes P :: "llm_message list \<Rightarrow> bool"
  assumes turns_in: "is_turn t \<Longrightarrow> P t"
    and starts: "P t \<Longrightarrow> shaped t"
begin

lemma empty_made: "made_of P []"
  by (auto simp: made_of_def intro: exI [of _ "[]"])

lemma append_made: "made_of P h \<Longrightarrow> P t \<Longrightarrow> made_of P (h @ t)"
  unfolding made_of_def by (elim exE) (rule_tac x = "ts @ [t]" in exI, auto)

lemma open_made: "made_of P h \<Longrightarrow> open_turn t \<Longrightarrow> made_of P (h @ t)"
  by (rule append_made) (auto intro: turns_in simp: is_turn_def)

lemma complete_made: "made_of P h \<Longrightarrow> open_turn t \<Longrightarrow> made_of P (h @ t @ [text_message ASSISTANT x])"
  by (rule append_made) (auto intro!: turns_in simp: is_turn_def complete_turn_def final_reply_def)

lemma trim_made:
  assumes "made_of P h" and "trim_history k h = Inr h'"
  shows "made_of P h'"
proof -
  from assms(1) obtain ts where ts: "h = concat ts" "\<forall>t \<in> set ts. P t" by (auto simp: made_of_def)
  then have trim: "\<exists>n. h' = concat (drop n ts)"
    using assms(2) trim_shaped [of ts k] starts by (auto split: if_splits intro: exI [of _ 0])
  then obtain n where "h' = concat (drop n ts)" ..
  with ts(2) show ?thesis unfolding made_of_def by (blast dest: in_set_dropD)
qed

lemma outcome_made: "turn_outcome k h r h' \<Longrightarrow> made_of P h \<Longrightarrow> made_of P h'"
  by (erule turn_outcome.cases) (auto intro: open_made complete_made trim_made [OF complete_made])

lemma utterance_made:
  "made_of P (cs_history s) \<Longrightarrow> made_of P (cs_history (snd (handle_utterance c x s)))"
  by (cases "call_limit_reached c s")
    (simp add: handle_utterance_def, blast intro: outcome_made handle_utterance_outcome)

lemma stream_made:
  assumes "made_of P (cs_history s)"
  shows "made_of P (cs_history (snd (handle_utterance_stream c x s)))"
proof (cases "cc_tools c = None")
  case True
  then show ?thesis
    using stream_outcome [of c s x] outcome_made [OF _ assms] assms
    by (cases "call_limit_reached c s") (auto simp: stream_limit)
next
  case False
  then show ?thesis using utterance_made [OF assms, of c x] by (simp add: stream_tools)
qed

lemma step_made:
  assumes "conv_step c s s'" and "made_of P (cs_history s)"
  shows "made_of P (cs_history s')"
  using assms
proof (cases rule: conv_step.cases)
  case (interrupted x w)
  then show ?thesis using open_made [OF assms(2) open_turn_user] by (simp add: abandon_stream_def)
next
  case (interrupted_request x k)
  then show ?thesis using open_made [OF assms(2)] by (auto dest: cancelled_in_request_turn)
qed (use assms(2) in \<open>simp_all add: utterance_made stream_made\<close>)

end

interpretation whole: turn_kind is_turn
  by unfold_locales (simp_all add: turn_shaped)

abbreviation cut_or_turn :: "llm_message list \<Rightarrow> bool" where
  "cut_or_turn t \<equiv> is_turn t \<or> cut_turn t"

interpretation broken: turn_kind cut_or_turn
  by unfold_locales (auto simp: turn_shaped cut_turn_shaped)

lemma conv_reach_ok: "conv_reach c False s \<Longrightarrow> history_ok (cs_history s)"
  by (induction "False" s rule: conv_reach.induct)
    (auto simp: history_made_of whole.empty_made intro: whole.step_made)

lemma conv_reach_cut: "conv_reach c b s \<Longrightarrow> made_of cut_or_turn (cs_history s)"
proof (induction rule: conv_reach.induct)
  case (tool_cut b s x k j s')
  then show ?case using cancelled_in_tools_turn [OF tool_cut.hyps(2)] by (auto intro: broken.append_made)
qed (auto simp: broken.empty_made intro: broken.step_made)

text \<open>
  The pairing that both wire formats demand, as an executable check: wherever a tool request
  stands, exactly its results follow.
\<close>

fun results_follow :: "llm_message list \<Rightarrow> bool" where
  "results_follow [] = True"
| "results_follow (m # h) =
     ((case m_tool_calls m of
         None \<Rightarrow> True
       | Some tcs \<Rightarrow> list_all2 answers tcs (take (length tcs) h)) \<and> results_follow h)"

lemma answered_in_prefix:
  "list_all2 answers tcs (take (length tcs) h) \<Longrightarrow> take (length tcs) (h @ h') = take (length tcs) h"
  by (drule list_all2_lengthD) simp

lemma results_follow_append:
  "results_follow h \<Longrightarrow> results_follow h' \<Longrightarrow> results_follow (h @ h')"
  by (induction h) (auto simp: answered_in_prefix simp del: take_append split: option.splits)

lemma results_follow_plain: "\<forall>r \<in> set h. m_tool_calls r = None \<Longrightarrow> results_follow h"
  by (induction h) auto

lemma answers_plain: "list_all2 answers tcs rs \<Longrightarrow> \<forall>r \<in> set rs. m_tool_calls r = None"
  by (auto simp: list_all2_conv_all_nth in_set_conv_nth answers_def)

lemma tool_rounds_follow: "tool_rounds h \<Longrightarrow> results_follow h"
proof (induction rule: tool_rounds.induct)
  case rounds_none
  then show ?case by simp
next
  case (rounds_more h a tcs rs)
  then have "results_follow (a # rs)"
    using list_all2_lengthD [of answers tcs rs]
    by (auto intro: results_follow_plain dest: answers_plain)
  with rounds_more show ?case by (blast intro: results_follow_append)
qed

lemma open_turn_follow: "open_turn t \<Longrightarrow> results_follow t"
  by (auto simp: open_turn_def tool_rounds_follow)

lemma turn_follow: "is_turn t \<Longrightarrow> results_follow t"
  by (auto simp: is_turn_def complete_turn_def final_reply_def open_turn_follow
    intro!: results_follow_append)

lemma turns_follow: "\<forall>t \<in> set ts. is_turn t \<Longrightarrow> results_follow (concat ts)"
  by (induction ts) (auto intro: results_follow_append turn_follow)

lemma history_follow: "history_ok h \<Longrightarrow> results_follow h"
  by (auto simp: history_ok_def turns_of_def turns_follow)

lemma request_cut_short:
  "m_tool_calls a = Some tcs \<Longrightarrow> length rs < length tcs \<Longrightarrow> \<not> results_follow (h @ a # rs)"
proof (induction h)
  case Nil
  then show ?case by (auto dest: list_all2_lengthD)
next
  case (Cons m h)
  then show ?case by simp
qed

text \<open>The gap is not healed by the caller's next message.\<close>

lemma request_cut_short_for_good:
  assumes "m_tool_calls a = Some tcs" and "length rs < length tcs" and "m_role u = USER"
  shows "\<not> results_follow (h @ a # rs @ u # h')"
proof (induction h)
  case Nil
  have "\<not> list_all2 answers tcs (take (length tcs) (rs @ u # h'))"
  proof
    assume "list_all2 answers tcs (take (length tcs) (rs @ u # h'))"
    then have "answers (tcs ! length rs) (take (length tcs) (rs @ u # h') ! length rs)"
      using assms(2) by (simp add: list_all2_conv_all_nth)
    with assms(2,3) show False by (simp add: answers_def nth_append)
  qed
  with assms(1) show ?case by simp
next
  case (Cons m h)
  then show ?case by simp
qed

lemma loop_cancelled_history:
  "loop_cancelled c k j s = Some s' \<Longrightarrow>
   \<exists>h a tcs rs. cs_history s' = h @ a # rs \<and> m_tool_calls a = Some tcs \<and> length rs < length tcs"
proof (induction k arbitrary: s)
  case 0
  then obtain resp w where g: "generate (cc_llm c) (cs_history s) (Some (cc_system_prompt c)) 1024
      (cc_tools c) (cs_world s) = (Inr resp, w)"
    and t: "truthy_list (r_tool_calls resp)"
    by (subst (asm) loop_cancelled.simps) (auto split: prod.splits sum.splits if_splits)
  let ?s1 = "s\<lparr>cs_world := w, cs_history := cs_history s
    @ [tool_request_message (r_content resp) (r_tool_calls resp)]\<rparr>"
  from t obtain tcs where tcs: "r_tool_calls resp = Some tcs" "tcs \<noteq> []"
    by (cases "r_tool_calls resp") auto
  from 0 g tcs have j: "j < length tcs" and s': "s' = run_tools c (take j tcs) ?s1"
    by (subst (asm) (1) loop_cancelled.simps, simp add: Let_def split: if_splits)+
  obtain rs where "cs_history s' = cs_history ?s1 @ rs" "list_all2 answers (take j tcs) rs"
    using run_tools_history s' by blast
  with j tcs show ?case
    by (intro exI [of _ "cs_history s"]
      exI [of _ "tool_request_message (r_content resp) (r_tool_calls resp)"]
      exI [of _ tcs] exI [of _ rs]) (auto dest: list_all2_lengthD)
next
  case (Suc k)
  then show ?case
    by (subst (asm) (2) loop_cancelled.simps)
      (auto simp: Let_def split: prod.splits sum.splits if_splits dest: Suc.IH)
qed

subsection \<open>Trimming never fails for a non-negative bound\<close>

lemma trim_total: "0 \<le> k \<Longrightarrow> \<exists>h'. trim_history k h = Inr h'"
  by (auto simp: trim_history_def py_index_def Let_def)

lemma finish_turn_total:
  "0 \<le> cc_max_history_turns c \<Longrightarrow> \<exists>s'. finish_turn c text i s =
     (Inr (mk_reply text i (is_transfer_intent i)), s')"
  using trim_total [of "cc_max_history_turns c" "cs_history s @ [text_message ASSISTANT text]"]
  by (auto simp: finish_turn_def Let_def)

section \<open>Counting the calls of the provider\<close>

text \<open>The same conversation over a world that also counts the calls of \<^verbatim>\<open>generate\<close> and
  \<^verbatim>\<open>generate_stream\<close>.\<close>

definition counted_llm :: "'w llm_provider \<Rightarrow> ('w \<times> nat) llm_provider" where
  "counted_llm p =
     \<lparr>generate = (\<lambda>h sp mt tls (w, n). case generate p h sp mt tls w of (r, w') \<Rightarrow> (r, (w', Suc n))),
      generate_stream = (\<lambda>h sp (w, n). case generate_stream p h sp w of (r, w') \<Rightarrow> (r, (w', Suc n)))\<rparr>"

definition counted :: "'w conv_config \<Rightarrow> ('w \<times> nat) conv_config" where
  "counted c =
     \<lparr>cc_llm = counted_llm (cc_llm c), cc_system_prompt = cc_system_prompt c,
      cc_call_id = cc_call_id c, cc_max_history_turns = cc_max_history_turns c,
      cc_tools = cc_tools c,
      cc_tool_executor = map_option (\<lambda>ex tc (w, n). case ex tc w of (r, w') \<Rightarrow> (r, (w', n)))
        (cc_tool_executor c),
      cc_max_tool_iterations = cc_max_tool_iterations c,
      cc_max_conversation_turns = cc_max_conversation_turns c,
      cc_max_call_duration_seconds = cc_max_call_duration_seconds c,
      cc_call_started_at = cc_call_started_at c, cc_now = cc_now c \<circ> fst\<rparr>"

definition llm_calls :: "('w \<times> nat) conv_state \<Rightarrow> nat" where
  "llm_calls s = snd (cs_world s)"

lemma execute_tool_counted [simp]: "llm_calls (snd (execute_tool (counted c) tc s)) = llm_calls s"
  by (auto simp: execute_tool_def llm_calls_def counted_def split: option.splits prod.splits sum.splits)

lemma llm_calls_update [simp]:
  "llm_calls (s\<lparr>cs_history := h\<rparr>) = llm_calls s"
  "llm_calls (s\<lparr>cs_turn_count := n\<rparr>) = llm_calls s"
  "llm_calls (s\<lparr>cs_last_reply := r\<rparr>) = llm_calls s"
  "llm_calls (s\<lparr>cs_llm_errors := e\<rparr>) = llm_calls s"
  "llm_calls (s\<lparr>cs_world := w\<rparr>) = snd w"
  by (simp_all add: llm_calls_def)

lemma run_tools_counted [simp]: "llm_calls (run_tools (counted c) tcs s) = llm_calls s"
  by (induction tcs arbitrary: s) (simp_all add: run_tools_Cons)

lemma finish_turn_counted [simp]: "llm_calls (snd (finish_turn c text i s)) = llm_calls s"
  by (simp add: finish_turn_def Let_def llm_calls_def split: sum.splits)

lemma finish_turn_count [simp]: "cs_turn_count (snd (finish_turn c text i s)) = cs_turn_count s"
  by (simp add: finish_turn_def Let_def split: sum.splits)

lemma generate_counted:
  "generate (cc_llm (counted c)) h sp mt tls w =
     (case generate (cc_llm c) h sp mt tls (fst w) of (r, w') \<Rightarrow> (r, (w', Suc (snd w))))"
  by (cases w) (simp add: counted_def counted_llm_def)

lemma tool_loop_counted:
  "llm_calls (snd (tool_loop (counted c) ts n s)) \<le> llm_calls s + n \<and>
   cs_turn_count (snd (tool_loop (counted c) ts n s)) = cs_turn_count s"
proof (induction n arbitrary: s)
  case 0
  then show ?case by (simp add: drop_turn_def)
next
  case (Suc n)
  obtain r w where g: "generate (cc_llm c) (cs_history s) (Some (cc_system_prompt (counted c))) 1024
      (cc_tools (counted c)) (fst (cs_world s)) = (r, w)" by fastforce
  have calls: "llm_calls s = snd (cs_world s)" by (simp add: llm_calls_def)
  show ?case
  proof (cases r)
    case (Inl e)
    with g calls show ?thesis
      by (cases e) (simp_all add: generate_counted drop_turn_def)
  next
    case (Inr resp)
    with g calls show ?thesis
      using Suc.IH [of "run_tools (counted c) (the (r_tool_calls resp))
        (s\<lparr>cs_world := (w, Suc (snd (cs_world s))), cs_history := cs_history s
          @ [tool_request_message (r_content resp) (r_tool_calls resp)]\<rparr>)"]
      by (auto simp: generate_counted split: prod.splits)
  qed
qed

lemma counted_fields [simp]:
  "cc_max_tool_iterations (counted c) = cc_max_tool_iterations c"
  "cc_max_conversation_turns (counted c) = cc_max_conversation_turns c"
  "cc_max_history_turns (counted c) = cc_max_history_turns c"
  by (simp_all add: counted_def)

lemma llm_calls_begin [simp]: "llm_calls (begin_turn x s) = llm_calls s"
  by (simp add: begin_turn_def)

text \<open>What one turn may cost: \<open>n\<close> calls of the model, and one turn of the count.\<close>

definition turn_costs :: "nat \<Rightarrow> ('w \<times> nat) conv_state \<Rightarrow> ('w \<times> nat) conv_state \<Rightarrow> bool" where
  "turn_costs n s s' \<longleftrightarrow> llm_calls s' \<le> llm_calls s + n \<and> cs_turn_count s' = cs_turn_count s + 1"

lemma run_tools_count [simp]: "cs_turn_count (run_tools c tcs s) = cs_turn_count s"
  by simp

lemma loop_waiting_counted:
  "loop_waiting (counted c) k s = Some s' \<Longrightarrow>
   llm_calls s' \<le> llm_calls s + k \<and> cs_turn_count s' = cs_turn_count s"
proof (induction k arbitrary: s)
  case 0
  then show ?case by simp
next
  case (Suc k)
  obtain r w where g: "generate (cc_llm c) (cs_history s) (Some (cc_system_prompt (counted c))) 1024
      (cc_tools (counted c)) (fst (cs_world s)) = (r, w)" by fastforce
  have calls: "llm_calls s = snd (cs_world s)" by (simp add: llm_calls_def)
  from Suc.prems g obtain resp where "r = Inr resp"
    "loop_waiting (counted c) k (run_tools (counted c) (the (r_tool_calls resp))
      (after_request resp (w, Suc (snd (cs_world s))) s)) = Some s'"
    by (auto simp: generate_counted split: sum.splits if_splits)
  with Suc.IH calls show ?case by fastforce
qed

lemma loop_cancelled_counted:
  "loop_cancelled (counted c) k j s = Some s' \<Longrightarrow>
   llm_calls s' \<le> llm_calls s + Suc k \<and> cs_turn_count s' = cs_turn_count s"
proof (induction k arbitrary: s)
  case 0
  then show ?case
    by (subst (asm) loop_cancelled.simps)
      (auto simp: generate_counted llm_calls_def [of s] Let_def split: prod.splits sum.splits if_splits)
next
  case (Suc k)
  obtain r w where g: "generate (cc_llm c) (cs_history s) (Some (cc_system_prompt (counted c))) 1024
      (cc_tools (counted c)) (fst (cs_world s)) = (r, w)" by fastforce
  have calls: "llm_calls s = snd (cs_world s)" by (simp add: llm_calls_def)
  from Suc.prems g obtain resp where "r = Inr resp"
    "loop_cancelled (counted c) k j (run_tools (counted c) (the (r_tool_calls resp))
      (after_request resp (w, Suc (snd (cs_world s))) s)) = Some s'"
    by (subst (asm) loop_cancelled.simps) (auto simp: generate_counted Let_def split: sum.splits if_splits)
  with Suc.IH calls show ?case by fastforce
qed

lemma utterance_counted:
  "handle_utterance (counted c) x s = (r, s') \<Longrightarrow>
   (if call_limit_reached (counted c) s then s' = s else turn_costs (nat (cc_max_tool_iterations c)) s s')"
  using tool_loop_counted [of c "length (cs_history s)" "nat (cc_max_tool_iterations c)" "begin_turn x s"]
  by (auto simp: handle_utterance_def turn_costs_def)

section \<open>What a short call keeps\<close>

text \<open>
  As long as there are not more turns than the history may hold, every event keeps what the history
  held before and adds at most one turn.
\<close>

definition callers :: "llm_message list \<Rightarrow> nat" where
  "callers h = length (filter (\<lambda>m. m_role m = USER) h)"

lemma callers_append [simp]: "callers (h @ h') = callers h + callers h'"
  by (simp add: callers_def)

lemma callers_indices: "length (user_indices h) = callers h"
proof -
  have "length (filter (\<lambda>(i, m). m_role m = USER) (enumerate n h)) = length (filter (\<lambda>m. m_role m = USER) h)" for n
    by (induction h arbitrary: n) auto
  then show ?thesis by (simp add: user_indices_def callers_def)
qed

lemma shaped_callers: "shaped t \<Longrightarrow> callers t = 1"
  by (auto simp: shaped_def callers_def filter_empty_conv)

lemma open_turn_callers: "open_turn t \<Longrightarrow> callers t = 1"
  by (rule shaped_callers, rule turn_shaped) (simp add: is_turn_def)

definition kept :: "llm_message list \<Rightarrow> llm_message list \<Rightarrow> bool" where
  "kept h h' \<longleftrightarrow> prefix h h' \<and> callers h' \<le> callers h + 1"

lemma kept_refl: "kept h h"
  by (simp add: kept_def)

lemma kept_open: "open_turn t \<Longrightarrow> kept h (h @ t)"
  by (simp add: kept_def open_turn_callers)

lemma kept_complete: "open_turn t \<Longrightarrow> kept h (h @ t @ [text_message ASSISTANT x])"
  by (simp add: kept_def open_turn_callers) (simp add: callers_def)

lemma kept_cut: "cut_turn t \<Longrightarrow> kept h (h @ t)"
  by (simp add: kept_def shaped_callers [OF cut_turn_shaped])

lemma outcome_kept:
  assumes "turn_outcome k h r h'" and "int (callers h) < k"
  shows "kept h h'"
  using assms
proof (cases rule: turn_outcome.cases)
  case (replied t x i)
  have "\<not> int (length (user_indices (h @ t @ [text_message ASSISTANT x]))) > k"
    using assms(2) kept_complete [OF replied(2), of h x] unfolding callers_indices kept_def by linarith
  then have "trim_history k (h @ t @ [text_message ASSISTANT x]) = Inr (h @ t @ [text_message ASSISTANT x])"
    by (simp add: trim_history_def)
  with replied(3) have "h' = h @ t @ [text_message ASSISTANT x]" by simp
  then show ?thesis using kept_complete [OF replied(2), of h x] by simp
qed (simp_all add: kept_refl kept_open kept_complete)

lemma event_kept:
  assumes "int (callers (cs_history s)) < cc_max_history_turns c"
  shows "kept (cs_history s) (cs_history (event_step c ev s))"
proof -
  have utterance: "kept (cs_history s) (cs_history (snd (handle_utterance c x s)))" for x
  proof (cases "call_limit_reached c s")
    case True
    then show ?thesis by (simp add: handle_utterance_def kept_refl)
  next
    case False
    from outcome_kept [OF handle_utterance_outcome [OF this] assms] show ?thesis .
  qed
  show ?thesis
  proof (cases ev)
    case (Answered x)
    then show ?thesis using utterance by simp
  next
    case (Streamed x)
    then show ?thesis
      using utterance [of x] stream_outcome [of c s x] outcome_kept [OF _ assms]
      by (cases "cc_tools c = None"; cases "call_limit_reached c s")
        (auto simp: stream_tools stream_limit kept_refl)
  next
    case (Stream_Cut x)
    then show ?thesis by (simp add: stream_cut_def abandon_stream_def kept_refl kept_open open_turn_user)
  next
    case (Request_Cut x k)
    then show ?thesis
      using kept_open by (auto simp: request_cut_def kept_refl dest!: cancelled_in_request_turn split: option.split)
  next
    case (Tool_Cut x k j b)
    then show ?thesis
      using kept_cut by (auto simp: tool_cut_def kept_refl dest!: cancelled_in_tools_turn split: option.split)
  qed
qed

lemma short_call_kept:
  "int (callers (cs_history s) + length evs) \<le> cc_max_history_turns c \<Longrightarrow>
   prefix (cs_history s) (cs_history (run_call c evs s)) \<and>
   callers (cs_history (run_call c evs s)) \<le> callers (cs_history s) + length evs"
proof (induction evs arbitrary: s)
  case Nil
  show ?case by (simp add: run_call_def)
next
  case (Cons ev evs)
  let ?s = "event_step c ev s"
  have k: "kept (cs_history s) (cs_history ?s)" using Cons.prems by (intro event_kept) simp
  have run: "run_call c (ev # evs) s = run_call c evs ?s" by (simp add: run_call_def)
  have "int (callers (cs_history ?s) + length evs) \<le> cc_max_history_turns c"
    using Cons.prems k by (simp add: kept_def)
  from Cons.IH [OF this] k show ?case
    unfolding run kept_def by (auto intro: prefix_order.trans)
qed

lemma short_call_keeps_all:
  assumes "cs_history s = []" and "int (length evs) \<le> cc_max_history_turns c"
  shows "prefix (cs_history (run_call c (take i evs) s)) (cs_history (run_call c evs s))"
proof -
  have none: "callers (cs_history s) = 0" using assms(1) by (simp add: callers_def)
  have "run_call c evs s = run_call c (drop i evs) (run_call c (take i evs) s)"
    by (metis append_take_drop_id comp_apply fold_append run_call_def)
  moreover have "callers (cs_history (run_call c (take i evs) s)) \<le> length (take i evs)"
    using short_call_kept [of s "take i evs" c] assms none by simp
  then have "int (callers (cs_history (run_call c (take i evs) s)) + length (drop i evs)) \<le> cc_max_history_turns c"
    using assms(2) by (cases "i \<le> length evs") (auto simp: of_nat_diff)
  ultimately show ?thesis using short_call_kept by metis
qed

end
