(* ===== verification/Conversation_Thms.thy ===== *)
theory Conversation_Thms
  imports Conversation_Props
begin

text \<open>
  The properties of the conversation manager, each a short consequence of
  \<open>Conversation_Props\<close>, with a concrete conversation for the witnesses.
\<close>

section \<open>A concrete conversation for the witnesses\<close>

text \<open>
  The world is the list of responses the provider has still to give; an empty list is a
  provider that is down.
\<close>

definition script_response :: "string \<Rightarrow> tool_call list option \<Rightarrow> llm_response" where
  "script_response text calls = \<lparr>r_content = text, r_model = ''m'', r_input_tokens = None,
     r_output_tokens = None, r_tool_calls = calls\<rparr>"

definition script_llm :: "llm_response list llm_provider" where
  "script_llm =
     \<lparr>generate = (\<lambda>h sp mt tls w. case w of
         [] \<Rightarrow> (Inl (LLMProviderError ''down''), []) | r # rs \<Rightarrow> (Inr r, rs)),
      generate_stream = (\<lambda>h sp w. case w of
         [] \<Rightarrow> (([], Some (LLMProviderError ''down'')), [])
       | r # rs \<Rightarrow> ((map (\<lambda>c. [c]) (r_content r), None), rs))\<rparr>"

definition script_tools :: "tool_definition list" where
  "script_tools = [\<lparr>td_name = ''t'', td_description = [], td_parameters = JObj []\<rparr>]"

definition script_call :: tool_call where
  "script_call = \<lparr>tc_id = ''1'', tc_name = ''t'', tc_arguments = []\<rparr>"

definition script_config :: "bool \<Rightarrow> int \<Rightarrow> llm_response list conv_config" where
  "script_config with_tools k =
     \<lparr>cc_llm = script_llm, cc_system_prompt = [], cc_call_id = ''c'', cc_max_history_turns = k,
      cc_tools = (if with_tools then Some script_tools else None),
      cc_tool_executor = (if with_tools then Some (\<lambda>tc. ret (''done'', False)) else None),
      cc_max_tool_iterations = 4, cc_max_conversation_turns = Some 2,
      cc_max_call_duration_seconds = None, cc_call_started_at = 0, cc_now = (\<lambda>_. 0)\<rparr>"

definition script_state :: "llm_response list \<Rightarrow> llm_response list conv_state" where
  "script_state w = \<lparr>cs_turn_count = 0, cs_history = [], cs_last_reply = None,
     cs_llm_errors = 0, cs_tool_outcomes = [], cs_world = w\<rparr>"

lemmas script_defs = script_response_def script_llm_def script_tools_def script_call_def
  script_config_def script_state_def

lemma script_reach: "conv_reach c False (script_state w)"
  by (rule conv_reach.start) (simp add: script_state_def)

section \<open>Properties\<close>

text \<open>
  (C1) Whatever happens in a call (utterances handled with any number of tool rounds, streamed
  replies, provider failures, unexpected exceptions, trimming, and an interruption at any point), the
  history stays a sequence of turns, each beginning with its only message of the caller. Each is a turn
  in which every tool request is immediately followed by exactly its results, or one that was cut off
  while a tool was executing, which ends with the request and the results so far. As long as that has
  not happened in the call, there is none of the second kind.
\<close>

theorem history_is_always_turns:
  assumes "conv_reach c broken s"
  shows "\<exists>ts. cs_history s = concat ts \<and> (\<forall>t \<in> set ts. is_turn t \<and> results_follow t \<or> cut_turn t) \<and>
    user_indices (cs_history s) = turn_starts 0 ts \<and>
    (\<not> broken \<longrightarrow> history_ok (cs_history s) \<and> results_follow (cs_history s))"
proof -
  from conv_reach_cut [OF assms] obtain ts where
    ts: "cs_history s = concat ts" "\<forall>t \<in> set ts. is_turn t \<or> cut_turn t" by (auto simp: made_of_def)
  then have "\<forall>t \<in> set ts. shaped t" using turn_shaped cut_turn_shaped by blast
  then have "user_indices (cs_history s) = turn_starts 0 ts" using ts(1) by (simp add: user_indices_starts)
  with ts show ?thesis
    using conv_reach_ok [of c s] assms history_follow turn_follow by (intro exI [of _ ts]) auto
qed

text \<open>An interrupted tool, and the utterance after it.\<close>

definition cut_state :: "llm_response list conv_state" where
  "cut_state = tool_cut (script_config True 5) ''hi'' 0 0 False
     (script_state [script_response [] (Some [script_call]), script_response ''ok'' None])"

lemma cut_state_reached: "conv_reach (script_config True 5) True cut_state"
proof -
  let ?s = "script_state [script_response [] (Some [script_call]), script_response ''ok'' None]"
  obtain s' where "cancelled_in_tools (script_config True 5) ''hi'' 0 0 ?s = Some s'"
    by (simp add: cancelled_in_tools_def call_limit_reached_def loop_cancelled.simps script_defs Let_def)
  then show ?thesis
    using conv_reach.tool_cut [OF script_reach] by (simp add: cut_state_def tool_cut_def)
qed

theorem history_is_always_turns_witness:
  "history_ok (cs_history (snd (handle_utterance (script_config True 5) ''hi''
     (script_state [script_response [] (Some [script_call]), script_response ''ok'' None])))) \<and>
   (\<exists>ts. cs_history (snd (handle_utterance (script_config True 5) ''so'' cut_state)) = concat ts \<and>
     (\<forall>t \<in> set ts. is_turn t \<and> results_follow t \<or> cut_turn t))"
  using history_is_always_turns [OF conv_reach.next_step [OF script_reach conv_step.utterance],
      of "script_config True 5" "''hi''"]
    history_is_always_turns [OF conv_reach.next_step [OF cut_state_reached conv_step.utterance], of "''so''"]
  by blast

text \<open>
  (C4) A conversation never raises the provider's error into a live call, and a turn that ends in
  the fallback reply leaves the history exactly as it was before the turn.
\<close>

theorem failed_turn_rolls_back:
  "case handle_utterance c x s of (r, s') \<Rightarrow>
     (\<forall>m. r \<noteq> Inl (LLMProviderError m)) \<and>
     (if r = Inr fallback_reply then cs_history s' = cs_history s else True)"
proof (cases "call_limit_reached c s")
  case True
  then show ?thesis
    by (simp add: handle_utterance_def fallback_reply_def call_limit_reply_def mk_reply_def)
next
  case False
  have no_idx: "trim_history k h \<noteq> Inl (LLMProviderError m)" for k h m
    by (auto simp: trim_history_def py_index_def Let_def)
  have no_fb: "mk_reply t i (is_transfer_intent i) \<noteq> fallback_reply" for t i
    by (cases i) (simp_all add: mk_reply_def fallback_reply_def is_transfer_intent_def)
  from handle_utterance_outcome [OF False, of x] show ?thesis
    by (cases rule: turn_outcome.cases)
      (auto simp: no_idx no_fb no_fb [symmetric] split: prod.split; metis no_idx)+
qed

lemma utterance_returns:
  assumes provider: "\<And>h sp mt tls w e w'. generate (cc_llm c) h sp mt tls w = (Inl e, w') \<Longrightarrow>
      \<exists>m. e = LLMProviderError m"
    and bound: "0 \<le> cc_max_history_turns c"
  shows "\<exists>r. fst (handle_utterance c x s) = Inr r"
proof -
  have "\<exists>r. fst (tool_loop c ts n s) = Inr r" for ts n s
  proof (induction n arbitrary: s)
    case 0
    then show ?case by simp
  next
    case (Suc n)
    obtain r w where g: "generate (cc_llm c) (cs_history s) (Some (cc_system_prompt c)) 1024
      (cc_tools c) (cs_world s) = (r, w)" by fastforce
    show ?case
    proof (cases r)
      case (Inl e)
      with g provider obtain m where "e = LLMProviderError m" by blast
      with g Inl show ?thesis by simp
    next
      case (Inr resp)
      obtain i body where p: "parse_structured_reply (r_content resp) = (i, body)" by fastforce
      obtain s' where "finish_turn c body i (s\<lparr>cs_world := w\<rparr>) =
          (Inr (mk_reply body i (is_transfer_intent i)), s')"
        using finish_turn_total [OF bound] by blast
      with g Inr p Suc.IH show ?thesis by simp
    qed
  qed
  then show ?thesis by (simp add: handle_utterance_def)
qed

lemma stream_returns:
  assumes "\<And>h sp mt tls w e w'. generate (cc_llm c) h sp mt tls w = (Inl e, w') \<Longrightarrow>
      \<exists>m. e = LLMProviderError m"
    and stream: "\<And>h sp w ds e w'. generate_stream (cc_llm c) h sp w = ((ds, Some e), w') \<Longrightarrow>
      \<exists>m. e = LLMProviderError m"
    and bound: "0 \<le> cc_max_history_turns c"
  shows "snd (fst (handle_utterance_stream c x s)) = None"
proof (cases "cc_tools c = None \<and> \<not> call_limit_reached c s")
  case True
  obtain ds f w where g: "generate_stream (cc_llm c) (cs_history (begin_turn x s))
      (Some (cc_system_prompt c)) (cs_world (begin_turn x s)) = ((ds, f), w)" by (metis prod.collapse)
  obtain outs ex where o: "feed_all new_extractor ds = (outs, ex)" by fastforce
  obtain full trailing i ex' where z: "finalize ex = ((full, trailing, i), ex')" by (metis prod.collapse)
  show ?thesis
  proof (cases f)
    case None
    obtain s' where "finish_turn c full i ((begin_turn x s)\<lparr>cs_world := w\<rparr>) =
        (Inr (mk_reply full i (is_transfer_intent i)), s')"
      using finish_turn_total [OF bound] by blast
    then show ?thesis using True g o z None by (simp add: handle_utterance_stream_def Let_def)
  next
    case (Some e)
    with stream g obtain m where "e = LLMProviderError m" by blast
    then show ?thesis using True g o Some by (simp add: handle_utterance_stream_def Let_def)
  qed
next
  case False
  have "\<exists>r. fst (handle_utterance c x s) = Inr r"
    by (rule utterance_returns [OF _ bound]) (rule assms(1))
  then obtain r t where "handle_utterance c x s = (Inr r, t)" by (metis prod.collapse)
  with False show ?thesis by (auto simp: handle_utterance_stream_def)
qed

text \<open>
  (C3) If the provider fails only with \<^verbatim>\<open>LLMProviderError\<close>, as its interface demands, and the
  history bound is not negative, every utterance gets a reply: the tool loop ends and nothing is
  raised, whatever the tools do.
\<close>

theorem every_utterance_gets_a_reply:
  assumes provider: "\<And>h sp mt tls w e w'. generate (cc_llm c) h sp mt tls w = (Inl e, w') \<Longrightarrow>
      \<exists>m. e = LLMProviderError m"
    and bound: "0 \<le> cc_max_history_turns c"
  shows "\<exists>r. fst (handle_utterance c x s) = Inr r"
  using assms by (rule utterance_returns)

theorem every_utterance_gets_a_reply_witness:
  "\<exists>r. fst (handle_utterance (script_config True 5) ''hi'' (script_state [])) = Inr r"
  by (rule every_utterance_gets_a_reply)
    (auto simp: script_config_def script_llm_def split: list.splits)

text \<open>Every event of a call costs a bounded turn, or nothing and leaves the counts as they were.\<close>

definition costs_at_most ::
  "nat \<Rightarrow> ('w \<times> nat) conv_config \<Rightarrow> ('w \<times> nat) conv_state \<Rightarrow> ('w \<times> nat) conv_state \<Rightarrow> bool" where
  "costs_at_most n c s s' \<longleftrightarrow>
     llm_calls s' = llm_calls s \<and> cs_turn_count s' = cs_turn_count s \<or>
     \<not> call_limit_reached c s \<and> turn_costs n s s'"

lemma turn_costs_le: "turn_costs m s s' \<Longrightarrow> m \<le> n \<Longrightarrow> turn_costs n s s'"
  by (auto simp: turn_costs_def)

lemma stream_counted:
  "costs_at_most (max 1 (nat (cc_max_tool_iterations c))) (counted c) s
     (snd (handle_utterance_stream (counted c) x s))"
proof (cases "cc_tools (counted c) = None")
  case True
  obtain ds f w where g: "generate_stream (cc_llm (counted c)) (cs_history (begin_turn x s))
      (Some (cc_system_prompt (counted c))) (cs_world s) = ((ds, f), (w, Suc (snd (cs_world s))))"
    by (cases "cs_world s"; cases "generate_stream (cc_llm c) (cs_history (begin_turn x s))
        (Some (cc_system_prompt (counted c))) (fst (cs_world s))"; cases "fst (generate_stream (cc_llm c)
        (cs_history (begin_turn x s)) (Some (cc_system_prompt (counted c))) (fst (cs_world s)))")
      (simp add: counted_def counted_llm_def)
  obtain outs e where o: "feed_all new_extractor ds = (outs, e)" by fastforce
  obtain full trailing i e' where z: "finalize e = ((full, trailing, i), e')" by (metis prod.collapse)
  obtain r s3 where f3: "finish_turn (counted c) full i ((begin_turn x s)\<lparr>cs_world := (w, Suc (snd (cs_world s)))\<rparr>) = (r, s3)"
    by fastforce
  then have s3: "llm_calls s3 = Suc (llm_calls s)" "cs_turn_count s3 = cs_turn_count s + 1"
    using finish_turn_counted [of "counted c" full i "(begin_turn x s)\<lparr>cs_world := (w, Suc (snd (cs_world s)))\<rparr>"]
      finish_turn_count [of "counted c" full i "(begin_turn x s)\<lparr>cs_world := (w, Suc (snd (cs_world s)))\<rparr>"]
    by (simp_all add: llm_calls_def)
  show ?thesis
    using True g o z f3 s3
    by (auto simp: handle_utterance_stream_def costs_at_most_def turn_costs_def Let_def drop_turn_def llm_calls_def
        split: option.split exc.split sum.split)
next
  case False
  then show ?thesis
    using utterance_counted [of c x s]
    by (auto simp: handle_utterance_stream_def costs_at_most_def turn_costs_def llm_calls_def
        split: prod.split sum.split if_splits)
qed

lemma event_counted:
  "costs_at_most (max 1 (nat (cc_max_tool_iterations c))) (counted c) s (event_step (counted c) ev s)"
proof (cases ev)
  case (Answered x)
  obtain r s' where u: "handle_utterance (counted c) x s = (r, s')" by fastforce
  with utterance_counted [OF u] Answered show ?thesis
    by (auto simp: costs_at_most_def intro: turn_costs_le split: if_splits)
next
  case (Streamed x)
  then show ?thesis using stream_counted by simp
next
  case (Stream_Cut x)
  then show ?thesis
    by (cases "cs_world s") (auto simp: stream_cut_def abandon_stream_def costs_at_most_def turn_costs_def
        counted_def counted_llm_def llm_calls_def split: prod.split)
next
  case (Request_Cut x k)
  show ?thesis
  proof (cases "cancelled_in_request (counted c) x k s")
    case None
    then show ?thesis by (simp add: Request_Cut request_cut_def costs_at_most_def)
  next
    case (Some s')
    then have "\<not> call_limit_reached (counted c) s" "int k < cc_max_tool_iterations c"
      "loop_waiting (counted c) k (begin_turn x s) = Some s'"
      by (auto simp: cancelled_in_request_def split: if_splits)
    with Some loop_waiting_counted [OF this(3)] show ?thesis
      by (auto simp: Request_Cut request_cut_def costs_at_most_def turn_costs_def generate_counted
          llm_calls_def [of s'] split: prod.split)
  qed
next
  case (Tool_Cut x k j b)
  show ?thesis
  proof (cases "cancelled_in_tools (counted c) x k j s")
    case None
    then show ?thesis by (simp add: Tool_Cut tool_cut_def costs_at_most_def)
  next
    case (Some s')
    then have "\<not> call_limit_reached (counted c) s" "int k < cc_max_tool_iterations c"
      "loop_cancelled (counted c) k j (begin_turn x s) = Some s'"
      by (auto simp: cancelled_in_tools_def split: if_splits)
    with Some loop_cancelled_counted [OF this(3)] show ?thesis
      by (auto simp: Tool_Cut tool_cut_def costs_at_most_def turn_costs_def llm_calls_def
          execute_tool_counted [unfolded llm_calls_def] split: option.split)
  qed
qed

text \<open>
  (C7) The calls of the LLM in one call are bounded. Whatever utterances are handled in one piece or
  streamed, and wherever the caller interrupts, a turn costs at most \<open>max_tool_iterations\<close> of them, or
  one where the reply is streamed, and there are at most \<open>max_conversation_turns\<close> turns.
\<close>

theorem llm_calls_are_bounded:
  assumes "cc_max_conversation_turns c = Some m" and "0 \<le> m" and "cs_turn_count s = 0"
    and "llm_calls s = 0"
  shows "llm_calls (run_call (counted c) evs s) \<le> nat m * max 1 (nat (cc_max_tool_iterations c))"
proof -
  let ?n = "max 1 (nat (cc_max_tool_iterations c))"
  define inv where "inv s \<longleftrightarrow> 0 \<le> cs_turn_count s \<and> cs_turn_count s \<le> m \<and>
    llm_calls s \<le> nat (cs_turn_count s) * ?n" for s :: "('a \<times> nat) conv_state"
  have step: "inv (event_step (counted c) ev s)" if i: "inv s" for ev s
  proof -
    have "cs_turn_count s < m" if "\<not> call_limit_reached (counted c) s"
      using that assms(1) by (simp add: call_limit_reached_def)
    moreover have "nat (cs_turn_count s + 1) * ?n = nat (cs_turn_count s) * ?n + ?n"
      using i by (simp add: inv_def nat_add_distrib)
    ultimately show ?thesis
      using i event_counted [of c s ev] by (auto simp: inv_def costs_at_most_def turn_costs_def)
  qed
  have "inv (fold (event_step (counted c)) evs s)" if "inv s" for s
    using that by (induction evs arbitrary: s) (simp_all add: step)
  moreover have "inv s" using assms(2-4) by (simp add: inv_def)
  ultimately have "inv (run_call (counted c) evs s)" by (simp add: run_call_def)
  then have "nat (cs_turn_count (run_call (counted c) evs s)) \<le> nat m"
    and "llm_calls (run_call (counted c) evs s) \<le> nat (cs_turn_count (run_call (counted c) evs s)) * ?n"
    by (auto simp: inv_def intro: nat_mono)
  then show ?thesis by (meson le_trans mult_le_mono1)
qed

definition counted_script_state :: "(llm_response list \<times> nat) conv_state" where
  "counted_script_state = \<lparr>cs_turn_count = 0, cs_history = [], cs_last_reply = None,
     cs_llm_errors = 0, cs_tool_outcomes = [],
     cs_world = (replicate 9 (script_response ''hello'' None), 0)\<rparr>"

theorem llm_calls_are_bounded_witness:
  "llm_calls (run_call (counted (script_config False 5)) [Streamed ''a'', Stream_Cut ''b'', Answered ''c'']
     counted_script_state) \<le> 8"
  using llm_calls_are_bounded [of "script_config False 5" 2 counted_script_state
      "[Streamed ''a'', Stream_Cut ''b'', Answered ''c'']"]
  by (simp add: script_config_def counted_script_state_def llm_calls_def)

text \<open>
  (C8) After an answered turn the history holds the most recent \<open>max_history_turns\<close> whole turns:
  the old turns and the new one, less the oldest ones beyond the bound.
\<close>

theorem history_keeps_the_latest_turns:
  assumes "turns_of (cs_history s) ts" and "1 \<le> cc_max_history_turns c"
    and "\<not> call_limit_reached c s"
    and "fst (handle_utterance c x s) = Inr r" and "r \<noteq> fallback_reply"
  shows "\<exists>t. is_turn t \<and> m_content (last t) = reply_text r \<and>
    turns_of (cs_history (snd (handle_utterance c x s)))
      (drop (length ts + 1 - nat (cc_max_history_turns c)) (ts @ [t]))"
proof -
  from handle_utterance_outcome [OF assms(3), of x] assms(4,5)
  obtain t body i where t: "open_turn t" and r: "r = mk_reply body i (is_transfer_intent i)"
    and trim: "trim_history (cc_max_history_turns c)
        (cs_history s @ t @ [text_message ASSISTANT body])
      = Inr (cs_history (snd (handle_utterance c x s)))"
    by (auto elim: turn_outcome_Inr)
  let ?t = "t @ [text_message ASSISTANT body]"
  have turn: "is_turn ?t" using t by (auto simp: is_turn_def complete_turn_def final_reply_def)
  have "turns_of (cs_history s @ ?t) (ts @ [?t])" by (rule turns_of_append [OF assms(1) turn])
  from trim_keeps_latest [OF this assms(2)] trim
  have "turns_of (cs_history (snd (handle_utterance c x s)))
      (drop (length ts + 1 - nat (cc_max_history_turns c)) (ts @ [?t]))" by simp
  with turn r show ?thesis by (intro exI [of _ ?t]) (simp add: mk_reply_def)
qed

theorem history_keeps_the_latest_turns_witness:
  "\<exists>t. is_turn t \<and> m_content (last t) = ''ok'' \<and>
    turns_of (cs_history (snd (handle_utterance (script_config False 1) ''hi''
      (script_state [script_response ''ok'' None])))) [t]"
  using history_keeps_the_latest_turns [of "script_state [script_response ''ok'' None]" "[]"
    "script_config False 1" "''hi''" "mk_reply ''ok'' GENERAL False"]
  by (simp add: script_defs turns_of_def call_limit_reached_def handle_utterance_def numeral_eq_Suc
    begin_turn_def parse_structured_reply_def intent_marker_def finish_turn_def trim_history_def
    user_indices_def py_strip_def py_lstrip_def py_rstrip_def is_space_def mk_reply_def
    is_transfer_intent_def fallback_reply_def)

text \<open>
  (C9) A caller who interrupts while a tool is executing leaves the history broken: the request
  stands without all its results, and still does in the next request to the provider, whatever
  the caller says next.
\<close>

theorem cancelled_tool_breaks_history:
  assumes "cancelled_in_tools c x k j s = Some s'"
  shows "\<not> results_follow (cs_history s') \<and> \<not> history_ok (cs_history s') \<and>
    \<not> results_follow (cs_history (begin_turn y s'))"
proof -
  from assms have "loop_cancelled c k j (begin_turn x s) = Some s'"
    by (simp add: cancelled_in_tools_def split: if_splits)
  from loop_cancelled_history [OF this] obtain h a tcs rs
    where h: "cs_history s' = h @ a # rs" "m_tool_calls a = Some tcs" "length rs < length tcs"
    by blast
  then have "\<not> results_follow (cs_history s')" by (simp add: request_cut_short)
  moreover have "\<not> results_follow (cs_history (begin_turn y s'))"
    using request_cut_short_for_good [OF h(2,3), of "text_message USER y" h "[]"] h(1) by simp
  ultimately show ?thesis using history_follow by blast
qed

theorem cancelled_tool_breaks_history_witness:
  "\<exists>s'. cancelled_in_tools (script_config True 5) ''hi'' 0 0
      (script_state [script_response [] (Some [script_call])]) = Some s' \<and>
    \<not> results_follow (cs_history s')"
proof -
  let ?s = "script_state [script_response [] (Some [script_call])]"
  have "cancelled_in_tools (script_config True 5) ''hi'' 0 0 ?s =
    Some ((begin_turn ''hi'' ?s)\<lparr>cs_world := [], cs_history := cs_history (begin_turn ''hi'' ?s)
      @ [tool_request_message [] (Some [script_call])]\<rparr>)"
    by (simp add: cancelled_in_tools_def call_limit_reached_def loop_cancelled.simps script_defs Let_def)
  from this cancelled_tool_breaks_history [OF this] show ?thesis by blast
qed

text \<open>
  (C6) Streaming or not, the caller gets the same answer: where the two calls of the provider
  yield the same completion, the intents and the transfer decisions agree, the streamed chunks
  are the text of the streamed reply, and the texts agree once stripped. The exception is a
  completion without speakable text before the marker: there \<open>handle_utterance\<close> speaks the
  raw completion, marker included, and the stream only white space.
\<close>

theorem stream_matches_utterance:
  assumes tools: "cc_tools c = None" and open_call: "\<not> call_limit_reached c s"
    and gen: "generate (cc_llm c) (cs_history (begin_turn x s)) (Some (cc_system_prompt c)) 1024
      None (cs_world s) = (Inr resp, w)"
    and plain: "\<not> truthy_list (r_tool_calls resp)"
    and stream: "generate_stream (cc_llm c) (cs_history (begin_turn x s))
      (Some (cc_system_prompt c)) (cs_world s) = ((ds, None), w)"
    and same: "concat ds = r_content resp"
    and bound: "0 \<le> cc_max_history_turns c" and iter: "1 \<le> cc_max_tool_iterations c"
  shows "\<exists>reply sreply chunks s'.
    fst (handle_utterance c x s) = Inr reply \<and>
    handle_utterance_stream c x s = ((chunks, None), s') \<and> cs_last_reply s' = Some sreply \<and>
    reply_intent sreply = reply_intent reply \<and>
    transfer_to_human sreply = transfer_to_human reply \<and>
    concat chunks = reply_text sreply \<and>
    reply_text reply = (if py_strip (reply_text sreply) = [] then py_strip (r_content resp)
      else py_strip (reply_text sreply))"
proof -
  obtain full trailing i where res: "stream_result ds = (full, trailing, i)"
    by (metis prod_cases3)
  have parse: "parse_structured_reply (r_content resp) =
      (i, if py_strip full = [] then py_strip (r_content resp) else py_strip full)"
    using stream_reply_agreement [of ds] res same by simp
  have full: "spoken ds @ trailing = full" using stream_reply_pieces [of ds] res by simp
  obtain n where n: "nat (cc_max_tool_iterations c) = Suc n" using iter
    by (cases "nat (cc_max_tool_iterations c)") auto
  obtain body where body: "body = (if py_strip full = [] then py_strip (r_content resp)
      else py_strip full)" by blast
  obtain t where "finish_turn c body i ((begin_turn x s)\<lparr>cs_world := w\<rparr>) =
      (Inr (mk_reply body i (is_transfer_intent i)), t)" using finish_turn_total [OF bound] by blast
  then have a: "fst (handle_utterance c x s) = Inr (mk_reply body i (is_transfer_intent i))"
    using open_call gen plain parse tools by (simp add: handle_utterance_def n body)
  obtain t' where t': "finish_turn c full i ((begin_turn x s)\<lparr>cs_world := w\<rparr>) =
      (Inr (mk_reply full i (is_transfer_intent i)), t')" using finish_turn_total [OF bound] by blast
  obtain outs y where f: "feed_all new_extractor ds = (outs, y)" by fastforce
  obtain y' where fin: "finalize y = ((full, trailing, i), y')"
    using res f by (metis eq_fst_iff snd_conv stream_result_def)
  have "handle_utterance_stream c x s =
      ((nonempty (outs @ [trailing]), None),
       t'\<lparr>cs_last_reply := Some (mk_reply full i (is_transfer_intent i))\<rparr>)"
    using tools open_call stream f fin t' by (simp add: handle_utterance_stream_def Let_def)
  moreover have "concat (nonempty (outs @ [trailing])) = full"
    using full f by (auto simp: nonempty_def spoken_def)
  ultimately show ?thesis using a by (simp add: mk_reply_def body)
qed

theorem stream_matches_utterance_witness:
  "\<exists>reply sreply chunks s'.
    fst (handle_utterance (script_config False 5) ''hi''
      (script_state [script_response ''ok'' None])) = Inr reply \<and>
    handle_utterance_stream (script_config False 5) ''hi''
      (script_state [script_response ''ok'' None]) = ((chunks, None), s') \<and>
    cs_last_reply s' = Some sreply \<and> concat chunks = reply_text sreply"
  using stream_matches_utterance [of "script_config False 5"
    "script_state [script_response ''ok'' None]" "''hi''" "script_response ''ok'' None" "[]"
    "[''o'', ''k'']"]
  by (simp add: script_defs call_limit_reached_def) blast

end
