(* ===== verification/Py_Time.thy ===== *)
theory Py_Time
  imports Prelude
begin

text \<open>
  The part of Python's \<^verbatim>\<open>datetime\<close> that the sources use: aware datetimes with a fixed offset,
  \<^verbatim>\<open>timedelta\<close> arithmetic with its \<^verbatim>\<open>OverflowError\<close>, \<^verbatim>\<open>replace\<close>, comparison by instant, and the
  proleptic Gregorian calendar behind \<^verbatim>\<open>isoformat\<close> and \<^verbatim>\<open>strftime\<close>.

  A wall clock time is the number of microseconds since 0001-01-01T00:00:00. Every datetime
  the sources handle has a fixed offset (\<^verbatim>\<open>datetime.now(UTC)\<close>, a parsed offset, a database
  value), so arithmetic moves the wall clock and keeps the offset.
\<close>

named_theorems time_simps \<open>the units of time\<close>

definition second_us :: int where "second_us = 1000000"
definition minute_us :: int where "minute_us = 60000000"
definition hour_us :: int where "hour_us = 3600000000"
definition day_us :: int where "day_us = 86400000000"

lemmas unit_defs [time_simps] = second_us_def minute_us_def hour_us_def day_us_def

text \<open>0001-01-01 to 9999-12-31 are 3652059 days.\<close>

definition max_wall :: int where "max_wall = 3652059 * day_us"

definition wall_ok :: "int \<Rightarrow> bool" where
  "wall_ok w \<longleftrightarrow> 0 \<le> w \<and> w < max_wall"

record datetime =
  dt_wall :: int
  dt_off :: int

definition dt_instant :: "datetime \<Rightarrow> int" where
  "dt_instant d = dt_wall d - dt_off d"

definition dt_ok :: "datetime \<Rightarrow> bool" where
  "dt_ok d \<longleftrightarrow> wall_ok (dt_wall d) \<and> \<bar>dt_off d\<bar> < day_us"

text \<open>Aware datetimes compare by the instant they denote, whatever their offsets.\<close>

definition dt_less :: "datetime \<Rightarrow> datetime \<Rightarrow> bool" where
  "dt_less a b \<longleftrightarrow> dt_instant a < dt_instant b"

definition dt_le :: "datetime \<Rightarrow> datetime \<Rightarrow> bool" where
  "dt_le a b \<longleftrightarrow> dt_instant a \<le> dt_instant b"

definition dt_eq :: "datetime \<Rightarrow> datetime \<Rightarrow> bool" where
  "dt_eq a b \<longleftrightarrow> dt_instant a = dt_instant b"

lemmas dt_order_defs = dt_less_def dt_le_def dt_eq_def

section \<open>Arithmetic\<close>

text \<open>A \<^verbatim>\<open>timedelta\<close> is a number of microseconds; its days are limited to 999999999 in size.\<close>

definition mk_timedelta :: "int \<Rightarrow> int res" where
  "mk_timedelta us =
     (if \<bar>us div day_us\<bar> > 999999999
      then Inl (OverflowError ''days too large; must have magnitude <= 999999999'')
      else Inr us)"

definition td_minutes :: "int \<Rightarrow> int res" where
  "td_minutes n = mk_timedelta (n * minute_us)"

definition td_days :: "int \<Rightarrow> int res" where
  "td_days n = mk_timedelta (n * day_us)"

definition dt_add :: "datetime \<Rightarrow> int \<Rightarrow> datetime res" where
  "dt_add d us =
     (let w = dt_wall d + us
      in if wall_ok w then Inr (d\<lparr>dt_wall := w\<rparr>)
         else Inl (OverflowError ''date value out of range''))"

definition midnight :: "int \<Rightarrow> int" where
  "midnight w = w - w mod day_us"

text \<open>\<^verbatim>\<open>d.replace(hour=h, minute=0, second=0, microsecond=0)\<close>.\<close>

definition replace_hour :: "datetime \<Rightarrow> int \<Rightarrow> datetime res" where
  "replace_hour d h =
     (if 0 \<le> h \<and> h \<le> 23 then Inr (d\<lparr>dt_wall := midnight (dt_wall d) + h * hour_us\<rparr>)
      else Inl (ValueError ''hour must be in 0..23''))"

text \<open>\<^verbatim>\<open>d.replace(hour=h, minute=0)\<close>: seconds and microseconds stay.\<close>

definition replace_hour_minute :: "datetime \<Rightarrow> int \<Rightarrow> datetime res" where
  "replace_hour_minute d h =
     (if 0 \<le> h \<and> h \<le> 23
      then Inr (d\<lparr>dt_wall := midnight (dt_wall d) + h * hour_us + dt_wall d mod minute_us\<rparr>)
      else Inl (ValueError ''hour must be in 0..23''))"

text \<open>
  The instant of \<open>d\<close> as a UTC datetime, which is how a timestamp column stores and returns it;
  the conversion fails outside the range of dates.
\<close>

definition to_utc :: "datetime \<Rightarrow> datetime" where
  "to_utc d = \<lparr>dt_wall = dt_instant d, dt_off = 0\<rparr>"

definition storable :: "datetime \<Rightarrow> bool" where
  "storable d \<longleftrightarrow> wall_ok (dt_instant d)"

lemma to_utc_instant [simp]: "dt_instant (to_utc d) = dt_instant d"
  by (simp add: to_utc_def dt_instant_def)

lemma to_utc_idem [simp]: "to_utc (to_utc d) = to_utc d"
  by (simp add: to_utc_def dt_instant_def)

lemma storable_utc [simp]: "storable (to_utc d) = storable d"
  by (simp add: storable_def)

lemma dt_add_Some:
  "dt_add d us = Inr e \<longleftrightarrow> wall_ok (dt_wall d + us) \<and> e = d\<lparr>dt_wall := dt_wall d + us\<rparr>"
  by (auto simp: dt_add_def Let_def)

lemma dt_add_Inr: "wall_ok (dt_wall d + us) \<Longrightarrow> dt_add d us = Inr (d\<lparr>dt_wall := dt_wall d + us\<rparr>)"
  by (simp add: dt_add_Some)

lemma midnight_div: "midnight w = w div day_us * day_us"
  by (simp add: midnight_def minus_mod_eq_div_mult)

lemma midnight_bounds: "midnight w \<le> w" "w < midnight w + day_us"
  by (simp_all add: midnight_def day_us_def)

lemma midnight_add: "0 \<le> r \<Longrightarrow> r < day_us \<Longrightarrow> midnight (midnight w + r) = midnight w"
  by (simp add: midnight_div day_us_def)

lemma midnight_day [simp]: "midnight (w + day_us) = midnight w + day_us"
  by (simp add: midnight_def)

section \<open>The calendar\<close>

definition is_leap :: "int \<Rightarrow> bool" where
  "is_leap y \<longleftrightarrow> y mod 4 = 0 \<and> (y mod 100 \<noteq> 0 \<or> y mod 400 = 0)"

text \<open>Days before the first of January of year \<open>y\<close>.\<close>

definition days_before_year :: "int \<Rightarrow> int" where
  "days_before_year y = (y - 1) * 365 + (y - 1) div 4 - (y - 1) div 100 + (y - 1) div 400"

definition month_lengths :: "bool \<Rightarrow> int list" where
  "month_lengths leap = [31, if leap then 29 else 28, 31, 30, 31, 30, 31, 31, 30, 31, 30, 31]"

definition days_in_month :: "int \<Rightarrow> int \<Rightarrow> int" where
  "days_in_month y m = month_lengths (is_leap y) ! nat (m - 1)"

definition days_before_month :: "bool \<Rightarrow> int \<Rightarrow> int" where
  "days_before_month leap m = sum_list (take (nat (m - 1)) (month_lengths leap))"

text \<open>\<^verbatim>\<open>_ymd2ord\<close>, counting from 0.\<close>

definition day_number :: "int \<Rightarrow> int \<Rightarrow> int \<Rightarrow> int" where
  "day_number y m d = days_before_year y + days_before_month (is_leap y) m + d - 1"

text \<open>The month and day of the \<open>n\<close>-th day of a year: walk the months.\<close>

fun find_month :: "int list \<Rightarrow> int \<Rightarrow> int \<Rightarrow> int \<times> int" where
  "find_month [] m n = (m, n + 1)"
| "find_month (len # lens) m n = (if n < len then (m, n + 1) else find_month lens (m + 1) (n - len))"

text \<open>\<^verbatim>\<open>_ord2ymd\<close>: 400-year, 100-year, 4-year and 1-year cycles.\<close>

definition civil :: "int \<Rightarrow> int \<times> int \<times> int" where
  "civil n0 =
     (let n400 = n0 div 146097; n = n0 mod 146097;
          n100 = n div 36524; n = n mod 36524;
          n4 = n div 1461; n = n mod 1461;
          n1 = n div 365; n = n mod 365;
          year = n400 * 400 + n100 * 100 + n4 * 4 + n1 + 1
      in if n1 = 4 \<or> n100 = 4 then (year - 1, 12, 31)
         else let (m, d) = find_month (month_lengths (is_leap year)) 1 n in (year, m, d))"


lemma div_euclid: "(x::int) = q * k + r \<Longrightarrow> 0 \<le> r \<Longrightarrow> r < k \<Longrightarrow> x div k = q"
  by simp

lemma mod_euclid: "(x::int) = q * k + r \<Longrightarrow> 0 \<le> r \<Longrightarrow> r < k \<Longrightarrow> x mod k = r"
  by simp

lemma days_before_year_cycles:
  assumes "0 \<le> b" "b < 4" "0 \<le> c" "c < 25" "0 \<le> d" "d < 4"
  shows "days_before_year (a * 400 + b * 100 + c * 4 + d + 1) =
    a * 146097 + b * 36524 + c * 1461 + d * 365"
proof -
  let ?x = "a * 400 + b * 100 + c * 4 + d"
  have "?x div 4 = a * 100 + b * 25 + c" by (rule div_euclid [of _ _ _ d]) (use assms in simp_all)
  moreover have "?x div 100 = a * 4 + b"
    by (rule div_euclid [of _ _ _ "c * 4 + d"]) (use assms in simp_all)
  moreover have "?x div 400 = a"
    by (rule div_euclid [of _ _ _ "b * 100 + c * 4 + d"]) (use assms in simp_all)
  ultimately show ?thesis by (simp add: days_before_year_def)
qed

lemma is_leap_cycles:
  assumes "0 \<le> b" "b < 4" "0 \<le> c" "c < 25" "0 \<le> d" "d < 4"
  shows "is_leap (a * 400 + b * 100 + c * 4 + d + 1) \<longleftrightarrow> d = 3 \<and> (c \<noteq> 24 \<or> b = 3)"
proof (cases "d = 3")
  case False
  let ?y = "a * 400 + b * 100 + c * 4 + d + 1"
  have "?y mod 4 = d + 1"
    by (rule mod_euclid [of _ "a * 100 + b * 25 + c"]) (use assms False in simp_all)
  with False assms show ?thesis by (simp add: is_leap_def)
next
  case d: True
  let ?y = "a * 400 + b * 100 + c * 4 + d + 1"
  have four: "?y mod 4 = 0"
    by (rule mod_euclid [of _ "a * 100 + b * 25 + c + 1"]) (use d in simp_all)
  show ?thesis
  proof (cases "c = 24")
    case False
    have "?y mod 100 = c * 4 + 4"
      by (rule mod_euclid [of _ "a * 4 + b"]) (use d assms False in simp_all)
    with four False d assms show ?thesis by (simp add: is_leap_def)
  next
    case c: True
    have hundred: "?y mod 100 = 0"
      by (rule mod_euclid [of _ "a * 4 + b + 1"]) (use d c in simp_all)
    have "?y mod 400 = (if b = 3 then 0 else b * 100 + 100)"
      by (rule mod_euclid [of _ "if b = 3 then a + 1 else a"]) (use d c assms in simp_all)
    with hundred four c d assms show ?thesis by (simp add: is_leap_def)
  qed
qed

lemma find_month_spec:
  assumes "0 \<le> n" "n < sum_list lens" "\<forall>l \<in> set lens. 0 < l"
    and "find_month lens m0 n = (m, d)"
  shows "m0 \<le> m \<and> m < m0 + int (length lens) \<and> 1 \<le> d \<and> d \<le> lens ! nat (m - m0) \<and>
    sum_list (take (nat (m - m0)) lens) + d - 1 = n"
  using assms
proof (induction lens arbitrary: m0 n)
  case Nil
  then show ?case by simp
next
  case (Cons l lens)
  show ?case
  proof (cases "n < l")
    case True
    with Cons.prems show ?thesis by auto
  next
    case False
    with Cons.prems Cons.IH [of "n - l" "m0 + 1"]
    have ih: "m0 + 1 \<le> m \<and> m < m0 + 1 + int (length lens) \<and> 1 \<le> d \<and>
        d \<le> lens ! nat (m - (m0 + 1)) \<and> sum_list (take (nat (m - (m0 + 1))) lens) + d - 1 = n - l"
      by simp
    then have "nat (m - m0) = Suc (nat (m - (m0 + 1)))" by linarith
    with ih show ?thesis by simp
  qed
qed

lemma month_lengths_facts:
  "sum_list (month_lengths leap) = (if leap then 366 else 365)"
  "length (month_lengths leap) = 12"
  "\<forall>l \<in> set (month_lengths leap). 0 < l \<and> l \<le> 31"
  by (auto simp: month_lengths_def)

definition valid_date :: "int \<Rightarrow> int \<Rightarrow> int \<Rightarrow> bool" where
  "valid_date y m d \<longleftrightarrow> 1 \<le> y \<and> y \<le> 9999 \<and> 1 \<le> m \<and> m \<le> 12 \<and> 1 \<le> d \<and> d \<le> days_in_month y m"

text \<open>Every day of the range has a civil date, and the date gives the day back.\<close>

lemma div_mod_facts:
  "(x::int) = x div k * k + x mod k" "0 < k \<Longrightarrow> 0 \<le> x mod k" "0 < k \<Longrightarrow> x mod k < k"
  by simp_all

lemma civil_day_number:
  assumes n: "0 \<le> n" "n < 3652059" and c: "civil n = (y, m, d)"
  shows "valid_date y m d \<and> day_number y m d = n"
proof -
  define a b1 b r c' r' d1 r'' where cycles: "a = n div 146097" "b1 = n mod 146097"
    "b = b1 div 36524" "r = b1 mod 36524" "c' = r div 1461" "r' = r mod 1461"
    "d1 = r' div 365" "r'' = r' mod 365"
  let ?y = "a * 400 + b * 100 + c' * 4 + d1 + 1"
  have eqs: "n = a * 146097 + b1" "b1 = b * 36524 + r" "r = c' * 1461 + r'" "r' = d1 * 365 + r''"
    unfolding cycles by (rule div_mod_facts(1))+
  have rems: "0 \<le> b1" "b1 < 146097" "0 \<le> r" "r < 36524" "0 \<le> r'" "r' < 1461" "0 \<le> r''" "r'' < 365"
    unfolding cycles by (rule div_mod_facts(2) div_mod_facts(3), simp)+
  have split: "n = a * 146097 + b * 36524 + c' * 1461 + d1 * 365 + r''"
    using eqs by linarith
  have bounds: "0 \<le> a" "a < 25" "0 \<le> b" "b \<le> 4" "0 \<le> c'" "c' < 25" "0 \<le> d1" "d1 \<le> 4"
    "0 \<le> r''" "r'' < 365" using eqs rems n by linarith+
  have year: "civil n = (if d1 = 4 \<or> b = 4 then (?y - 1, 12, 31)
      else let (m, d) = find_month (month_lengths (is_leap ?y)) 1 r'' in (?y, m, d))"
    by (simp only: civil_def Let_def cycles)
  show ?thesis
  proof (cases "b = 4")
    case True
    with eqs rems have "r = 0" by linarith
    with eqs rems bounds have "c' = 0" "r' = 0" by linarith+
    with eqs rems bounds have "d1 = 0" "r'' = 0" by linarith+
    with True year c \<open>c' = 0\<close> have y: "y = (a + 1) * 400" "m = 12" "d = 31" by auto
    have y': "y = a * 400 + 3 * 100 + 24 * 4 + 3 + 1" using y by simp
    have "is_leap y" "days_before_year y = a * 146097 + 145731"
      unfolding y' using is_leap_cycles [of 3 24 3 a] days_before_year_cycles [of 3 24 3 a] by simp_all
    moreover have "a < 24 \<or> y \<le> 9999" using y split bounds n True by auto
    ultimately show ?thesis using y split True \<open>c' = 0\<close> \<open>d1 = 0\<close> \<open>r'' = 0\<close> bounds n
      by (auto simp: valid_date_def day_number_def days_in_month_def days_before_month_def
        month_lengths_def)
  next
    case b4: False
    then have b: "b < 4" using bounds by simp
    show ?thesis
    proof (cases "d1 = 4")
      case True
      with eqs rems have r0: "r'' = 0" by linarith
      from True year c have y: "y = a * 400 + b * 100 + c' * 4 + 3 + 1" "m = 12" "d = 31" by auto
      have "c' \<noteq> 24 \<or> b = 3" using eqs rems bounds True by linarith
      with y bounds b have "is_leap y" "days_before_year y =
          a * 146097 + b * 36524 + c' * 1461 + 3 * 365"
        using is_leap_cycles [of b c' 3 a] days_before_year_cycles [of b c' 3 a] by simp_all
      with y split r0 True bounds b n show ?thesis
        by (auto simp: valid_date_def day_number_def days_in_month_def days_before_month_def
          month_lengths_def)
    next
      case False
      then have d1: "d1 < 4" using bounds by simp
      have y: "y = ?y" and fm: "find_month (month_lengths (is_leap ?y)) 1 r'' = (m, d)"
        using False b4 year c by (auto split: prod.splits)
      have "r'' < sum_list (month_lengths (is_leap ?y))" using bounds
        by (simp add: month_lengths_facts)
      from find_month_spec [OF _ this _ fm] bounds month_lengths_facts
      have "1 \<le> m \<and> m < 13 \<and> 1 \<le> d \<and> d \<le> month_lengths (is_leap ?y) ! nat (m - 1) \<and>
        sum_list (take (nat (m - 1)) (month_lengths (is_leap ?y))) + d - 1 = r''" by simp
      with y split bounds b d1 n days_before_year_cycles [of b c' d1 a] show ?thesis
        by (simp add: valid_date_def day_number_def days_in_month_def days_before_month_def)
    qed
  qed
qed

end
