(* ===== verification/Calendar_Base.thy ===== *)
theory Calendar_Base
  imports Py_Time
begin

text \<open>
  \<^verbatim>\<open>openvoice/calendar/base.py\<close> and \<^verbatim>\<open>openvoice/notifications/base.py\<close>: time windows, events, and
  the calendar and messaging providers that the booking service calls, over an external state.
\<close>

record time_slot =
  sl_start :: datetime
  sl_end :: datetime

record calendar_event =
  ev_event_id :: string
  ev_start :: datetime
  ev_end :: datetime
  ev_summary :: string

text \<open>Arguments in the order of the sources; \<open>create_event\<close> also takes a description.\<close>

record 'w calendar =
  list_busy_slots :: "datetime \<Rightarrow> datetime \<Rightarrow> ('w, time_slot list) prog"
  create_event :: "datetime \<Rightarrow> datetime \<Rightarrow> string \<Rightarrow> string option \<Rightarrow> ('w, calendar_event) prog"
  cancel_event :: "string \<Rightarrow> ('w, unit) prog"
  reschedule_event :: "string \<Rightarrow> datetime \<Rightarrow> datetime \<Rightarrow> ('w, calendar_event) prog"

text \<open>\<^verbatim>\<open>send_sms(to, body)\<close> and \<^verbatim>\<open>send_email(to, subject, body)\<close>.\<close>

type_synonym 'w sms_provider = "string \<Rightarrow> string \<Rightarrow> ('w, unit) prog"
type_synonym 'w email_provider = "string \<Rightarrow> string \<Rightarrow> string \<Rightarrow> ('w, unit) prog"

end
