(* ===== verification/Booking_Slots.thy ===== *)
theory Booking_Slots
  imports Calendar_Base
begin

text \<open>
  \<^verbatim>\<open>BookingService.find_available_slots\<close> of \<^verbatim>\<open>openvoice/booking/service.py\<close>, with its two nested
  loops as partial functions: a run that never ends has the value \<open>None\<close>. The specification is
  the list of all business-hour slots of the searched days, without the busy ones, cut at the
  number of results asked for.
\<close>

record 'w booking_service =
  bs_calendar :: "'w calendar"
  bs_sms :: "'w sms_provider option"
  bs_email :: "'w email_provider option"
  bs_hours_start :: int
  bs_hours_end :: int
  bs_default_minutes :: int

definition overlaps_any :: "datetime \<Rightarrow> datetime \<Rightarrow> time_slot list \<Rightarrow> bool" where
  "overlaps_any start stop busy =
     list_ex (\<lambda>slot. dt_less start (sl_end slot) \<and> dt_less (sl_start slot) stop) busy"

text \<open>The inner loop; \<open>duration\<close> is in microseconds.\<close>

partial_function (option) slot_loop ::
  "int \<Rightarrow> datetime \<Rightarrow> time_slot list \<Rightarrow> int \<Rightarrow> datetime \<Rightarrow> time_slot list
   \<Rightarrow> time_slot list res option" where
  "slot_loop duration day_end busy max_results slot_start candidates =
     (case dt_add slot_start duration of
        Inl e \<Rightarrow> Some (Inl e)
      | Inr slot_end \<Rightarrow>
          if dt_le slot_end day_end \<and> int (length candidates) < max_results
          then slot_loop duration day_end busy max_results slot_end
                 (if overlaps_any slot_start slot_end busy then candidates
                  else candidates @ [\<lparr>sl_start = slot_start, sl_end = slot_end\<rparr>])
          else Some (Inr candidates))"

text \<open>The outer loop over the days.\<close>

partial_function (option) day_loop ::
  "int \<Rightarrow> int \<Rightarrow> int \<Rightarrow> datetime \<Rightarrow> time_slot list \<Rightarrow> int \<Rightarrow> datetime \<Rightarrow> time_slot list
   \<Rightarrow> time_slot list res option" where
  "day_loop hours_start hours_end duration search_until busy max_results day candidates =
     (if dt_less day search_until \<and> int (length candidates) < max_results
      then (case replace_hour_minute day hours_end of
          Inl e \<Rightarrow> Some (Inl e)
        | Inr day_end \<Rightarrow>
            Option.bind (slot_loop duration day_end busy max_results day candidates)
              (\<lambda>r. case r of
                 Inl e \<Rightarrow> Some (Inl e)
               | Inr candidates' \<Rightarrow>
                   (case bind_res (dt_add day day_us) (\<lambda>d. replace_hour d hours_start) of
                      Inl e \<Rightarrow> Some (Inl e)
                    | Inr next_day \<Rightarrow>
                        day_loop hours_start hours_end duration search_until busy max_results
                          next_day candidates')))
      else Some (Inr candidates))"

text \<open>\<^verbatim>\<open>duration_minutes or self._default_duration_minutes\<close>: zero counts as not given.\<close>

definition minutes_or_default :: "'w booking_service \<Rightarrow> int option \<Rightarrow> int" where
  "minutes_or_default bs m = (case m of Some n \<Rightarrow> (if n = 0 then bs_default_minutes bs else n)
     | None \<Rightarrow> bs_default_minutes bs)"

definition first_day :: "datetime \<Rightarrow> int \<Rightarrow> datetime res" where
  "first_day search_from hours_start =
     bind_res (replace_hour search_from hours_start)
       (\<lambda>day. if dt_less day search_from then dt_add day day_us else Inr day)"

definition find_available_slots ::
  "'w booking_service \<Rightarrow> datetime \<Rightarrow> int \<Rightarrow> int option \<Rightarrow> int \<Rightarrow> 'w
   \<Rightarrow> (time_slot list res \<times> 'w) option" where
  "find_available_slots bs search_from search_days duration_minutes max_results w =
     (case td_minutes (minutes_or_default bs duration_minutes) of
        Inl e \<Rightarrow> Some (Inl e, w)
      | Inr duration \<Rightarrow>
     (case bind_res (td_days search_days) (dt_add search_from) of
        Inl e \<Rightarrow> Some (Inl e, w)
      | Inr search_until \<Rightarrow>
     (case list_busy_slots (bs_calendar bs) search_from search_until w of
        (Inl e, w') \<Rightarrow> Some (Inl e, w')
      | (Inr busy, w') \<Rightarrow>
     (case first_day search_from (bs_hours_start bs) of
        Inl e \<Rightarrow> Some (Inl e, w')
      | Inr day \<Rightarrow>
          map_option (\<lambda>r. (r, w'))
            (day_loop (bs_hours_start bs) (bs_hours_end bs) duration search_until busy
              max_results day [])))))"

section \<open>Termination\<close>

lemma slot_loop_ends:
  assumes "duration \<noteq> 0"
  shows "slot_loop duration day_end busy m st cs \<noteq> None"
  using assms
proof (induction "if 0 < duration then nat (max_wall - dt_wall st) else nat (dt_wall st + 1)"
    arbitrary: st cs rule: less_induct)
  case less
  show ?case
  proof (cases "dt_add st duration")
    case (Inl e)
    then show ?thesis by (simp add: slot_loop.simps)
  next
    case (Inr stop)
    then have w: "wall_ok (dt_wall st + duration)" "dt_wall stop = dt_wall st + duration"
      by (auto simp: dt_add_Some)
    have "slot_loop duration day_end busy m stop cs' \<noteq> None" for cs'
      using w less.prems by (intro less.hyps) (auto simp: wall_ok_def)
    with Inr show ?thesis by (subst slot_loop.simps) simp
  qed
qed

lemma next_day_wall:
  assumes "bind_res (dt_add day day_us) (\<lambda>d. replace_hour d h) = Inr next_day"
  shows "dt_wall next_day = midnight (dt_wall day) + day_us + h * hour_us"
    and "dt_off next_day = dt_off day" and "dt_wall day < dt_wall next_day"
    and "dt_wall day + day_us < max_wall"
proof -
  from assms have h: "0 \<le> h" "h \<le> 23" and ok: "wall_ok (dt_wall day + day_us)"
    and n: "next_day = day\<lparr>dt_wall := midnight (dt_wall day) + day_us + h * hour_us\<rparr>"
    by (auto simp: bind_res_Inr dt_add_Some replace_hour_def split: if_splits)
  from n show "dt_wall next_day = midnight (dt_wall day) + day_us + h * hour_us"
    "dt_off next_day = dt_off day" by simp_all
  show "dt_wall day < dt_wall next_day" using n h midnight_bounds(2) [of "dt_wall day"]
    by (simp add: unit_defs)
  show "dt_wall day + day_us < max_wall" using ok by (simp add: wall_ok_def)
qed

lemma day_loop_ends:
  assumes "duration \<noteq> 0"
  shows "day_loop hs he duration until busy m day cs \<noteq> None"
proof (induction "nat (max_wall - dt_wall day)" arbitrary: day cs rule: less_induct)
  case less
  have inner: "slot_loop duration e busy m day cs = None \<longleftrightarrow> False" for e
    using slot_loop_ends [OF assms] by simp
  have "day_loop hs he duration until busy m d cs' \<noteq> None"
    if "bind_res (dt_add day day_us) (\<lambda>d. replace_hour d hs) = Inr d" for d cs'
    using next_day_wall(3,4) [OF that]
    by (intro less.hyps) (simp add: unit_defs)
  then show ?case
    by (subst day_loop.simps) (auto simp: inner split: sum.split bind_split)
qed


lemma find_available_slots_ends:
  assumes "minutes_or_default bs minutes \<noteq> 0"
  shows "find_available_slots bs search_from days minutes m w \<noteq> None"
proof -
  have "td_minutes (minutes_or_default bs minutes) = Inr d \<Longrightarrow> d \<noteq> 0" for d
    using assms by (auto simp: td_minutes_def mk_timedelta_def unit_defs split: if_splits)
  then show ?thesis
    using day_loop_ends [unfolded not_None_eq]
    by (auto simp: find_available_slots_def split: sum.split prod.split)
qed

text \<open>
  A length of zero never ends when the first slot of a day is taken: the loop tests the same
  time again and again.
\<close>

lemma slot_loop_stuck:
  assumes "slot_loop d day_end busy m st cs = Some r"
  shows "\<not> (d = 0 \<and> wall_ok (dt_wall st) \<and> dt_le st day_end \<and> int (length cs) < m \<and>
    overlaps_any st st busy)"
  using assms
proof (induction rule: slot_loop.raw_induct [rotated, consumes 1])
  case (1 f d day_end busy m st cs r)
  then show ?case by (auto simp: dt_add_def split: sum.splits if_splits)
qed

section \<open>The declarative specification\<close>

definition slot_at :: "int \<Rightarrow> int \<Rightarrow> int \<Rightarrow> time_slot" where
  "slot_at off duration w = \<lparr>sl_start = \<lparr>dt_wall = w, dt_off = off\<rparr>,
     sl_end = \<lparr>dt_wall = w + duration, dt_off = off\<rparr>\<rparr>"

text \<open>The slots of one day from wall time \<open>w\<close>, as many as end by \<open>day_end\<close>.\<close>

definition day_slots :: "int \<Rightarrow> int \<Rightarrow> int \<Rightarrow> int \<Rightarrow> time_slot list" where
  "day_slots off duration day_end w =
     map (\<lambda>i. slot_at off duration (w + int i * duration)) [0..<nat ((day_end - w) div duration)]"

definition free_slot :: "time_slot list \<Rightarrow> time_slot \<Rightarrow> bool" where
  "free_slot busy s \<longleftrightarrow> \<not> overlaps_any (sl_start s) (sl_end s) busy"

lemma day_slots_step:
  assumes "0 < duration"
  shows "day_slots off duration day_end w =
    (if w + duration \<le> day_end
     then slot_at off duration w # day_slots off duration day_end (w + duration) else [])"
proof (cases "w + duration \<le> day_end")
  case True
  have "(day_end - w) div duration = (day_end - (w + duration)) div duration + 1"
    using assms div_add_self2 [of duration "day_end - (w + duration)"] by simp
  moreover have "0 \<le> (day_end - (w + duration)) div duration"
    using True assms by (simp add: pos_imp_zdiv_nonneg_iff)
  ultimately have "nat ((day_end - w) div duration) =
      Suc (nat ((day_end - (w + duration)) div duration))" by simp
  then show ?thesis using True
    by (simp add: day_slots_def map_Suc_upt [symmetric] upt_conv_Cons algebra_simps
        del: upt_Suc)
next
  case False
  then have "(day_end - w) div duration \<le> 0"
    using assms by (metis add.commute diff_less_eq div_pos_pos_trivial div_neg_pos_less0
      less_eq_int_code(1) not_le order.refl order.strict_implies_order)
  with False show ?thesis by (simp add: day_slots_def)
qed

lemma slot_loop_spec:
  assumes "0 < duration" and "0 \<le> dt_wall st" and "dt_wall st + duration < max_wall"
    and "dt_wall day_end + duration < max_wall" and "dt_off day_end = dt_off st"
  shows "slot_loop duration day_end busy m st cs = Some (Inr (cs @
    take (nat (m - int (length cs)))
      (filter (free_slot busy) (day_slots (dt_off st) duration (dt_wall day_end) (dt_wall st)))))"
  using assms
proof (induction "nat (max_wall - dt_wall st)" arbitrary: st cs rule: less_induct)
  case less
  let ?stop = "st\<lparr>dt_wall := dt_wall st + duration\<rparr>"
  have add: "dt_add st duration = Inr ?stop"
    using less.prems by (simp add: dt_add_Some wall_ok_def)
  have le: "dt_le ?stop day_end \<longleftrightarrow> dt_wall st + duration \<le> dt_wall day_end"
    using less.prems by (simp add: dt_le_def dt_instant_def)
  show ?case
  proof (cases "dt_wall st + duration \<le> dt_wall day_end \<and> int (length cs) < m")
    case False
    then have "take (nat (m - int (length cs))) (filter (free_slot busy)
        (day_slots (dt_off st) duration (dt_wall day_end) (dt_wall st))) = []"
      using day_slots_step [OF less.prems(1), of "dt_off st" "dt_wall day_end" "dt_wall st"] by auto
    moreover have "slot_loop duration day_end busy m st cs = Some (Inr cs)"
      using False add le by (subst slot_loop.simps) auto
    ultimately show ?thesis by simp
  next
    case True
    let ?s = "slot_at (dt_off st) duration (dt_wall st)"
    let ?cs = "if overlaps_any st ?stop busy then cs
      else cs @ [\<lparr>sl_start = st, sl_end = ?stop\<rparr>]"
    have slot: "\<lparr>sl_start = st, sl_end = ?stop\<rparr> = ?s" by (simp add: slot_at_def)
    have "slot_loop duration day_end busy m ?stop ?cs = Some (Inr (?cs @
      take (nat (m - int (length ?cs)))
        (filter (free_slot busy) (day_slots (dt_off st) duration (dt_wall day_end)
          (dt_wall st + duration)))))"
      using less.hyps [of ?stop ?cs] less.prems True by simp
    moreover have "nat (m - int (length cs)) = Suc (nat (m - (1 + int (length cs))))"
      using True by linarith
    moreover have "slot_loop duration day_end busy m st cs =
        slot_loop duration day_end busy m ?stop ?cs"
      using add le True by (subst slot_loop.simps) simp
    moreover have "day_slots (dt_off st) duration (dt_wall day_end) (dt_wall st) =
        ?s # day_slots (dt_off st) duration (dt_wall day_end) (dt_wall st + duration)"
      using day_slots_step [OF less.prems(1)] True by simp
    moreover have "free_slot busy ?s \<longleftrightarrow> \<not> overlaps_any st ?stop busy"
      by (cases st) (simp add: free_slot_def slot_at_def)
    ultimately show ?thesis
      by (cases "overlaps_any st ?stop busy") (simp_all add: slot)
  qed
qed


text \<open>
  All slots of the days that begin before \<open>until\<close>: \<open>len\<close> is the length of the business day, and
  the days begin at \<open>day\<close>, \<open>day\<close> plus one day, and so on.
\<close>

definition search_slots :: "int \<Rightarrow> int \<Rightarrow> int \<Rightarrow> int \<Rightarrow> int \<Rightarrow> time_slot list" where
  "search_slots off duration len until day =
     concat (map (\<lambda>k. day_slots off duration (day + int k * day_us + len) (day + int k * day_us))
       [0..<nat ((until - day + day_us - 1) div day_us)])"

lemma search_slots_step:
  "search_slots off duration len until day =
    (if day < until
     then day_slots off duration (day + len) day @
       search_slots off duration len until (day + day_us)
     else [])"
proof (cases "day < until")
  case True
  have "(until - day + day_us - 1) div day_us = (until - (day + day_us) + day_us - 1) div day_us + 1"
    using div_add_self2 [of day_us "until - (day + day_us) + day_us - 1"]
    by (simp add: unit_defs)
  moreover have "0 \<le> (until - (day + day_us) + day_us - 1) div day_us"
    using True by (simp add: unit_defs pos_imp_zdiv_nonneg_iff)
  ultimately have "nat ((until - day + day_us - 1) div day_us) =
      Suc (nat ((until - (day + day_us) + day_us - 1) div day_us))" by simp
  then show ?thesis using True
    by (simp add: search_slots_def map_Suc_upt [symmetric] upt_conv_Cons algebra_simps comp_def
        del: upt_Suc)
next
  case False
  then have "(until - day + day_us - 1) div day_us < 1"
    by (simp add: unit_defs div_less_iff_less_mult)
  with False show ?thesis by (simp add: search_slots_def)
qed

lemma still_wanted:
  "nat (m - (int k + int (min n (nat (m - int k))))) = nat (m - int k) - n"
  by (auto simp: min_def)

lemma day_loop_spec:
  assumes "0 < duration" and "0 \<le> hs" "hs \<le> 23" and "0 \<le> he" "he \<le> 23"
    and "0 \<le> midnight (dt_wall day)" and "dt_wall day = midnight (dt_wall day) + hs * hour_us"
    and "dt_wall until + day_us + duration < max_wall" and "dt_off until = dt_off day"
  shows "day_loop hs he duration until busy m day cs = Some (Inr (cs @
    take (nat (m - int (length cs)))
      (filter (free_slot busy) (search_slots (dt_off day) duration ((he - hs) * hour_us)
        (dt_wall until) (dt_wall day)))))"
  using assms(6-)
proof (induction "nat (max_wall - dt_wall day)" arbitrary: day cs rule: less_induct)
  case less
  have lt: "dt_less day until \<longleftrightarrow> dt_wall day < dt_wall until"
    using less.prems by (simp add: dt_less_def dt_instant_def)
  show ?case
  proof (cases "dt_wall day < dt_wall until \<and> int (length cs) < m")
    case False
    then have "take (nat (m - int (length cs))) (filter (free_slot busy)
        (search_slots (dt_off day) duration ((he - hs) * hour_us) (dt_wall until) (dt_wall day))) = []"
      by (subst search_slots_step) auto
    with False lt show ?thesis by (subst day_loop.simps) auto
  next
    case True
    let ?M = "midnight (dt_wall day)"
    let ?stop = "day\<lparr>dt_wall := ?M + he * hour_us\<rparr>"
    let ?next = "day\<lparr>dt_wall := dt_wall day + day_us\<rparr>"
    have d: "0 \<le> day_us" by (simp add: day_us_def)
    have less_wall: "nat (max_wall - dt_wall ?next) < nat (max_wall - dt_wall day)"
      using True less.prems(3) assms(1) by (simp add: unit_defs)
    have "dt_wall day mod minute_us = 0"
    proof -
      have "dt_wall day = (dt_wall day div day_us * 1440 + hs * 60) * minute_us"
        using less.prems(2) by (simp add: midnight_div unit_defs)
      then show ?thesis by (metis mod_mult_self2_is_0)
    qed
    then have e: "replace_hour_minute day he = Inr ?stop"
      using assms by (simp add: replace_hour_minute_def)
    let ?cs = "cs @ take (nat (m - int (length cs))) (filter (free_slot busy)
        (day_slots (dt_off day) duration (dt_wall ?stop) (dt_wall day)))"
    have "slot_loop duration ?stop busy m day cs = Some (Inr ?cs)"
      using less.prems True assms(1-5) midnight_bounds(1) [of "dt_wall day"]
      by (intro slot_loop_spec) (simp_all add: unit_defs)
    moreover have "bind_res (dt_add day day_us) (\<lambda>d. replace_hour d hs) = Inr ?next"
    proof -
      have "wall_ok (dt_wall day + day_us)"
        using less.prems True assms(1-5) midnight_bounds(1) [of "dt_wall day"]
        by (simp add: wall_ok_def unit_defs)
      then have "dt_add day day_us = Inr ?next" by (simp add: dt_add_Some)
      moreover have "midnight (dt_wall day) + day_us + hs * hour_us = dt_wall day + day_us"
        using less.prems(2) by simp
      ultimately show ?thesis using assms(2,3) by (simp add: replace_hour_def)
    qed
    moreover have "day_loop hs he duration until busy m ?next ?cs = Some (Inr (?cs @
        take (nat (m - int (length ?cs))) (filter (free_slot busy)
          (search_slots (dt_off day) duration ((he - hs) * hour_us) (dt_wall until)
            (dt_wall day + day_us)))))"
    proof -
      have p: "0 \<le> midnight (dt_wall ?next)"
        "dt_wall ?next = midnight (dt_wall ?next) + hs * hour_us" "dt_off until = dt_off ?next"
        using less.prems d by simp_all
      show ?thesis using less.hyps [OF less_wall p(1,2) less.prems(3) p(3), of ?cs] by simp
    qed
    moreover have "dt_wall ?stop = dt_wall day + (he - hs) * hour_us"
      using less.prems(2) by (simp add: algebra_simps)
    ultimately show ?thesis using e lt True
      by (subst day_loop.simps, subst search_slots_step) (simp add: still_wanted)
  qed
qed

end
