(* ===== verification/Booking_Slots_Thms.thy ===== *)
theory Booking_Slots_Thms
  imports Booking_Slots
begin

text \<open>
  The slot search against its specification: exactly the free business-hour slots of the
  searched days, in order, cut at the number asked for; that they are usable; that the search
  ends for every length but zero; and where the code is weaker than it looks.
\<close>

section \<open>The search meets its specification\<close>

text \<open>
  The searches whose dates stay in range: a positive length, hours of the day, and the searched
  days, one more day and one slot below year 10000.
\<close>

definition search_ok :: "'w booking_service \<Rightarrow> datetime \<Rightarrow> int \<Rightarrow> int option \<Rightarrow> bool" where
  "search_ok bs search_from days minutes \<longleftrightarrow>
     0 < minutes_or_default bs minutes \<and> 0 \<le> days \<and>
     0 \<le> bs_hours_start bs \<and> bs_hours_start bs \<le> 23 \<and>
     0 \<le> bs_hours_end bs \<and> bs_hours_end bs \<le> 23 \<and> 0 \<le> dt_wall search_from \<and>
     dt_wall search_from + (days + 1) * day_us + minutes_or_default bs minutes * minute_us < max_wall"

definition first_wall :: "datetime \<Rightarrow> int \<Rightarrow> int" where
  "first_wall search_from hs =
     (let w = midnight (dt_wall search_from) + hs * hour_us
      in if w < dt_wall search_from then w + day_us else w)"

definition until_of :: "datetime \<Rightarrow> int \<Rightarrow> datetime" where
  "until_of search_from days = search_from\<lparr>dt_wall := dt_wall search_from + days * day_us\<rparr>"

definition expected_slots :: "'w booking_service \<Rightarrow> datetime \<Rightarrow> int \<Rightarrow> int option \<Rightarrow> time_slot list" where
  "expected_slots bs search_from days minutes =
     search_slots (dt_off search_from) (minutes_or_default bs minutes * minute_us)
       ((bs_hours_end bs - bs_hours_start bs) * hour_us)
       (dt_wall search_from + days * day_us) (first_wall search_from (bs_hours_start bs))"

lemma small_timedelta: "0 \<le> us \<Longrightarrow> us < max_wall \<Longrightarrow> mk_timedelta us = Inr us"
proof -
  assume "0 \<le> us" "us < max_wall"
  then have "0 \<le> us div day_us" "us div day_us < 3652059"
    by (simp_all add: max_wall_def unit_defs div_less_iff_less_mult pos_imp_zdiv_nonneg_iff)
  then show ?thesis by (simp add: mk_timedelta_def)
qed

lemma midnight_nonneg: "0 \<le> w \<Longrightarrow> 0 \<le> midnight w"
  by (simp add: midnight_div unit_defs pos_imp_zdiv_nonneg_iff)

lemma midnight_hours: "0 \<le> h \<Longrightarrow> h \<le> 23 \<Longrightarrow> midnight (midnight w + h * hour_us) = midnight w"
  by (rule midnight_add) (simp_all add: unit_defs)

lemma first_day_spec:
  assumes "0 \<le> hs" "hs \<le> 23" and "0 \<le> dt_wall f" and "dt_wall f + day_us < max_wall"
  shows "first_day f hs = Inr (f\<lparr>dt_wall := first_wall f hs\<rparr>)"
proof -
  have "wall_ok (midnight (dt_wall f) + hs * hour_us + day_us)"
    if "midnight (dt_wall f) + hs * hour_us < dt_wall f"
    using assms that midnight_nonneg [OF assms(3)] by (simp add: wall_ok_def unit_defs)
  then show ?thesis using assms(1,2)
    by (simp add: first_day_def replace_hour_def first_wall_def dt_less_def dt_instant_def
      dt_add_Some Let_def)
qed

lemma first_wall_facts:
  assumes "0 \<le> hs" "hs \<le> 23"
  shows "midnight (first_wall f hs) = first_wall f hs - hs * hour_us"
    and "dt_wall f \<le> first_wall f hs"
    and "0 \<le> dt_wall f \<Longrightarrow> 0 \<le> midnight (first_wall f hs)"
proof -
  show m: "midnight (first_wall f hs) = first_wall f hs - hs * hour_us"
    using midnight_hours [OF assms, of "dt_wall f"] by (simp add: first_wall_def Let_def)
  have h: "0 \<le> hs * hour_us" using assms by (simp add: unit_defs)
  show "dt_wall f \<le> first_wall f hs"
    using midnight_bounds(2) [of "dt_wall f"] h by (simp add: first_wall_def Let_def)
  show "0 \<le> midnight (first_wall f hs)" if "0 \<le> dt_wall f"
    unfolding m using midnight_nonneg [OF that]
    by (simp add: first_wall_def Let_def) (simp add: unit_defs)
qed

lemma find_slots_spec:
  assumes ok: "search_ok bs f days minutes"
    and busy: "list_busy_slots (bs_calendar bs) f (until_of f days) w = (Inr busy, w')"
  shows "find_available_slots bs f days minutes m w =
    Some (Inr (take (nat m) (filter (free_slot busy) (expected_slots bs f days minutes))), w')"
proof -
  let ?n = "minutes_or_default bs minutes" and ?hs = "bs_hours_start bs"
  have days: "0 \<le> days * day_us" using ok by (simp add: search_ok_def unit_defs)
  have bounds: "dt_wall f + days * day_us + day_us + ?n * minute_us < max_wall"
    using ok by (simp add: search_ok_def distrib_right add.assoc)
  have pos: "0 < ?n * minute_us" and u: "0 \<le> day_us"
    using ok by (simp_all add: search_ok_def unit_defs)
  have f0: "0 \<le> dt_wall f" using ok by (simp add: search_ok_def)
  have ranges: "?n * minute_us < max_wall" "days * day_us < max_wall"
    "dt_wall f + days * day_us < max_wall" "dt_wall f + day_us < max_wall"
    using bounds pos days u f0 by linarith+
  have dur: "td_minutes ?n = Inr (?n * minute_us)"
    using pos ranges by (simp add: td_minutes_def small_timedelta)
  have td: "td_days days = Inr (days * day_us)"
    using days ranges by (simp add: td_days_def small_timedelta)
  have "dt_add f (days * day_us) = Inr (until_of f days)"
    using ok days ranges by (simp add: until_of_def dt_add_Some wall_ok_def search_ok_def)
  moreover have first: "first_day f ?hs = Inr (f\<lparr>dt_wall := first_wall f ?hs\<rparr>)"
    using ok ranges by (intro first_day_spec) (simp_all add: search_ok_def)
  moreover have "first_wall f ?hs = midnight (first_wall f ?hs) + ?hs * hour_us"
    "0 \<le> midnight (first_wall f ?hs)"
    using ok first_wall_facts [of ?hs f] f0 by (simp_all add: search_ok_def)
  then have "day_loop ?hs (bs_hours_end bs) (?n * minute_us) (until_of f days) busy m
      (f\<lparr>dt_wall := first_wall f ?hs\<rparr>) [] =
    Some (Inr (take (nat m) (filter (free_slot busy) (expected_slots bs f days minutes))))"
    using ok pos bounds
    by (subst day_loop_spec) (simp_all add: search_ok_def until_of_def expected_slots_def)
  ultimately show ?thesis using dur td busy by (simp add: find_available_slots_def)
qed

section \<open>What an expected slot looks like\<close>

lemma div_times_le: "0 < d \<Longrightarrow> (x::int) div d * d \<le> x"
  using div_mod_facts(1) [of x d] div_mod_facts(2) [of d x] by linarith

lemma day_slots_member:
  assumes "s \<in> set (day_slots off d e w)" and "0 < d"
  shows "\<exists>i. s = slot_at off d (w + int i * d) \<and> w + int i * d + d \<le> e"
proof -
  from assms(1) obtain i where i: "i < nat ((e - w) div d)" "s = slot_at off d (w + int i * d)"
    by (auto simp: day_slots_def)
  then have "int i + 1 \<le> (e - w) div d" by linarith
  then have "(int i + 1) * d \<le> (e - w) div d * d" using assms(2) by simp
  also have "\<dots> \<le> e - w" using assms(2) by (simp add: div_times_le)
  finally show ?thesis using i(2) by (intro exI [of _ i]) (simp add: algebra_simps)
qed

lemma search_slots_member:
  assumes "s \<in> set (search_slots off d len until day)" and "0 < d"
  shows "\<exists>k i. s = slot_at off d (day + int k * day_us + int i * d) \<and>
    int i * d + d \<le> len \<and> day + int k * day_us < until"
proof -
  from assms(1) obtain k where k: "k < nat ((until - day + day_us - 1) div day_us)"
    and s: "s \<in> set (day_slots off d (day + int k * day_us + len) (day + int k * day_us))"
    by (auto simp: search_slots_def)
  from k have "int k + 1 \<le> (until - day + day_us - 1) div day_us" by linarith
  then have "(int k + 1) * day_us \<le> (until - day + day_us - 1) div day_us * day_us"
    by (simp add: unit_defs)
  also have "\<dots> \<le> until - day + day_us - 1" by (simp add: div_times_le unit_defs)
  finally have "day + int k * day_us < until" by (simp add: algebra_simps)
  with day_slots_member [OF s assms(2)] show ?thesis by fastforce
qed


lemma expected_slot:
  assumes "search_ok bs f days minutes" and "s \<in> set (expected_slots bs f days minutes)"
  shows "dt_off (sl_start s) = dt_off f" "dt_off (sl_end s) = dt_off f"
    and "dt_wall f \<le> dt_wall (sl_start s)"
    and "dt_wall (sl_end s) = dt_wall (sl_start s) + minutes_or_default bs minutes * minute_us"
    and "midnight (dt_wall (sl_start s)) + bs_hours_start bs * hour_us \<le> dt_wall (sl_start s)"
    and "dt_wall (sl_end s) \<le> midnight (dt_wall (sl_start s)) + bs_hours_end bs * hour_us"
proof -
  let ?hs = "bs_hours_start bs" and ?he = "bs_hours_end bs"
  let ?d = "minutes_or_default bs minutes * minute_us" and ?day = "first_wall f (bs_hours_start bs)"
  have d: "0 < ?d" and h: "0 \<le> ?hs" "?hs \<le> 23" "0 \<le> ?he" "?he \<le> 23"
    using assms(1) by (simp_all add: search_ok_def unit_defs)
  from search_slots_member [OF assms(2) [unfolded expected_slots_def] d]
  obtain k i where s: "s = slot_at (dt_off f) ?d (?day + int k * day_us + int i * ?d)"
    and len: "int i * ?d + ?d \<le> (?he - ?hs) * hour_us" by blast
  let ?m = "midnight ?day + int k * day_us"
  have first: "?day = midnight ?day + ?hs * hour_us" "dt_wall f \<le> ?day"
    using first_wall_facts [OF h(1,2), of f] by simp_all
  have i: "0 \<le> int i * ?d" and k: "0 \<le> int k * day_us" using d by (simp_all add: unit_defs)
  have start: "dt_wall (sl_start s) = ?m + (?hs * hour_us + int i * ?d)"
    using first by (simp add: s slot_at_def)
  have "?m = midnight (?day + int k * day_us)" by (simp add: midnight_div unit_defs)
  moreover have "?hs * hour_us + int i * ?d < day_us"
    using len d h by (simp add: unit_defs)
  ultimately have m: "midnight (dt_wall (sl_start s)) = ?m"
    using start h i midnight_add [of "?hs * hour_us + int i * ?d" "?day + int k * day_us"]
    by (simp add: unit_defs)
  show "dt_off (sl_start s) = dt_off f" "dt_off (sl_end s) = dt_off f"
    "dt_wall (sl_end s) = dt_wall (sl_start s) + ?d" by (simp_all add: s slot_at_def)
  show "dt_wall f \<le> dt_wall (sl_start s)" using start first i k by linarith
  show "midnight (dt_wall (sl_start s)) + ?hs * hour_us \<le> dt_wall (sl_start s)"
    using m start i by simp
  show "dt_wall (sl_end s) \<le> midnight (dt_wall (sl_start s)) + ?he * hour_us"
    using m start len by (simp add: s slot_at_def left_diff_distrib)
qed

text \<open>An expected slot ends before year 10000: its day begins before the end of the search.\<close>

lemma expected_slot_bound:
  assumes "search_ok bs f days minutes" and "s \<in> set (expected_slots bs f days minutes)"
  shows "dt_wall (sl_end s) < max_wall"
proof -
  let ?d = "minutes_or_default bs minutes * minute_us" and ?day = "first_wall f (bs_hours_start bs)"
  have d: "0 < ?d" using assms(1) by (simp add: search_ok_def unit_defs)
  from search_slots_member [OF assms(2) [unfolded expected_slots_def] d]
  obtain k i where s: "s = slot_at (dt_off f) ?d (?day + int k * day_us + int i * ?d)"
    and len: "int i * ?d + ?d \<le> (bs_hours_end bs - bs_hours_start bs) * hour_us"
    and until: "?day + int k * day_us < dt_wall f + days * day_us" by blast
  have "(bs_hours_end bs - bs_hours_start bs) * hour_us \<le> day_us"
    using assms(1) by (simp add: search_ok_def unit_defs)
  moreover have "dt_wall f + days * day_us + day_us + ?d < max_wall"
    using assms(1) by (simp add: search_ok_def distrib_right add.assoc)
  moreover have "dt_wall (sl_end s) = ?day + int k * day_us + (int i * ?d + ?d)"
    by (simp add: s slot_at_def)
  ultimately show ?thesis using len until d by linarith
qed

definition before :: "time_slot \<Rightarrow> time_slot \<Rightarrow> bool" where
  "before a b \<longleftrightarrow> dt_wall (sl_end a) \<le> dt_wall (sl_start b)"

lemma day_slots_sorted:
  assumes "0 < d"
  shows "sorted_wrt before (day_slots off d e w) \<and>
    (\<forall>s \<in> set (day_slots off d e w). w \<le> dt_wall (sl_start s))"
proof (induction "nat (e - w)" arbitrary: w rule: less_induct)
  case less
  show ?case
  proof (cases "w + d \<le> e")
    case True
    have "sorted_wrt before (day_slots off d e (w + d)) \<and>
        (\<forall>s \<in> set (day_slots off d e (w + d)). w + d \<le> dt_wall (sl_start s))"
      using less [of "w + d"] True assms by simp
    with True assms show ?thesis
      by (subst (1 2) day_slots_step) (auto simp: before_def slot_at_def)
  next
    case False
    with assms show ?thesis by (subst (1 2) day_slots_step) auto
  qed
qed

lemma search_slots_sorted:
  assumes "0 < d" and "len \<le> day_us"
  shows "sorted_wrt before (search_slots off d len until day) \<and>
    (\<forall>s \<in> set (search_slots off d len until day). day \<le> dt_wall (sl_start s))"
proof (induction "nat (until - day)" arbitrary: day rule: less_induct)
  case less
  show ?case
  proof (cases "day < until")
    case True
    have rest: "sorted_wrt before (search_slots off d len until (day + day_us)) \<and>
        (\<forall>s \<in> set (search_slots off d len until (day + day_us)). day + day_us \<le> dt_wall (sl_start s))"
      using less [of "day + day_us"] True by (simp add: unit_defs)
    have "dt_wall (sl_end s) \<le> day + len" if "s \<in> set (day_slots off d (day + len) day)" for s
      using day_slots_member [OF that assms(1)] by (auto simp: slot_at_def)
    with rest day_slots_sorted [OF assms(1), of off "day + len" day] True assms show ?thesis
      by (subst (1 2) search_slots_step)
        (fastforce simp: sorted_wrt_append before_def unit_defs)
  next
    case False
    then show ?thesis by (subst (1 2) search_slots_step) simp
  qed
qed

lemma expected_slots_sorted:
  assumes "search_ok bs f days minutes"
  shows "sorted_wrt before (expected_slots bs f days minutes)"
proof -
  have "(bs_hours_end bs - bs_hours_start bs) * hour_us \<le> day_us"
    "0 < minutes_or_default bs minutes * minute_us"
    using assms by (simp_all add: search_ok_def unit_defs)
  then show ?thesis using search_slots_sorted by (simp add: expected_slots_def)
qed


section \<open>A concrete calendar for the witnesses\<close>

text \<open>
  A calendar that answers from a list of events and reports, as asked, those that overlap the
  queried window. The search of the examples starts on Monday 0001-01-01 (or the day after).
\<close>

definition busy_within :: "time_slot list \<Rightarrow> datetime \<Rightarrow> datetime \<Rightarrow> time_slot list" where
  "busy_within events a b =
     filter (\<lambda>e. dt_less a (sl_end e) \<and> dt_less (sl_start e) b) events"

definition listed_calendar :: "time_slot list \<Rightarrow> unit calendar" where
  "listed_calendar events =
     \<lparr>list_busy_slots = (\<lambda>a b. ret (busy_within events a b)),
      create_event = (\<lambda>a b summary descr. ret \<lparr>ev_event_id = ''e'', ev_start = a, ev_end = b,
        ev_summary = summary\<rparr>),
      cancel_event = (\<lambda>i. ret ()),
      reschedule_event = (\<lambda>i a b. ret \<lparr>ev_event_id = i, ev_start = a, ev_end = b,
        ev_summary = []\<rparr>)\<rparr>"

definition listed_service :: "time_slot list \<Rightarrow> int \<Rightarrow> unit booking_service" where
  "listed_service events default_minutes =
     \<lparr>bs_calendar = listed_calendar events, bs_sms = None, bs_email = None,
      bs_hours_start = 9, bs_hours_end = 17, bs_default_minutes = default_minutes\<rparr>"

definition at_hour :: "int \<Rightarrow> int \<Rightarrow> datetime" where
  "at_hour day h = \<lparr>dt_wall = day * day_us + h * hour_us, dt_off = 0\<rparr>"

lemmas listed_defs = listed_service_def listed_calendar_def at_hour_def

lemma listed_busy [simp]:
  "list_busy_slots (bs_calendar (listed_service events n)) a b w = (Inr (busy_within events a b), w)"
  by (simp add: listed_defs)

section \<open>Properties\<close>

text \<open>
  (C13) The slot search returns exactly its specification: all business-hour slots of the days
  that begin before the end of the search, in order, without those that overlap a busy window
  the calendar reported, cut at the number of results asked for.
\<close>

theorem slot_search_is_exact:
  assumes "search_ok bs f days minutes"
    and "list_busy_slots (bs_calendar bs) f (until_of f days) w = (Inr busy, w')"
  shows "find_available_slots bs f days minutes m w =
    Some (Inr (take (nat m) (filter (free_slot busy) (expected_slots bs f days minutes))), w')"
  using assms by (rule find_slots_spec)

theorem slot_search_is_exact_witness:
  "find_available_slots (listed_service [] 240) (at_hour 0 9) 1 None 5 () =
    Some (Inr [\<lparr>sl_start = at_hour 0 9, sl_end = at_hour 0 13\<rparr>,
      \<lparr>sl_start = at_hour 0 13, sl_end = at_hour 0 17\<rparr>], ())"
proof -
  have "search_ok (listed_service [] 240) (at_hour 0 9) 1 None"
    by (simp add: search_ok_def listed_defs minutes_or_default_def max_wall_def unit_defs)
  moreover have "take (nat 5) (filter (free_slot [])
      (expected_slots (listed_service [] 240) (at_hour 0 9) 1 None)) =
    [\<lparr>sl_start = at_hour 0 9, sl_end = at_hour 0 13\<rparr>,
     \<lparr>sl_start = at_hour 0 13, sl_end = at_hour 0 17\<rparr>]" by code_simp
  ultimately show ?thesis
    using slot_search_is_exact [of "listed_service [] 240" "at_hour 0 9" 1 None "()" "[]" "()" 5]
    by (simp add: busy_within_def)
qed

text \<open>
  Every proposed slot can be kept: it starts no earlier than asked, has the length asked
  for, lies within the business hours of one day, overlaps nothing the calendar reported; the
  slots are in order and disjoint, and no more than asked for.
\<close>

theorem proposed_slots_are_usable:
  assumes ok: "search_ok bs f days minutes"
    and busy: "list_busy_slots (bs_calendar bs) f (until_of f days) w = (Inr busy, w')"
    and found: "find_available_slots bs f days minutes m w = Some (Inr slots, w'')"
  shows "(\<forall>s \<in> set slots. dt_le f (sl_start s) \<and>
      dt_wall (sl_end s) = dt_wall (sl_start s) + minutes_or_default bs minutes * minute_us \<and>
      midnight (dt_wall (sl_start s)) + bs_hours_start bs * hour_us \<le> dt_wall (sl_start s) \<and>
      dt_wall (sl_end s) \<le> midnight (dt_wall (sl_start s)) + bs_hours_end bs * hour_us \<and>
      \<not> overlaps_any (sl_start s) (sl_end s) busy) \<and>
    sorted_wrt before slots \<and> length slots \<le> nat m"
proof -
  have slots: "slots = take (nat m) (filter (free_slot busy) (expected_slots bs f days minutes))"
    using find_slots_spec [OF ok busy, of m] found by simp
  have "sorted_wrt before slots"
    unfolding slots by (intro sorted_wrt_take sorted_wrt_filter expected_slots_sorted ok)
  moreover have "s \<in> set (expected_slots bs f days minutes) \<and> free_slot busy s"
    if "s \<in> set slots" for s
    using that by (auto simp: slots dest: in_set_takeD)
  moreover have "length slots \<le> nat m" by (simp add: slots)
  ultimately show ?thesis
    using expected_slot [OF ok] by (simp add: free_slot_def dt_le_def dt_instant_def)
qed

theorem proposed_slots_are_usable_witness:
  "\<exists>slots. find_available_slots (listed_service [] 30) (at_hour 0 9) 1 None 5 () =
      Some (Inr slots, ()) \<and> sorted_wrt before slots \<and> length slots \<le> 5"
proof -
  have ok: "search_ok (listed_service [] 30) (at_hour 0 9) 1 None"
    by (simp add: search_ok_def listed_defs minutes_or_default_def max_wall_def unit_defs)
  from find_slots_spec [OF this listed_busy, where m = 5 and w = "()"] obtain slots where
    f: "find_available_slots (listed_service [] 30) (at_hour 0 9) 1 None 5 () = Some (Inr slots, ())"
    by blast
  with proposed_slots_are_usable [OF ok listed_busy f] show ?thesis by simp
qed

lemma window_slots_free:
  assumes "search_ok bs f days minutes"
    and "list_busy_slots (bs_calendar bs) f (until_of f days) w =
      (Inr (busy_within events f (until_of f days)), w')"
    and "find_available_slots bs f days minutes m w = Some (Inr slots, w'')"
    and "s \<in> set slots" and "dt_le (sl_end s) (until_of f days)"
  shows "\<not> overlaps_any (sl_start s) (sl_end s) events"
proof -
  have "s \<in> set (expected_slots bs f days minutes)"
    and "free_slot (busy_within events f (until_of f days)) s"
    using find_slots_spec [OF assms(1,2), of m] assms(3,4) by (auto dest: in_set_takeD)
  with expected_slot [OF assms(1)] assms(5) show ?thesis
    by (fastforce simp: free_slot_def overlaps_any_def busy_within_def list_ex_iff dt_order_defs
      dt_instant_def)
qed

text \<open>
  If the calendar reports every event that overlaps the searched window, then no proposed
  slot that ends within the window clashes with any event at all.
\<close>

theorem slots_in_the_window_never_clash:
  assumes "search_ok bs f days minutes"
    and "list_busy_slots (bs_calendar bs) f (until_of f days) w =
      (Inr (busy_within events f (until_of f days)), w')"
    and "find_available_slots bs f days minutes m w = Some (Inr slots, w'')"
    and "s \<in> set slots" and "dt_le (sl_end s) (until_of f days)"
  shows "\<not> overlaps_any (sl_start s) (sl_end s) events"
  using assms by (rule window_slots_free)

theorem slots_in_the_window_never_clash_witness:
  "\<not> overlaps_any (at_hour 0 9) (at_hour 0 13) [\<lparr>sl_start = at_hour 0 14, sl_end = at_hour 0 15\<rparr>]"
proof -
  let ?ev = "[\<lparr>sl_start = at_hour 0 14, sl_end = at_hour 0 15\<rparr>]"
  let ?bs = "listed_service ?ev 240" and ?s = "\<lparr>sl_start = at_hour 0 9, sl_end = at_hour 0 13\<rparr>"
  have ok: "search_ok ?bs (at_hour 0 9) 1 None"
    by (simp add: search_ok_def listed_defs minutes_or_default_def max_wall_def unit_defs)
  have "?s \<in> set (take (nat 5) (filter (free_slot (busy_within ?ev (at_hour 0 9)
      (until_of (at_hour 0 9) 1))) (expected_slots ?bs (at_hour 0 9) 1 None)))" by code_simp
  moreover have "dt_le (sl_end ?s) (until_of (at_hour 0 9) 1)" by code_simp
  ultimately show ?thesis
    using slots_in_the_window_never_clash [OF ok listed_busy find_slots_spec [OF ok listed_busy, where m = 5 and w = "()"]]
    by fastforce
qed


text \<open>
  The window that is proposed is wider than the window that is checked: the last day of the
  search is proposed to its end, but the calendar was asked only up to the hour of the search.
  Here a search of one day from 10:00 proposes 13:00 to 14:00 of the next day, which the
  calendar holds an event for and would have reported had it been asked.
\<close>

theorem taken_slot_past_the_window_is_proposed:
  "let taken = \<lparr>sl_start = at_hour 1 13, sl_end = at_hour 1 14\<rparr>; bs = listed_service [taken] 60
   in (\<exists>slots. find_available_slots bs (at_hour 0 10) 1 None 20 () = Some (Inr slots, ()) \<and>
         taken \<in> set slots) \<and>
      \<not> overlaps_any (at_hour 1 13) (at_hour 1 14) (busy_within [taken] (at_hour 0 10) (at_hour 1 10))"
proof -
  let ?t = "\<lparr>sl_start = at_hour 1 13, sl_end = at_hour 1 14\<rparr>"
  let ?bs = "listed_service [?t] 60"
  have ok: "search_ok ?bs (at_hour 0 10) 1 None"
    by (simp add: search_ok_def listed_defs minutes_or_default_def max_wall_def unit_defs)
  have "?t \<in> set (take (nat 20) (filter (free_slot (busy_within [?t] (at_hour 0 10)
      (until_of (at_hour 0 10) 1))) (expected_slots ?bs (at_hour 0 10) 1 None)))" by code_simp
  moreover have "\<not> overlaps_any (at_hour 1 13) (at_hour 1 14)
      (busy_within [?t] (at_hour 0 10) (at_hour 1 10))" by code_simp
  ultimately show ?thesis
    using find_slots_spec [OF ok listed_busy, where m = 20 and w = "()"] by (auto simp: Let_def)
qed

text \<open>
  (C16) The slot search ends, with slots or an exception, for every slot length but zero, every
  number of days and results, every calendar and all business hours.
\<close>

theorem slot_search_ends:
  assumes "minutes_or_default bs minutes \<noteq> 0"
  shows "\<exists>r. find_available_slots bs f days minutes m w = Some r"
  using find_available_slots_ends [OF assms] by blast

theorem slot_search_ends_witness:
  "\<exists>r. find_available_slots (listed_service [] 30) (at_hour 0 9) 400 (Some (- 15)) 5 () = Some r"
  by (rule slot_search_ends) (simp add: minutes_or_default_def)

text \<open>
  With a length of zero (a default length of zero is not refused by the settings) the search
  never returns once the opening of a searched day lies inside a busy window.
\<close>

theorem zero_length_search_never_returns:
  assumes "minutes_or_default bs minutes = 0"
    and "bind_res (td_days days) (dt_add f) = Inr until"
    and "list_busy_slots (bs_calendar bs) f until w = (Inr busy, w')"
    and "first_day f (bs_hours_start bs) = Inr day" and "wall_ok (dt_wall day)"
    and "dt_less day until" and "0 < m"
    and "replace_hour_minute day (bs_hours_end bs) = Inr day_end" and "dt_le day day_end"
    and "overlaps_any day day busy"
  shows "find_available_slots bs f days minutes m w = None"
proof -
  have "slot_loop 0 day_end busy m day [] = None"
    using slot_loop_stuck [of 0 day_end busy m day "[]"] assms(5,7,9,10)
    by (cases "slot_loop 0 day_end busy m day []") auto
  then have "day_loop (bs_hours_start bs) (bs_hours_end bs) 0 until busy m day [] = None"
    using assms(6,7,8) by (subst day_loop.simps) simp
  then show ?thesis using assms(1-4)
    by (simp add: find_available_slots_def td_minutes_def mk_timedelta_def)
qed

theorem zero_length_search_never_returns_witness:
  "find_available_slots
     (listed_service [\<lparr>sl_start = at_hour 0 8, sl_end = at_hour 0 10\<rparr>] 0) (at_hour 0 9) 1 None 5 ()
   = None"
proof -
  let ?ev = "[\<lparr>sl_start = at_hour 0 8, sl_end = at_hour 0 10\<rparr>]"
  have "bind_res (td_days 1) (dt_add (at_hour 0 9)) = Inr (at_hour 1 9)" by code_simp
  moreover have "first_day (at_hour 0 9) 9 = Inr (at_hour 0 9)" by code_simp
  moreover have "replace_hour_minute (at_hour 0 9) 17 = Inr (at_hour 0 17)" by code_simp
  moreover have "overlaps_any (at_hour 0 9) (at_hour 0 9)
      (busy_within ?ev (at_hour 0 9) (at_hour 1 9))" by code_simp
  moreover have "wall_ok (dt_wall (at_hour 0 9))" "dt_less (at_hour 0 9) (at_hour 1 9)"
    "dt_le (at_hour 0 9) (at_hour 0 17)" by code_simp+
  ultimately show ?thesis
    using zero_length_search_never_returns [of "listed_service ?ev 0" None 1 "at_hour 0 9"
      "at_hour 1 9" "()" "busy_within ?ev (at_hour 0 9) (at_hour 1 9)" "()" "at_hour 0 9" 5
      "at_hour 0 17"]
    by (simp add: minutes_or_default_def listed_service_def listed_calendar_def)
qed

text \<open>
  A negative length is accepted, from a caller of the API or from the model: the search then
  proposes windows that end before they begin.
\<close>

theorem negative_length_proposes_inverted_slots:
  "find_available_slots (listed_service [] 30) (at_hour 0 9) 1 (Some (- 30)) 1 () =
     Some (Inr [\<lparr>sl_start = at_hour 0 9,
       sl_end = \<lparr>dt_wall = 8 * hour_us + 30 * minute_us, dt_off = 0\<rparr>\<rparr>], ())"
proof -
  let ?s = "at_hour 0 9" and ?e = "\<lparr>dt_wall = 8 * hour_us + 30 * minute_us, dt_off = 0\<rparr>"
  let ?slot = "\<lparr>sl_start = ?s, sl_end = ?e\<rparr>"
  have facts: "td_minutes (- 30) = Inr (- 30 * minute_us)" "dt_add ?s (- 30 * minute_us) = Inr ?e"
    "bind_res (td_days 1) (dt_add ?s) = Inr (at_hour 1 9)" "first_day ?s 9 = Inr ?s"
    "replace_hour_minute ?s 17 = Inr (at_hour 0 17)" "dt_less ?s (at_hour 1 9)"
    "bind_res (dt_add ?s day_us) (\<lambda>d. replace_hour d 9) = Inr (at_hour 1 9)"
    "dt_le ?e (at_hour 0 17)" "\<not> overlaps_any ?s ?e []"
    "dt_add ?e (- 30 * minute_us) = Inr (at_hour 0 8)"
    by code_simp+
  have "slot_loop (- 30 * minute_us) (at_hour 0 17) [] 1 ?e [?slot] = Some (Inr [?slot])"
    using facts by (subst slot_loop.simps) auto
  then have "slot_loop (- 30 * minute_us) (at_hour 0 17) [] 1 ?s [] = Some (Inr [?slot])"
    using facts by (subst slot_loop.simps) simp
  moreover have "day_loop 9 17 (- 30 * minute_us) (at_hour 1 9) [] 1 (at_hour 1 9) [?slot] =
      Some (Inr [?slot])" by (subst day_loop.simps) simp
  ultimately have "day_loop 9 17 (- 30 * minute_us) (at_hour 1 9) [] 1 ?s [] = Some (Inr [?slot])"
    using facts by (subst day_loop.simps) simp
  with facts show ?thesis
    by (simp add: find_available_slots_def minutes_or_default_def listed_service_def
      listed_calendar_def busy_within_def)
qed

end
