(* ===== verification/DB.thy ===== *)
theory DB
  imports Py_Time "HOL-Library.Word"
begin

text \<open>
  \<^verbatim>\<open>openvoice/db\<close>: the four tables with their constraints (models and migrations) and the few
  statements the services issue against them. The world of a service is these tables and an
  external part \<open>'w\<close> (calendar, messaging services, clock, source of fresh identifiers).

  A table is a list of rows in the order a scan returns them. The time stamps that the database
  maintains itself (\<^verbatim>\<open>created_at\<close>, \<^verbatim>\<open>updated_at\<close>) are left out: no code reads them except to
  print them. Timestamp columns hold instants and are read back in UTC.
\<close>

type_synonym uuid = "128 word"

section \<open>Rows\<close>

datatype appointment_status = SCHEDULED | CONFIRMED | CANCELLED | RESCHEDULED | COMPLETED

fun appointment_status_value :: "appointment_status \<Rightarrow> string" where
  "appointment_status_value SCHEDULED = ''scheduled''"
| "appointment_status_value CONFIRMED = ''confirmed''"
| "appointment_status_value CANCELLED = ''cancelled''"
| "appointment_status_value RESCHEDULED = ''rescheduled''"
| "appointment_status_value COMPLETED = ''completed''"

datatype call_direction = INBOUND | OUTBOUND

datatype call_status = IN_PROGRESS | CALL_COMPLETED | TRANSFERRED_TO_HUMAN | FAILED | NO_ANSWER

datatype speaker_role = CALLER | AGENT | SYSTEM

record client =
  cl_id :: uuid
  cl_phone_number :: string
  cl_full_name :: "string option"
  cl_email :: "string option"
  cl_notes :: "string option"

record call =
  ca_id :: uuid
  ca_client_id :: "uuid option"
  ca_livekit_room_name :: string
  ca_direction :: call_direction
  ca_status :: call_status
  ca_started_at :: datetime
  ca_ended_at :: "datetime option"
  ca_summary :: "string option"

record transcript =
  tr_id :: uuid
  tr_call_id :: uuid
  tr_sequence :: int
  tr_role :: speaker_role
  tr_text :: string

record appointment =
  ap_id :: uuid
  ap_client_id :: uuid
  ap_call_id :: "uuid option"
  ap_starts_at :: datetime
  ap_ends_at :: datetime
  ap_status :: appointment_status
  ap_calendar_event_id :: "string option"
  ap_notes :: "string option"

record 'w world =
  w_clients :: "client list"
  w_calls :: "call list"
  w_transcripts :: "transcript list"
  w_appointments :: "appointment list"
  w_ext :: 'w

text \<open>
  What the services need of their runtime: a connection that may fail at any statement, fresh
  identifiers (\<^verbatim>\<open>uuid4\<close>), and the clock (microseconds since year 1, UTC).
\<close>

record 'w runtime =
  rt_db_fault :: "'w world \<Rightarrow> exc option"
  rt_uuid :: "'w \<Rightarrow> uuid \<times> 'w"
  rt_now :: "'w \<Rightarrow> int"

definition lift_ext :: "('w, 'a) prog \<Rightarrow> ('w world, 'a) prog" where
  "lift_ext m = (\<lambda>w. case m (w_ext w) of (r, e) \<Rightarrow> (r, w\<lparr>w_ext := e\<rparr>))"

definition utc_now :: "'w runtime \<Rightarrow> 'w world \<Rightarrow> datetime" where
  "utc_now rt w = \<lparr>dt_wall = rt_now rt (w_ext w), dt_off = 0\<rparr>"

definition new_uuid :: "'w runtime \<Rightarrow> ('w world, uuid) prog" where
  "new_uuid rt = lift_ext (\<lambda>e. case rt_uuid rt e of (u, e') \<Rightarrow> (Inr u, e'))"

section \<open>Statements\<close>

text \<open>One round trip to the database: the connection may fail before anything happens.\<close>

definition db_op :: "'w runtime \<Rightarrow> ('w world, 'a) prog \<Rightarrow> ('w world, 'a) prog" where
  "db_op rt m = (\<lambda>w. case rt_db_fault rt w of Some e \<Rightarrow> (Inl e, w) | None \<Rightarrow> m w)"

definition db_error :: "string \<Rightarrow> exc" where
  "db_error m = OtherError ''DBAPIError'' m"

definition query :: "'w runtime \<Rightarrow> ('w world \<Rightarrow> 'a) \<Rightarrow> ('w world, 'a) prog" where
  "query rt f = db_op rt (\<lambda>w. (Inr (f w), w))"

text \<open>A statement with datetime parameters: the driver converts them to UTC first.\<close>

definition query_dt :: "'w runtime \<Rightarrow> datetime list \<Rightarrow> ('w world \<Rightarrow> 'a) \<Rightarrow> ('w world, 'a) prog" where
  "query_dt rt ds f =
     (if list_all storable ds then query rt f
      else raise (db_error ''invalid input for query argument: date value out of range''))"

definition fits :: "nat \<Rightarrow> string option \<Rightarrow> bool" where
  "fits n s = (case s of None \<Rightarrow> True | Some t \<Rightarrow> length t \<le> n)"

text \<open>
  \<^verbatim>\<open>session.get\<close>: by primary key.
\<close>

definition get_client :: "'w runtime \<Rightarrow> uuid \<Rightarrow> ('w world, client option) prog" where
  "get_client rt i = query rt (\<lambda>w. find (\<lambda>c. cl_id c = i) (w_clients w))"

definition get_appointment :: "'w runtime \<Rightarrow> uuid \<Rightarrow> ('w world, appointment option) prog" where
  "get_appointment rt i = query rt (\<lambda>w. find (\<lambda>a. ap_id a = i) (w_appointments w))"

definition get_call :: "'w runtime \<Rightarrow> uuid \<Rightarrow> ('w world, call option) prog" where
  "get_call rt i = query rt (\<lambda>w. find (\<lambda>c. ca_id c = i) (w_calls w))"

text \<open>\<^verbatim>\<open>session.add(client); session.commit()\<close>.\<close>

definition client_row_error :: "client \<Rightarrow> 'w world \<Rightarrow> exc option" where
  "client_row_error c w =
     (if 32 < length (cl_phone_number c) \<or> \<not> fits 255 (cl_full_name c) \<or> \<not> fits 255 (cl_email c)
      then Some (db_error ''value too long for type character varying'')
      else if cl_id c \<in> cl_id ` set (w_clients w) then Some (IntegrityError ''clients_pkey'')
      else if cl_phone_number c \<in> cl_phone_number ` set (w_clients w)
        then Some (IntegrityError ''ix_clients_phone_number'')
      else None)"

definition insert_client :: "'w runtime \<Rightarrow> client \<Rightarrow> ('w world, unit) prog" where
  "insert_client rt c = db_op rt (\<lambda>w. case client_row_error c w of
       Some e \<Rightarrow> (Inl e, w)
     | None \<Rightarrow> (Inr (), w\<lparr>w_clients := w_clients w @ [c]\<rparr>))"

text \<open>The row of an appointment as the table holds it, and the constraints it must meet.\<close>

definition stored :: "appointment \<Rightarrow> appointment" where
  "stored a = a\<lparr>ap_starts_at := to_utc (ap_starts_at a), ap_ends_at := to_utc (ap_ends_at a)\<rparr>"

definition appointment_row_error :: "appointment \<Rightarrow> 'w world \<Rightarrow> exc option" where
  "appointment_row_error a w =
     (if \<not> storable (ap_starts_at a) \<or> \<not> storable (ap_ends_at a)
      then Some (db_error ''invalid input for query argument: date value out of range'')
      else if \<not> fits 255 (ap_calendar_event_id a)
        then Some (db_error ''value too long for type character varying'')
      else if \<not> dt_less (ap_starts_at a) (ap_ends_at a)
        then Some (IntegrityError ''ck_appointment_ends_after_starts'')
      else if ap_client_id a \<notin> cl_id ` set (w_clients w)
        then Some (IntegrityError ''appointments_client_id_fkey'')
      else if (case ap_call_id a of None \<Rightarrow> False | Some c \<Rightarrow> c \<notin> ca_id ` set (w_calls w))
        then Some (IntegrityError ''appointments_call_id_fkey'')
      else None)"

definition insert_appointment :: "'w runtime \<Rightarrow> appointment \<Rightarrow> ('w world, unit) prog" where
  "insert_appointment rt a = db_op rt (\<lambda>w.
     if ap_id a \<in> ap_id ` set (w_appointments w) then (Inl (IntegrityError ''appointments_pkey''), w)
     else case appointment_row_error a w of
         Some e \<Rightarrow> (Inl e, w)
       | None \<Rightarrow> (Inr (), w\<lparr>w_appointments := w_appointments w @ [stored a]\<rparr>))"

text \<open>
  The flush of a changed appointment: \<^verbatim>\<open>UPDATE\<close> by primary key; a row that has vanished is an
  error of the ORM.
\<close>

definition update_appointment :: "'w runtime \<Rightarrow> appointment \<Rightarrow> ('w world, unit) prog" where
  "update_appointment rt a = db_op rt (\<lambda>w.
     if ap_id a \<notin> ap_id ` set (w_appointments w)
     then (Inl (OtherError ''StaleDataError'' ''expected to update 1 row(s); 0 were matched''), w)
     else case appointment_row_error a w of
         Some e \<Rightarrow> (Inl e, w)
       | None \<Rightarrow> (Inr (), w\<lparr>w_appointments :=
           map (\<lambda>b. if ap_id b = ap_id a then stored a else b) (w_appointments w)\<rparr>))"

text \<open>\<^verbatim>\<open>session.refresh(appointment)\<close>.\<close>

definition refresh_appointment :: "'w runtime \<Rightarrow> appointment \<Rightarrow> ('w world, appointment) prog" where
  "refresh_appointment rt a = bind_prog (get_appointment rt (ap_id a)) (\<lambda>r. case r of
       None \<Rightarrow> raise (OtherError ''InvalidRequestError'' ''Could not refresh instance'')
     | Some b \<Rightarrow> ret b)"

section \<open>The constraints as an invariant\<close>

definition db_ok :: "'w world \<Rightarrow> bool" where
  "db_ok w \<longleftrightarrow>
     distinct (map cl_id (w_clients w)) \<and> distinct (map cl_phone_number (w_clients w)) \<and>
     distinct (map ap_id (w_appointments w)) \<and>
     (\<forall>a \<in> set (w_appointments w). dt_less (ap_starts_at a) (ap_ends_at a) \<and>
        ap_client_id a \<in> cl_id ` set (w_clients w) \<and>
        ap_starts_at a = to_utc (ap_starts_at a) \<and> ap_ends_at a = to_utc (ap_ends_at a))"

text \<open>
  \<open>kept I\<close> is the relation of the steps that keep an invariant; with it, a locale about
  relations serves for invariants too.
\<close>

definition kept :: "('s \<Rightarrow> bool) \<Rightarrow> 's \<Rightarrow> 's \<Rightarrow> bool" where
  "kept I s t \<longleftrightarrow> (I s \<longrightarrow> I t)"

interpretation inv: frame "kept I" for I
  by unfold_locales (simp_all add: kept_def)

lemma stored_simps [simp]:
  "ap_id (stored a) = ap_id a" "ap_client_id (stored a) = ap_client_id a"
  "ap_status (stored a) = ap_status a" "ap_call_id (stored a) = ap_call_id a"
  "ap_calendar_event_id (stored a) = ap_calendar_event_id a" "ap_notes (stored a) = ap_notes a"
  "ap_starts_at (stored a) = to_utc (ap_starts_at a)"
  "ap_ends_at (stored a) = to_utc (ap_ends_at a)"
  by (simp_all add: stored_def)

lemma dt_less_utc [simp]: "dt_less (to_utc a) (to_utc b) = dt_less a b"
  by (simp add: dt_less_def)

lemma row_error_None:
  "appointment_row_error a w = None \<longleftrightarrow>
     storable (ap_starts_at a) \<and> storable (ap_ends_at a) \<and> fits 255 (ap_calendar_event_id a) \<and>
     dt_less (ap_starts_at a) (ap_ends_at a) \<and> ap_client_id a \<in> cl_id ` set (w_clients w) \<and>
     (case ap_call_id a of None \<Rightarrow> True | Some c \<Rightarrow> c \<in> ca_id ` set (w_calls w))"
  by (auto simp: appointment_row_error_def split: option.splits)

lemma find_fresh:
  "i \<notin> f ` set xs \<Longrightarrow> find (\<lambda>b. f b = i) (xs @ [a]) = (if f a = i then Some a else None)"
  by (induction xs) auto

lemma row_error_ext [simp]:
  "appointment_row_error a (w\<lparr>w_ext := e\<rparr>) = appointment_row_error a w"
  by (simp add: appointment_row_error_def cong: option.case_cong)

lemma db_ok_ext [simp]: "db_ok (w\<lparr>w_ext := e\<rparr>) = db_ok w"
  by (simp add: db_ok_def)

section \<open>What each statement leaves alone\<close>

text \<open>A statement that fails at the connection, or only reads, changes nothing.\<close>

lemma keeps_db_op:
  "(\<And>s. R s s) \<Longrightarrow> keeps R m \<Longrightarrow> keeps R (db_op rt m)"
  by (auto simp: keeps_def db_op_def split: option.split)

lemma query_state [simp]: "snd (query rt f w) = w"
  by (simp add: query_def db_op_def split: option.split)

lemma query_dt_state [simp]: "snd (query_dt rt ds f w) = w"
  by (simp add: query_dt_def)

lemma get_state [simp]:
  "snd (get_client rt i w) = w" "snd (get_appointment rt i w) = w" "snd (get_call rt i w) = w"
  by (simp_all add: get_client_def get_appointment_def get_call_def)

lemma refresh_state [simp]: "snd (refresh_appointment rt a w) = w"
proof -
  obtain r where "get_appointment rt (ap_id a) w = (r, w)"
    using get_state(2) [of rt "ap_id a" w] by (metis prod.collapse)
  then show ?thesis
    by (auto simp: refresh_appointment_def bind_prog_apply split: sum.split option.split)
qed

lemma lift_ext_state: "\<exists>e. snd (lift_ext m w) = w\<lparr>w_ext := e\<rparr>"
  by (auto simp: lift_ext_def split: prod.split)

lemma new_uuid_state: "\<exists>e. snd (new_uuid rt w) = w\<lparr>w_ext := e\<rparr>"
  by (simp add: new_uuid_def lift_ext_state)

lemma new_uuid_result: "new_uuid rt w = (r, w') \<Longrightarrow> \<exists>i e. r = Inr i \<and> w' = w\<lparr>w_ext := e\<rparr>"
  by (auto simp: new_uuid_def lift_ext_def split: prod.splits)

lemma insert_appointment_state:
  "snd (insert_appointment rt a w) = w \<or>
   (appointment_row_error a w = None \<and> ap_id a \<notin> ap_id ` set (w_appointments w) \<and>
    snd (insert_appointment rt a w) = w\<lparr>w_appointments := w_appointments w @ [stored a]\<rparr>)"
  by (auto simp: insert_appointment_def db_op_def split: option.splits)

lemma update_appointment_state:
  "snd (update_appointment rt a w) = w \<or>
   (appointment_row_error a w = None \<and> ap_id a \<in> ap_id ` set (w_appointments w) \<and>
    snd (update_appointment rt a w) = w\<lparr>w_appointments :=
      map (\<lambda>b. if ap_id b = ap_id a then stored a else b) (w_appointments w)\<rparr>)"
  by (auto simp: update_appointment_def db_op_def split: option.splits)

lemma insert_appointment_ok: "db_ok w \<Longrightarrow> db_ok (snd (insert_appointment rt a w))"
  using insert_appointment_state [of rt a w] by (auto simp: db_ok_def row_error_None)

lemma update_map_ids:
  "i = ap_id a \<Longrightarrow> map ap_id (map (\<lambda>b. if ap_id b = i then stored a else b) xs) = map ap_id xs"
  by (induction xs) auto

lemma update_appointment_ok: "db_ok w \<Longrightarrow> db_ok (snd (update_appointment rt a w))"
  using update_appointment_state [of rt a w]
  by (auto simp: db_ok_def row_error_None simp del: map_map simp: update_map_ids)

lemma insert_client_ok: "db_ok w \<Longrightarrow> db_ok (snd (insert_client rt c w))"
  by (auto simp: insert_client_def db_op_def client_row_error_def db_ok_def split: option.splits)

end
