(* ===== verification/Py_ISO.thy ===== *)
theory Py_ISO
  imports Py_Time
begin

text \<open>
  Text forms of datetimes: \<^verbatim>\<open>isoformat\<close>, \<^verbatim>\<open>fromisoformat\<close> and the one \<^verbatim>\<open>strftime\<close> format the
  sources use. \<open>fromisoformat_isoformat\<close>: what \<^verbatim>\<open>isoformat\<close> prints is read back exactly.
\<close>

section \<open>Printing\<close>

definition digit_char :: "int \<Rightarrow> char" where
  "digit_char n = char_of (48 + nat n)"

fun pad :: "nat \<Rightarrow> int \<Rightarrow> string" where
  "pad 0 n = []"
| "pad (Suc k) n = pad k (n div 10) @ [digit_char (n mod 10)]"

definition iso_date :: "int \<Rightarrow> string" where
  "iso_date day = (let (y, m, d) = civil day in pad 4 y @ ''-'' @ pad 2 m @ ''-'' @ pad 2 d)"

text \<open>\<^verbatim>\<open>HH:MM:SS\<close>, with \<^verbatim>\<open>.ffffff\<close> when there are microseconds.\<close>

definition iso_clock :: "int \<Rightarrow> string" where
  "iso_clock t =
     pad 2 (t div hour_us) @ '':'' @ pad 2 (t mod hour_us div minute_us) @ '':''
     @ pad 2 (t mod minute_us div second_us)
     @ (if t mod second_us = 0 then [] else ''.'' @ pad 6 (t mod second_us))"

definition iso_offset :: "int \<Rightarrow> string" where
  "iso_offset off =
     (let a = \<bar>off\<bar>
      in (if off < 0 then ''-'' else ''+'') @ pad 2 (a div hour_us) @ '':''
         @ pad 2 (a mod hour_us div minute_us)
         @ (if a mod minute_us = 0 then []
            else '':'' @ pad 2 (a mod minute_us div second_us)
              @ (if a mod second_us = 0 then [] else ''.'' @ pad 6 (a mod second_us))))"

definition isoformat :: "datetime \<Rightarrow> string" where
  "isoformat d =
     iso_date (dt_wall d div day_us) @ ''T'' @ iso_clock (dt_wall d mod day_us)
     @ iso_offset (dt_off d)"

definition weekday_names :: "string list" where
  "weekday_names = [''Monday'', ''Tuesday'', ''Wednesday'', ''Thursday'', ''Friday'', ''Saturday'',
     ''Sunday'']"

definition month_names :: "string list" where
  "month_names = [''January'', ''February'', ''March'', ''April'', ''May'', ''June'', ''July'',
     ''August'', ''September'', ''October'', ''November'', ''December'']"

text \<open>\<^verbatim>\<open>d.strftime("%A %B %d at %H:%M")\<close>; day 0 of the calendar is a Monday.\<close>

definition strftime_when :: "datetime \<Rightarrow> string" where
  "strftime_when d =
     (let day = dt_wall d div day_us; t = dt_wall d mod day_us; (y, m, dd) = civil day
      in weekday_names ! nat (day mod 7) @ '' '' @ month_names ! nat (m - 1) @ '' '' @ pad 2 dd
         @ '' at '' @ pad 2 (t div hour_us) @ '':'' @ pad 2 (t mod hour_us div minute_us))"

section \<open>Parsing\<close>

definition is_digit :: "char \<Rightarrow> bool" where
  "is_digit c = (let n = (of_char c :: nat) in 48 \<le> n \<and> n \<le> 57)"

definition digit_value :: "char \<Rightarrow> int" where
  "digit_value c = int (of_char c) - 48"

text \<open>Exactly \<open>k\<close> digits, in front of the rest.\<close>

fun read_digits :: "nat \<Rightarrow> int \<Rightarrow> string \<Rightarrow> (int \<times> string) option" where
  "read_digits 0 acc s = Some (acc, s)"
| "read_digits (Suc k) acc [] = None"
| "read_digits (Suc k) acc (c # s) =
     (if is_digit c then read_digits k (acc * 10 + digit_value c) s else None)"

definition read2 :: "string \<Rightarrow> (int \<times> string) option" where
  "read2 s = read_digits 2 0 s"

text \<open>
  A fraction of a second: at least one digit; the first six count, the rest are digits that are
  dropped.
\<close>

definition read_fraction :: "string \<Rightarrow> int option" where
  "read_fraction s =
     (if s = [] \<or> \<not> list_all is_digit s then None
      else map_option fst (read_digits 6 0 (take 6 (s @ ''000000''))))"

text \<open>\<^verbatim>\<open>[:SS[.f+]]\<close> or \<^verbatim>\<open>[SS[.f+]]\<close> after the minutes.\<close>

definition read_seconds :: "bool \<Rightarrow> string \<Rightarrow> (int \<times> int) option" where
  "read_seconds sep s =
     (if s = [] then Some (0, 0)
      else if sep \<and> hd s \<noteq> CHR '':'' then None
      else case read2 (if sep then tl s else s) of
             None \<Rightarrow> None
           | Some (ss, r) \<Rightarrow>
               (if r = [] then Some (ss, 0)
                else if hd r = CHR ''.'' \<or> hd r = CHR '',''
                     then map_option (\<lambda>us. (ss, us)) (read_fraction (tl r))
                     else None))"

text \<open>\<^verbatim>\<open>HH[:?MM[:?SS[.f+]]]\<close>: hours, minutes, seconds, microseconds, without range checks.\<close>

definition read_clock :: "string \<Rightarrow> (int \<times> int \<times> int \<times> int) option" where
  "read_clock s =
     (case read2 s of
        None \<Rightarrow> None
      | Some (hh, r) \<Rightarrow>
          (if r = [] then Some (hh, 0, 0, 0)
           else let sep = (hd r = CHR '':'')
                in case read2 (if sep then tl r else r) of
                     None \<Rightarrow> None
                   | Some (mm, r') \<Rightarrow>
                       map_option (\<lambda>(ss, us). (hh, mm, ss, us)) (read_seconds sep r')))"

definition clock_us :: "int \<times> int \<times> int \<times> int \<Rightarrow> int" where
  "clock_us = (\<lambda>(hh, mm, ss, us). hh * hour_us + mm * minute_us + ss * second_us + us)"

definition is_zone_char :: "char \<Rightarrow> bool" where
  "is_zone_char c \<longleftrightarrow> c = CHR ''+'' \<or> c = CHR ''-'' \<or> c = CHR ''Z''"

text \<open>
  The time of day and the offset: \<open>Some None\<close> for no offset (a naive datetime), \<open>None\<close> for the
  \<^verbatim>\<open>ValueError\<close>. The clock is range-checked by the constructor of \<^verbatim>\<open>datetime\<close>, the offset by that
  of \<^verbatim>\<open>timezone\<close> (strictly less than a day).
\<close>

definition read_zone :: "string \<Rightarrow> int option option" where
  "read_zone z =
     (if z = [] then Some None
      else if hd z = CHR ''Z'' then (if tl z = [] then Some (Some 0) else None)
      else case read_clock (tl z) of
             None \<Rightarrow> None
           | Some c \<Rightarrow>
               (if clock_us c < day_us
                then Some (Some (if hd z = CHR ''-'' then - clock_us c else clock_us c))
                else None))"

definition read_time :: "string \<Rightarrow> (int \<times> int option) option" where
  "read_time s =
     (case read_clock (takeWhile (\<lambda>c. \<not> is_zone_char c) s) of
        None \<Rightarrow> None
      | Some (hh, mm, ss, us) \<Rightarrow>
          (if hh \<le> 23 \<and> mm \<le> 59 \<and> ss \<le> 59
           then map_option (\<lambda>z. (clock_us (hh, mm, ss, us), z))
                  (read_zone (dropWhile (\<lambda>c. \<not> is_zone_char c) s))
           else None))"

text \<open>The ISO week calendar: the Monday of week 1, and the day of a week date.\<close>

definition week1_monday :: "int \<Rightarrow> int" where
  "week1_monday y =
     (let first = day_number y 1 1; wd = first mod 7
      in if wd > 3 then first - wd + 7 else first - wd)"

definition week_date :: "int \<Rightarrow> int \<Rightarrow> int \<Rightarrow> int option" where
  "week_date y w d =
     (let wd = day_number y 1 1 mod 7; n = week1_monday y + (w - 1) * 7 + (d - 1)
      in if 1 \<le> y \<and> y \<le> 9999 \<and> 1 \<le> w \<and> (w \<le> 52 \<or> w = 53 \<and> (wd = 3 \<or> wd = 2 \<and> is_leap y))
           \<and> 1 \<le> d \<and> d \<le> 7 \<and> 0 \<le> n \<and> n < 3652059
         then Some n else None)"

text \<open>
  The date part, as a day number: \<^verbatim>\<open>YYYY-MM-DD\<close>, \<^verbatim>\<open>YYYYMMDD\<close>, \<^verbatim>\<open>YYYY-Www[-D]\<close> or \<^verbatim>\<open>YYYYWww[D]\<close>,
  and nothing after it.
\<close>

definition read_date :: "string \<Rightarrow> int option" where
  "read_date s =
     (case read_digits 4 0 s of
        None \<Rightarrow> None
      | Some (y, r) \<Rightarrow>
          (let sep = (r \<noteq> [] \<and> hd r = CHR ''-''); r = (if sep then tl r else r)
           in if r \<noteq> [] \<and> hd r = CHR ''W'' then
                (case read2 (tl r) of
                   None \<Rightarrow> None
                 | Some (w, r) \<Rightarrow>
                     (if r = [] then week_date y w 1
                      else if sep \<and> hd r \<noteq> CHR ''-'' then None
                      else case read_digits 1 0 (if sep then tl r else r) of
                             Some (d, []) \<Rightarrow> week_date y w d
                           | _ \<Rightarrow> None))
              else
                (case read2 r of
                   None \<Rightarrow> None
                 | Some (m, r) \<Rightarrow>
                     (if sep \<and> (r = [] \<or> hd r \<noteq> CHR ''-'') then None
                      else case read2 (if sep then tl r else r) of
                             Some (d, []) \<Rightarrow>
                               (if valid_date y m d then Some (day_number y m d) else None)
                           | _ \<Rightarrow> None))))"

text \<open>\<^verbatim>\<open>_find_isoformat_datetime_separator\<close>: where the date part ends.\<close>

definition separator_index :: "string \<Rightarrow> nat option" where
  "separator_index s =
     (let n = length s; at = (\<lambda>i c. i < n \<and> s ! i = c); dig = (\<lambda>i. i < n \<and> is_digit (s ! i))
      in if n < 7 then None
         else if n = 7 then Some 7
         else if at 4 CHR ''-'' then
           (if at 5 CHR ''W'' then
              (if at 8 CHR ''-'' then
                 (if n = 9 then None else if dig 10 then Some 8 else Some 10)
               else Some 8)
            else Some 10)
         else if at 4 CHR ''W'' then
           (let idx = 7 + length (takeWhile is_digit (drop 7 s))
            in if idx < 9 then Some idx else if even idx then Some 7 else Some 8)
         else Some 8)"

text \<open>
  \<^verbatim>\<open>datetime.fromisoformat\<close>: the wall clock time and the offset, \<open>None\<close> for the \<^verbatim>\<open>ValueError\<close>.
\<close>

definition fromisoformat :: "string \<Rightarrow> (int \<times> int option) option" where
  "fromisoformat s =
     (case separator_index s of
        None \<Rightarrow> None
      | Some i \<Rightarrow>
          (case read_date (take i s) of
             None \<Rightarrow> None
           | Some day \<Rightarrow>
               (if length s \<le> i then Some (day * day_us, None)
                else map_option (\<lambda>(t, z). (day * day_us + t, z)) (read_time (drop (i + 1) s)))))"


section \<open>What is printed is read back\<close>

lemma digit_char_facts:
  assumes "0 \<le> n" "n \<le> 9"
  shows "is_digit (digit_char n)" "digit_value (digit_char n) = n"
proof -
  have "(of_char (digit_char n) :: nat) = 48 + nat n" using assms by (simp add: digit_char_def)
  then show "is_digit (digit_char n)" "digit_value (digit_char n) = n"
    using assms by (simp_all add: is_digit_def digit_value_def)
qed

lemma length_pad [simp]: "length (pad k n) = k"
  by (induction k arbitrary: n) simp_all

lemma pad_digits: "list_all is_digit (pad k n)"
  by (induction k arbitrary: n) (simp_all add: digit_char_facts)

lemma read_digits_append:
  "list_all is_digit s \<Longrightarrow> read_digits (length s + k) acc (s @ t) =
     read_digits k (foldl (\<lambda>a c. a * 10 + digit_value c) acc s) t"
  by (induction s arbitrary: acc) simp_all

lemma foldl_pad:
  "foldl (\<lambda>a c. a * 10 + digit_value c) acc (pad k n) = acc * 10 ^ k + n mod 10 ^ k"
proof (induction k arbitrary: n)
  case 0
  then show ?case by simp
next
  case (Suc k)
  have "n mod (10 * 10 ^ k) = 10 * (n div 10 mod 10 ^ k) + n mod 10"
    by (rule zmod_zmult2_eq) simp
  then show ?case by (simp add: Suc.IH digit_char_facts distrib_right)
qed

lemma read_pad:
  assumes "0 \<le> n" "n < 10 ^ k"
  shows "read_digits k 0 (pad k n @ s) = Some (n, s)"
  using read_digits_append [OF pad_digits, of k n 0 0 s] assms by (simp add: foldl_pad)

lemma read2_pad [simp]: "0 \<le> n \<Longrightarrow> n < 100 \<Longrightarrow> read2 (pad 2 n @ s) = Some (n, s)"
  by (simp add: read2_def read_pad)

lemma read2_pad_end [simp]: "0 \<le> n \<Longrightarrow> n < 100 \<Longrightarrow> read2 (pad 2 n) = Some (n, [])"
  using read2_pad [of n "[]"] by simp

lemma read_fraction_pad: "0 \<le> n \<Longrightarrow> n < 1000000 \<Longrightarrow> read_fraction (pad 6 n) = Some n"
  using read_pad [of n 6 "[]"] length_pad [of 6 n] pad_digits [of 6 n]
  by (auto simp: read_fraction_def simp del: length_pad)

text \<open>The remainders of a time of day, put together again.\<close>

lemma clock_parts:
  fixes t :: int
  assumes "0 \<le> t"
  shows "t div hour_us * hour_us + t mod hour_us div minute_us * minute_us
      + t mod minute_us div second_us * second_us + t mod second_us = t"
    and "0 \<le> t mod hour_us div minute_us" "t mod hour_us div minute_us < 60"
    and "0 \<le> t mod minute_us div second_us" "t mod minute_us div second_us < 60"
    and "0 \<le> t mod second_us" "t mod second_us < 1000000"
    and "0 \<le> t div hour_us"
proof -
  have "t mod hour_us mod minute_us = t mod minute_us"
    by (rule mod_mod_cancel) (simp add: unit_defs)
  moreover have "t mod minute_us mod second_us = t mod second_us"
    by (rule mod_mod_cancel) (simp add: unit_defs)
  ultimately show "t div hour_us * hour_us + t mod hour_us div minute_us * minute_us
      + t mod minute_us div second_us * second_us + t mod second_us = t"
    using div_mod_facts(1) [of t hour_us] div_mod_facts(1) [of "t mod hour_us" minute_us]
      div_mod_facts(1) [of "t mod minute_us" second_us] by linarith
  have "0 \<le> t mod hour_us" "t mod hour_us < hour_us" "0 \<le> t mod minute_us"
    "t mod minute_us < minute_us" by (simp_all add: unit_defs)
  then show "0 \<le> t mod hour_us div minute_us" "t mod hour_us div minute_us < 60"
    "0 \<le> t mod minute_us div second_us" "t mod minute_us div second_us < 60"
    by (simp_all add: unit_defs div_less_iff_less_mult flip: pos_imp_zdiv_nonneg_iff)
  show "0 \<le> t mod second_us" "t mod second_us < 1000000" "0 \<le> t div hour_us"
    using assms by (simp_all add: unit_defs)
qed


lemma no_digit_head: "is_digit c \<Longrightarrow> c \<noteq> CHR '':'' \<and> c \<noteq> CHR ''.'' \<and> c \<noteq> CHR '','' \<and>
    c \<noteq> CHR ''-'' \<and> c \<noteq> CHR ''+'' \<and> c \<noteq> CHR ''Z'' \<and> c \<noteq> CHR ''W'' \<and> c \<noteq> CHR ''T''"
  by (auto simp: is_digit_def)

lemma read_clock_hms:
  assumes "0 \<le> h" "h < 100" "0 \<le> m" "m < 100"
  shows "read_clock (pad 2 h @ '':'' @ pad 2 m @ s) = map_option (\<lambda>(ss, us). (h, m, ss, us)) (read_seconds True s)"
  using assms by (simp add: read_clock_def)

lemma read_seconds_iso:
  assumes "0 \<le> s" "s < 100" "0 \<le> us" "us < 1000000"
  shows "read_seconds True ('':'' @ pad 2 s @ (if us = 0 then [] else ''.'' @ pad 6 us)) = Some (s, us)"
  using assms by (simp add: read_seconds_def read_fraction_pad)

lemma read_clock_iso:
  assumes "0 \<le> t" "t < day_us"
  shows "\<exists>h m s us. read_clock (iso_clock t) = Some (h, m, s, us) \<and> clock_us (h, m, s, us) = t \<and>
    h \<le> 23 \<and> m \<le> 59 \<and> s \<le> 59"
proof -
  note p = clock_parts [OF assms(1)]
  have "t div hour_us < 24" using assms by (simp add: unit_defs div_less_iff_less_mult)
  then have "read_clock (iso_clock t) = Some (t div hour_us, t mod hour_us div minute_us,
      t mod minute_us div second_us, t mod second_us)"
    using p(2-8) read_seconds_iso [of "t mod minute_us div second_us" "t mod second_us"]
    by (simp add: iso_clock_def read_clock_hms [simplified])
  with p \<open>t div hour_us < 24\<close> show ?thesis by (auto simp: clock_us_def)
qed

lemma read_zone_iso:
  assumes "\<bar>off\<bar> < day_us"
  shows "read_zone (iso_offset off) = Some (Some off)"
proof -
  define a where "a = \<bar>off\<bar>"
  have a: "0 \<le> a" "a < day_us" using assms by (simp_all add: a_def)
  note p = clock_parts [OF a(1)]
  have h: "a div hour_us < 24" using a by (simp add: unit_defs div_less_iff_less_mult)
  have sub: "a mod minute_us mod second_us = a mod second_us"
    by (rule mod_mod_cancel) (simp add: unit_defs)
  have rest: "iso_offset off = (if off < 0 then CHR ''-'' else CHR ''+'') #
      pad 2 (a div hour_us) @ '':'' @ pad 2 (a mod hour_us div minute_us)
      @ (if a mod minute_us = 0 then []
         else '':'' @ pad 2 (a mod minute_us div second_us)
           @ (if a mod second_us = 0 then [] else ''.'' @ pad 6 (a mod second_us)))"
    by (simp add: iso_offset_def a_def Let_def)
  have "read_clock (tl (iso_offset off)) = Some (a div hour_us, a mod hour_us div minute_us,
      a mod minute_us div second_us, a mod second_us)"
    using p(2-8) h sub read_seconds_iso [of "a mod minute_us div second_us" "a mod second_us"]
    by (auto simp: rest read_clock_hms [simplified] read_seconds_def)
  then show ?thesis using p(1) a
    by (simp add: read_zone_def rest clock_us_def a_def)
qed

lemma iso_clock_chars: "list_all (\<lambda>c. \<not> is_zone_char c) (iso_clock t)"
proof -
  have "list_all (\<lambda>c. \<not> is_zone_char c) (pad k n)" for k n
    using pad_digits [of k n] by (auto simp: list_all_iff is_zone_char_def dest: no_digit_head)
  moreover have "\<not> is_zone_char CHR '':''" "\<not> is_zone_char CHR ''.''" by (simp_all add: is_zone_char_def)
  ultimately show ?thesis by (simp add: iso_clock_def)
qed

lemma read_time_zone:
  assumes "0 \<le> t" "t < day_us" "z \<noteq> []" "is_zone_char (hd z)" "read_zone z = Some off"
  shows "read_time (iso_clock t @ z) = Some (t, off)"
proof -
  obtain c r where z: "z = c # r" "is_zone_char c" using assms(3,4) by (cases z) auto
  have "takeWhile (\<lambda>c. \<not> is_zone_char c) (iso_clock t @ z) = iso_clock t"
    "dropWhile (\<lambda>c. \<not> is_zone_char c) (iso_clock t @ z) = z"
    using iso_clock_chars [of t] z by (simp_all add: list_all_iff takeWhile_append2 dropWhile_append2)
  with read_clock_iso [OF assms(1,2)] assms(5) show ?thesis by (auto simp: read_time_def)
qed

lemma iso_offset_head: "iso_offset off \<noteq> [] \<and> is_zone_char (hd (iso_offset off))"
  by (simp add: iso_offset_def is_zone_char_def Let_def)

lemma read_date_iso:
  assumes "0 \<le> n" "n < 3652059"
  shows "read_date (iso_date n) = Some n"
proof -
  obtain y m d where c: "civil n = (y, m, d)" by (metis prod_cases3)
  from civil_day_number [OF assms c] have v: "valid_date y m d" "day_number y m d = n" by auto
  have "days_in_month y m \<le> 31" using v(1)
    by (auto simp: days_in_month_def valid_date_def month_lengths_facts(3) [rule_format, OF nth_mem]
      month_lengths_facts(2))
  with v have b: "0 \<le> y" "y < 10 ^ 4" "0 \<le> m" "m < 100" "0 \<le> d" "d < 100"
    by (auto simp: valid_date_def)
  obtain x xs where x: "pad 2 m @ CHR ''-'' # pad 2 d = x # xs" "is_digit x"
    using pad_digits [of 2 m] by (cases "pad 2 m") (auto simp: length_0_conv [symmetric])
  with no_digit_head have "x \<noteq> CHR ''W''" by blast
  have "read2 (x # xs) = Some (m, CHR ''-'' # pad 2 d)" using b x(1) [symmetric] by simp
  with x \<open>x \<noteq> CHR ''W''\<close> b v show ?thesis
    by (simp add: read_date_def iso_date_def c read_pad)
qed

lemma separator_index_iso: "separator_index (iso_date n @ CHR ''T'' # s) = Some 10"
proof -
  obtain y m d where c: "civil n = (y, m, d)" by (metis prod_cases3)
  have "(pad 2 m @ CHR ''-'' # pad 2 d @ CHR ''T'' # s) ! 0 \<noteq> CHR ''W''"
    using pad_digits [of 2 m] no_digit_head length_pad [of 2 m]
    by (cases "pad 2 m") auto
  then show ?thesis by (simp add: separator_index_def iso_date_def c nth_append Let_def)
qed

lemma length_iso_date [simp]: "length (iso_date n) = 10"
  by (simp add: iso_date_def split: prod.split)

text \<open>A wall clock time in the extended format, followed by any offset that is read.\<close>

lemma fromisoformat_zone:
  assumes "wall_ok w" "z \<noteq> []" "is_zone_char (hd z)" "read_zone z = Some off"
  shows "fromisoformat (iso_date (w div day_us) @ ''T'' @ iso_clock (w mod day_us) @ z) = Some (w, off)"
proof -
  let ?n = "w div day_us" and ?t = "w mod day_us"
  have w: "0 \<le> w" "w < 3652059 * day_us" using assms(1) by (simp_all add: wall_ok_def max_wall_def)
  have n: "0 \<le> ?n" "?n < 3652059" using w
    by (simp_all add: unit_defs div_less_iff_less_mult pos_imp_zdiv_nonneg_iff)
  have t: "0 \<le> ?t" "?t < day_us" by (simp_all add: unit_defs)
  have "?n * day_us + ?t = w" by simp
  then show ?thesis
    using read_date_iso [OF n] read_time_zone [OF t assms(2-4)] separator_index_iso
    by (simp add: fromisoformat_def)
qed

lemma fromisoformat_isoformat:
  assumes "dt_ok d"
  shows "fromisoformat (isoformat d) = Some (dt_wall d, Some (dt_off d))"
proof -
  have "wall_ok (dt_wall d)" "\<bar>dt_off d\<bar> < day_us" using assms by (simp_all add: dt_ok_def)
  then show ?thesis unfolding isoformat_def
    using iso_offset_head by (intro fromisoformat_zone read_zone_iso) simp_all
qed

end
