(* ===== verification/Booking_Service.thy ===== *)
theory Booking_Service
  imports Booking_Slots DB Py_ISO
begin

text \<open>
  \<^verbatim>\<open>BookingService\<close> of \<^verbatim>\<open>openvoice/booking/service.py\<close>: booking, listing, cancelling and
  rescheduling, as programs over the world of the database and the external services. The
  calendar and the messaging providers act on the external part only.
\<close>

definition active :: "appointment \<Rightarrow> bool" where
  "active a \<longleftrightarrow> ap_status a \<noteq> CANCELLED"

text \<open>The \<^verbatim>\<open>where\<close> clause of \<^verbatim>\<open>_find_overlapping_appointment\<close>.\<close>

definition overlaps_window :: "uuid \<Rightarrow> datetime \<Rightarrow> datetime \<Rightarrow> appointment \<Rightarrow> bool" where
  "overlaps_window cid start stop a \<longleftrightarrow>
     ap_client_id a = cid \<and> active a \<and> dt_less (ap_starts_at a) stop \<and> dt_less start (ap_ends_at a)"

definition find_overlapping_appointment ::
  "'w runtime \<Rightarrow> uuid \<Rightarrow> datetime \<Rightarrow> datetime \<Rightarrow> ('w world, appointment option) prog" where
  "find_overlapping_appointment rt cid start stop =
     query_dt rt [stop, start] (\<lambda>w. find (overlaps_window cid start stop) (w_appointments w))"

text \<open>\<^verbatim>\<open>except NotificationError\<close>: logged, anything else goes on.\<close>

definition notify :: "('w world, unit) prog \<Rightarrow> ('w world, unit) prog" where
  "notify m = try_prog m (\<lambda>e. case e of NotificationError _ \<Rightarrow> ret () | _ \<Rightarrow> raise e)"

definition confirmation_message :: "appointment \<Rightarrow> string" where
  "confirmation_message a = ''Your appointment is confirmed for '' @ strftime_when (ap_starts_at a) @ ''.''"

definition send_confirmation ::
  "'w booking_service \<Rightarrow> client \<Rightarrow> appointment \<Rightarrow> ('w world, unit) prog" where
  "send_confirmation bs client a =
     (let message = confirmation_message a
      in bind_prog
        (case bs_sms bs of
           Some send_sms \<Rightarrow>
             (if cl_phone_number client \<noteq> []
              then notify (lift_ext (send_sms (cl_phone_number client) message)) else ret ())
         | None \<Rightarrow> ret ())
        (\<lambda>_. case bs_email bs of
           Some send_email \<Rightarrow>
             (case cl_email client of
                Some address \<Rightarrow>
                  (if address \<noteq> []
                   then notify (lift_ext (send_email address ''Appointment confirmed'' message))
                   else ret ())
              | None \<Rightarrow> ret ())
         | None \<Rightarrow> ret ()))"

definition event_summary :: "client \<Rightarrow> string" where
  "event_summary client = ''Appointment: '' @
     (case cl_full_name client of
        Some name \<Rightarrow> (if name \<noteq> [] then name else cl_phone_number client)
      | None \<Rightarrow> cl_phone_number client)"

definition overlap_message :: "appointment \<Rightarrow> string" where
  "overlap_message a = ''This client already has an appointment from '' @ isoformat (ap_starts_at a)
     @ '' to '' @ isoformat (ap_ends_at a) @ '' that overlaps the requested time.''"

definition new_appointment ::
  "uuid \<Rightarrow> client \<Rightarrow> datetime \<Rightarrow> datetime \<Rightarrow> uuid option \<Rightarrow> string option \<Rightarrow> calendar_event
   \<Rightarrow> appointment" where
  "new_appointment i client start stop call_id notes event =
     \<lparr>ap_id = i, ap_client_id = cl_id client, ap_call_id = call_id, ap_starts_at = start,
      ap_ends_at = stop, ap_status = CONFIRMED, ap_calendar_event_id = Some (ev_event_id event),
      ap_notes = notes\<rparr>"

text \<open>\<^verbatim>\<open>add\<close>, \<^verbatim>\<open>commit\<close>, \<^verbatim>\<open>refresh\<close> and the confirmation.\<close>

definition save_booking ::
  "'w runtime \<Rightarrow> 'w booking_service \<Rightarrow> client \<Rightarrow> appointment \<Rightarrow> ('w world, appointment) prog" where
  "save_booking rt bs client a =
     bind_prog (insert_appointment rt a) (\<lambda>_.
     bind_prog (refresh_appointment rt a) (\<lambda>a'.
     bind_prog (send_confirmation bs client a') (\<lambda>_. ret a')))"

text \<open>The event first, then the row that refers to it.\<close>

definition create_booking ::
  "'w runtime \<Rightarrow> 'w booking_service \<Rightarrow> client \<Rightarrow> datetime \<Rightarrow> datetime \<Rightarrow> uuid option
   \<Rightarrow> string option \<Rightarrow> ('w world, appointment) prog" where
  "create_booking rt bs client start stop call_id notes =
     bind_prog (lift_ext (create_event (bs_calendar bs) start stop (event_summary client) None))
       (\<lambda>event. bind_prog (new_uuid rt) (\<lambda>i.
          save_booking rt bs client (new_appointment i client start stop call_id notes event)))"

definition book_appointment ::
  "'w runtime \<Rightarrow> 'w booking_service \<Rightarrow> client \<Rightarrow> datetime \<Rightarrow> datetime \<Rightarrow> uuid option
   \<Rightarrow> string option \<Rightarrow> ('w world, appointment) prog" where
  "book_appointment rt bs client start stop call_id notes =
     bind_prog (find_overlapping_appointment rt (cl_id client) start stop) (\<lambda>existing.
       case existing of
         Some a \<Rightarrow>
           (if dt_eq (ap_starts_at a) start \<and> dt_eq (ap_ends_at a) stop then ret a
            else raise (BookingError (overlap_message a)))
       | None \<Rightarrow> create_booking rt bs client start stop call_id notes)"

definition list_upcoming_appointments ::
  "'w runtime \<Rightarrow> uuid \<Rightarrow> datetime option \<Rightarrow> ('w world, appointment list) prog" where
  "list_upcoming_appointments rt cid now = (\<lambda>w.
     let reference = (case now of Some d \<Rightarrow> d | None \<Rightarrow> utc_now rt w)
     in query_dt rt [reference] (\<lambda>w.
          sort_key (dt_instant \<circ> ap_starts_at)
            (filter (\<lambda>a. ap_client_id a = cid \<and> dt_le reference (ap_starts_at a) \<and> active a)
              (w_appointments w))) w)"

definition cancel_appointment ::
  "'w runtime \<Rightarrow> 'w booking_service \<Rightarrow> appointment \<Rightarrow> ('w world, unit) prog" where
  "cancel_appointment rt bs a =
     bind_prog
       (case ap_calendar_event_id a of
          Some e \<Rightarrow> lift_ext (cancel_event (bs_calendar bs) e)
        | None \<Rightarrow> ret ())
       (\<lambda>_. update_appointment rt (a\<lparr>ap_status := CANCELLED\<rparr>))"

definition moved :: "appointment \<Rightarrow> datetime \<Rightarrow> datetime \<Rightarrow> appointment" where
  "moved a new_start new_end =
     a\<lparr>ap_starts_at := new_start, ap_ends_at := new_end, ap_status := RESCHEDULED\<rparr>"

definition reschedule_appointment ::
  "'w runtime \<Rightarrow> 'w booking_service \<Rightarrow> appointment \<Rightarrow> datetime \<Rightarrow> datetime
   \<Rightarrow> ('w world, appointment) prog" where
  "reschedule_appointment rt bs a new_start new_end =
     (case ap_calendar_event_id a of
        None \<Rightarrow> raise (BookingError ''Cannot reschedule an appointment with no calendar event'')
      | Some e \<Rightarrow>
          bind_prog (lift_ext (reschedule_event (bs_calendar bs) e new_start new_end)) (\<lambda>_.
            bind_prog (update_appointment rt (moved a new_start new_end))
              (\<lambda>_. refresh_appointment rt (moved a new_start new_end))))"

section \<open>What the operations do to the tables\<close>

text \<open>
  \<open>tables_same\<close>: an operation that acts on the external services only.
\<close>

definition tables_same :: "'w world \<Rightarrow> 'w world \<Rightarrow> bool" where
  "tables_same s t \<longleftrightarrow> (\<exists>e. t = s\<lparr>w_ext := e\<rparr>)"

lemma tables_same_refl [simp]: "tables_same s s"
  by (simp add: tables_same_def) (metis world.surjective world.update_convs(5))

interpretation ext_only: frame tables_same
proof
  fix s t u :: "'a world"
  show "tables_same s s" by simp
  assume "tables_same s t" "tables_same t u"
  then show "tables_same s u" by (auto simp: tables_same_def)
qed

lemma keeps_lift_ext [keeps_intros]: "keeps tables_same (lift_ext m)"
  using lift_ext_state by (auto simp: keeps_def tables_same_def)

lemma keeps_new_uuid [keeps_intros]: "keeps tables_same (new_uuid rt)"
  using new_uuid_state by (auto simp: keeps_def tables_same_def)

lemma keeps_notify: "keeps tables_same (notify (lift_ext m))"
  by (auto simp: notify_def intro!: keeps_intros split: exc.split)

lemma keeps_send_confirmation: "keeps tables_same (send_confirmation bs client a)"
  by (auto simp: send_confirmation_def Let_def intro!: keeps_intros keeps_notify
      split: option.split)

lemma tables_same_fields:
  "tables_same s t \<Longrightarrow> w_appointments t = w_appointments s"
  "tables_same s t \<Longrightarrow> w_clients t = w_clients s"
  "tables_same s t \<Longrightarrow> w_calls t = w_calls s"
  "tables_same s t \<Longrightarrow> w_transcripts t = w_transcripts s"
  by (auto simp: tables_same_def)

lemma overlapping_state [simp]: "snd (find_overlapping_appointment rt cid start stop w) = w"
  by (simp add: find_overlapping_appointment_def)

text \<open>
  The three things that booking can do to the tables: nothing, or add one confirmed row for a
  window in which the client has no active appointment.
\<close>

lemma find_overlapping_None:
  "find_overlapping_appointment rt cid start stop w = (Inr None, w') \<Longrightarrow>
   \<forall>a \<in> set (w_appointments w). \<not> overlaps_window cid start stop a"
  by (auto simp: find_overlapping_appointment_def query_dt_def query_def db_op_def find_None_iff
      split: if_splits option.splits)

lemma keeps_refresh [keeps_intros]: "keeps tables_same (refresh_appointment rt a)"
  by (simp add: keeps_def)

lemma keeps_result: "keeps R m \<Longrightarrow> m s = (r, t) \<Longrightarrow> R s t"
  by (metis keepsD snd_conv)

definition booked :: "client \<Rightarrow> datetime \<Rightarrow> datetime \<Rightarrow> uuid option \<Rightarrow> string option
    \<Rightarrow> 'w world \<Rightarrow> 'w world \<Rightarrow> bool" where
  "booked client start stop call_id notes w w' \<longleftrightarrow>
     (\<exists>i event t. tables_same w t \<and>
       (\<forall>a \<in> set (w_appointments w). \<not> overlaps_window (cl_id client) start stop a) \<and>
       appointment_row_error (new_appointment i client start stop call_id notes event) t = None \<and>
       i \<notin> ap_id ` set (w_appointments t) \<and>
       tables_same (t\<lparr>w_appointments := w_appointments t @
           [stored (new_appointment i client start stop call_id notes event)]\<rparr>) w')"

lemma bookedI:
  assumes "tables_same w t"
    and "\<forall>a \<in> set (w_appointments w). \<not> overlaps_window (cl_id client) start stop a"
    and "appointment_row_error (new_appointment i client start stop call_id notes event) t = None"
    and "i \<notin> ap_id ` set (w_appointments t)"
    and "tables_same (t\<lparr>w_appointments := w_appointments t @
           [stored (new_appointment i client start stop call_id notes event)]\<rparr>) w'"
  shows "booked client start stop call_id notes w w'"
  using assms unfolding booked_def by blast

lemma save_effect:
  "tables_same t (snd (save_booking rt bs client a t)) \<or>
   appointment_row_error a t = None \<and> ap_id a \<notin> ap_id ` set (w_appointments t) \<and>
   tables_same (t\<lparr>w_appointments := w_appointments t @ [stored a]\<rparr>)
     (snd (save_booking rt bs client a t))"
  unfolding save_booking_def
proof (rule snd_bindI)
  let ?tail = "bind_prog (refresh_appointment rt a) (\<lambda>a'.
      bind_prog (send_confirmation bs client a') (\<lambda>_. ret a'))"
  have tail: "keeps tables_same ?tail" by (intro keeps_intros keeps_send_confirmation)
  fix x u
  assume "insert_appointment rt a t = (Inr x, u)"
  then have "appointment_row_error a t = None" "ap_id a \<notin> ap_id ` set (w_appointments t)"
    "u = t\<lparr>w_appointments := w_appointments t @ [stored a]\<rparr>"
    by (auto simp: insert_appointment_def db_op_def split: option.splits if_splits)
  with keepsD [OF tail, of u] show "tables_same t (snd (?tail u)) \<or>
     appointment_row_error a t = None \<and> ap_id a \<notin> ap_id ` set (w_appointments t) \<and>
     tables_same (t\<lparr>w_appointments := w_appointments t @ [stored a]\<rparr>) (snd (?tail u))" by blast
next
  fix e u
  assume "insert_appointment rt a t = (Inl e, u)"
  then have "u = t" by (auto simp: insert_appointment_def db_op_def split: option.splits if_splits)
  then show "tables_same t u \<or> appointment_row_error a t = None \<and>
     ap_id a \<notin> ap_id ` set (w_appointments t) \<and>
     tables_same (t\<lparr>w_appointments := w_appointments t @ [stored a]\<rparr>) u" by simp
qed

lemma create_effect:
  assumes no: "\<forall>a \<in> set (w_appointments w). \<not> overlaps_window (cl_id client) start stop a"
  shows "tables_same w (snd (create_booking rt bs client start stop call_id notes w)) \<or>
    booked client start stop call_id notes w
      (snd (create_booking rt bs client start stop call_id notes w))"
  unfolding create_booking_def
proof (rule snd_bindI)
  fix event t
  assume "lift_ext (create_event (bs_calendar bs) start stop (event_summary client) None) w
    = (Inr event, t)"
  then have t: "tables_same w t" by (rule keeps_result [OF keeps_lift_ext])
  let ?save = "\<lambda>i. save_booking rt bs client (new_appointment i client start stop call_id notes event)"
  show "tables_same w (snd (bind_prog (new_uuid rt) ?save t)) \<or>
    booked client start stop call_id notes w (snd (bind_prog (new_uuid rt) ?save t))"
  proof (rule snd_bindI)
    fix i u
    assume "new_uuid rt t = (Inr i, u)"
    with t have u: "tables_same w u"
      using keeps_result [OF keeps_new_uuid] ext_only.frame_trans by metis
    let ?a = "new_appointment i client start stop call_id notes event"
    have i: "ap_id ?a = i" by (simp add: new_appointment_def)
    from save_effect [of u rt bs client ?a]
    show "tables_same w (snd (?save i u)) \<or>
      booked client start stop call_id notes w (snd (?save i u))"
    proof
      assume "tables_same u (snd (?save i u))"
      with u show ?thesis by (blast intro: ext_only.frame_trans)
    next
      assume "appointment_row_error ?a u = None \<and> ap_id ?a \<notin> ap_id ` set (w_appointments u) \<and>
        tables_same (u\<lparr>w_appointments := w_appointments u @ [stored ?a]\<rparr>) (snd (?save i u))"
      then show ?thesis
        using bookedI [OF u no, of i call_id "notes" event "snd (?save i u)"] i by simp
    qed
  qed (use t keeps_result [OF keeps_new_uuid] ext_only.frame_trans in metis)
qed (simp add: keeps_result [OF keeps_lift_ext])

lemma book_effect:
  "tables_same w (snd (book_appointment rt bs client start stop call_id notes w)) \<or>
   booked client start stop call_id notes w
     (snd (book_appointment rt bs client start stop call_id notes w))"
proof -
  obtain r where find: "find_overlapping_appointment rt (cl_id client) start stop w = (r, w)"
    using overlapping_state by (metis prod.collapse)
  show ?thesis
  proof (cases "r = Inr None")
    case True
    with find have "\<forall>a \<in> set (w_appointments w). \<not> overlaps_window (cl_id client) start stop a"
      using find_overlapping_None by blast
    from create_effect [OF this] find True show ?thesis
      by (simp add: book_appointment_def bind_prog_apply)
  next
    case False
    then have "snd (book_appointment rt bs client start stop call_id notes w) = w"
      using find by (auto simp: book_appointment_def bind_prog_apply split: sum.split option.split)
    then show ?thesis by simp
  qed
qed


text \<open>The effect of a flush of one changed row.\<close>

definition row_updated :: "appointment \<Rightarrow> 'w world \<Rightarrow> 'w world \<Rightarrow> bool" where
  "row_updated a w w' \<longleftrightarrow> (\<exists>t. tables_same w t \<and> appointment_row_error a t = None \<and>
     ap_id a \<in> ap_id ` set (w_appointments t) \<and>
     w' = t\<lparr>w_appointments :=
       map (\<lambda>b. if ap_id b = ap_id a then stored a else b) (w_appointments t)\<rparr>)"

lemma update_effect:
  assumes "tables_same w t"
  shows "tables_same w (snd (update_appointment rt a t)) \<or>
    row_updated a w (snd (update_appointment rt a t))"
  using update_appointment_state [of rt a t]
proof
  assume "snd (update_appointment rt a t) = t"
  with assms show ?thesis by simp
next
  assume "appointment_row_error a t = None \<and> ap_id a \<in> ap_id ` set (w_appointments t) \<and>
    snd (update_appointment rt a t) = t\<lparr>w_appointments :=
      map (\<lambda>b. if ap_id b = ap_id a then stored a else b) (w_appointments t)\<rparr>"
  with assms show ?thesis unfolding row_updated_def by blast
qed

lemma cancel_effect:
  "tables_same w (snd (cancel_appointment rt bs a w)) \<or>
   row_updated (a\<lparr>ap_status := CANCELLED\<rparr>) w (snd (cancel_appointment rt bs a w))"
  unfolding cancel_appointment_def
proof (rule snd_bindI)
  let ?m = "case ap_calendar_event_id a of Some e \<Rightarrow> lift_ext (cancel_event (bs_calendar bs) e)
    | None \<Rightarrow> ret ()"
  have m: "keeps tables_same ?m" by (auto intro: keeps_intros split: option.split)
  {
    fix e t
    assume "?m w = (Inl e, t)"
    then show "tables_same w t \<or> row_updated (a\<lparr>ap_status := CANCELLED\<rparr>) w t"
      by (simp add: keeps_result [OF m])
  next
    fix x t
    assume "?m w = (Inr x, t)"
    then show "tables_same w (snd (update_appointment rt (a\<lparr>ap_status := CANCELLED\<rparr>) t)) \<or>
      row_updated (a\<lparr>ap_status := CANCELLED\<rparr>) w (snd (update_appointment rt (a\<lparr>ap_status := CANCELLED\<rparr>) t))"
      by (intro update_effect keeps_result [OF m])
  }
qed

lemma reschedule_effect:
  "tables_same w (snd (reschedule_appointment rt bs a start stop w)) \<or>
   row_updated (moved a start stop) w (snd (reschedule_appointment rt bs a start stop w))"
proof (cases "ap_calendar_event_id a")
  case None
  then show ?thesis by (simp add: reschedule_appointment_def)
next
  case (Some e)
  let ?a = "moved a start stop"
  show ?thesis
    unfolding reschedule_appointment_def Some option.case
  proof (rule snd_bindI)
    fix ev t
    assume "lift_ext (reschedule_event (bs_calendar bs) e start stop) w = (Inr ev, t)"
    then have t: "tables_same w t" by (rule keeps_result [OF keeps_lift_ext])
    have "snd (bind_prog (update_appointment rt ?a) (\<lambda>_. refresh_appointment rt ?a) t) =
        snd (update_appointment rt ?a t)"
      by (rule snd_bindI [where Q = "\<lambda>u. u = snd (update_appointment rt ?a t)"]) simp_all
    with update_effect [OF t, of rt ?a]
    show "tables_same w (snd (bind_prog (update_appointment rt ?a)
        (\<lambda>_. refresh_appointment rt ?a) t)) \<or>
      row_updated ?a w (snd (bind_prog (update_appointment rt ?a)
        (\<lambda>_. refresh_appointment rt ?a) t))" by simp
  qed (simp add: keeps_result [OF keeps_lift_ext])
qed

section \<open>No client has two appointments at once\<close>

definition clash :: "appointment \<Rightarrow> appointment \<Rightarrow> bool" where
  "clash a b \<longleftrightarrow> ap_client_id a = ap_client_id b \<and> active a \<and> active b \<and>
     dt_less (ap_starts_at a) (ap_ends_at b) \<and> dt_less (ap_starts_at b) (ap_ends_at a)"

definition no_clash :: "'w world \<Rightarrow> bool" where
  "no_clash w \<longleftrightarrow> (\<forall>a \<in> set (w_appointments w). \<forall>b \<in> set (w_appointments w).
     ap_id a \<noteq> ap_id b \<longrightarrow> \<not> clash a b)"

lemma clash_sym: "clash a b \<longleftrightarrow> clash b a"
  by (auto simp: clash_def)

lemma tables_same_inv:
  assumes "tables_same s t"
  shows "no_clash t = no_clash s" "db_ok t = db_ok s"
  using assms by (auto simp: tables_same_def no_clash_def)

lemma stored_clash [simp]: "clash (stored a) b = clash a b" "clash b (stored a) = clash b a"
  by (simp_all add: clash_def dt_less_def active_def)

lemma booked_no_clash:
  assumes "booked client start stop call_id notes w w'" and "no_clash w"
  shows "no_clash w'"
proof -
  from assms(1) obtain i event t where t: "tables_same w t"
    and no: "\<forall>a \<in> set (w_appointments w). \<not> overlaps_window (cl_id client) start stop a"
    and w': "tables_same (t\<lparr>w_appointments := w_appointments t @
       [stored (new_appointment i client start stop call_id notes event)]\<rparr>) w'"
    unfolding booked_def by blast
  let ?a = "new_appointment i client start stop call_id notes event"
  have "\<not> clash ?a b" if "b \<in> set (w_appointments w)" for b
    using no that by (auto simp: clash_def overlaps_window_def new_appointment_def)
  moreover have "no_clash t" using t assms(2) by (simp add: tables_same_inv)
  ultimately have "no_clash (t\<lparr>w_appointments := w_appointments t @ [stored ?a]\<rparr>)"
    using tables_same_fields(1) [OF t] clash_sym by (auto simp: no_clash_def)
  with w' show ?thesis by (simp add: tables_same_inv)
qed

lemma booked_db_ok:
  assumes "booked client start stop call_id notes w w'" and "db_ok w"
  shows "db_ok w'"
proof -
  from assms(1) obtain i event t where t: "tables_same w t"
    and e: "appointment_row_error (new_appointment i client start stop call_id notes event) t = None"
    "i \<notin> ap_id ` set (w_appointments t)"
    and w': "tables_same (t\<lparr>w_appointments := w_appointments t @
       [stored (new_appointment i client start stop call_id notes event)]\<rparr>) w'"
    unfolding booked_def by blast
  have "db_ok t" using t assms(2) by (simp add: tables_same_inv)
  with e have "db_ok (t\<lparr>w_appointments := w_appointments t @
       [stored (new_appointment i client start stop call_id notes event)]\<rparr>)"
    by (auto simp: db_ok_def row_error_None new_appointment_def)
  with w' show ?thesis by (simp add: tables_same_inv)
qed

lemma row_updated_db_ok:
  assumes "row_updated a w w'" and "db_ok w"
  shows "db_ok w'"
proof -
  from assms(1) obtain t where t: "tables_same w t" and e: "appointment_row_error a t = None"
    and w': "w' = t\<lparr>w_appointments :=
       map (\<lambda>b. if ap_id b = ap_id a then stored a else b) (w_appointments t)\<rparr>"
    unfolding row_updated_def by blast
  have "db_ok t" using t assms(2) by (simp add: tables_same_inv)
  with e show ?thesis
    by (auto simp: w' db_ok_def row_error_None update_map_ids simp del: map_map)
qed

lemma cancelled_no_clash:
  assumes "row_updated a w w'" and "ap_status a = CANCELLED" and "no_clash w"
  shows "no_clash w'"
proof -
  from assms(1) obtain t where t: "tables_same w t"
    and w': "w' = t\<lparr>w_appointments :=
       map (\<lambda>b. if ap_id b = ap_id a then stored a else b) (w_appointments t)\<rparr>"
    unfolding row_updated_def by blast
  have "no_clash t" using t assms(3) by (simp add: tables_same_inv)
  moreover have "\<not> clash a b" "\<not> clash b a" for b using assms(2) by (simp_all add: clash_def active_def)
  ultimately show ?thesis by (auto simp: w' no_clash_def)
qed

end
