(* ===== verification/Booking_Thms.thy ===== *)
theory Booking_Thms
  imports Booking_Service "HOL-Library.Multiset"
begin

text \<open>
  The properties of the booking service over all sequences of operations and every outcome of
  the external services, with a logging calendar for the concrete runs.
\<close>

section \<open>Sequences of bookings and cancellations\<close>

text \<open>
  Everything that happens to the booking tables apart from rescheduling: any client books or
  cancels, with any arguments and any outcome, clients are added, the outside world moves on.
\<close>

inductive booking_step :: "'w runtime \<Rightarrow> 'w booking_service \<Rightarrow> 'w world \<Rightarrow> 'w world \<Rightarrow> bool"
  for rt bs where
  books: "booking_step rt bs w (snd (book_appointment rt bs client start stop call_id notes w))"
| cancels: "booking_step rt bs w (snd (cancel_appointment rt bs a w))"
| client_added: "booking_step rt bs w (snd (insert_client rt c w))"
| outside: "booking_step rt bs w (w\<lparr>w_ext := e\<rparr>)"

inductive booking_reach :: "'w runtime \<Rightarrow> 'w booking_service \<Rightarrow> 'w world \<Rightarrow> bool" for rt bs where
  empty_tables: "booking_reach rt bs \<lparr>w_clients = [], w_calls = [], w_transcripts = [],
    w_appointments = [], w_ext = e\<rparr>"
| next_booking: "booking_reach rt bs w \<Longrightarrow> booking_step rt bs w w' \<Longrightarrow> booking_reach rt bs w'"

lemma insert_client_appointments [simp]:
  "w_appointments (snd (insert_client rt c w)) = w_appointments w"
  by (auto simp: insert_client_def db_op_def split: option.split)

lemma booking_step_safe:
  "booking_step rt bs w w' \<Longrightarrow> no_clash w \<and> db_ok w \<Longrightarrow> no_clash w' \<and> db_ok w'"
proof (induction rule: booking_step.induct)
  case (books w client start stop call_id "notes")
  then show ?case
    using book_effect [of w rt bs client start stop call_id "notes"]
      booked_no_clash booked_db_ok tables_same_inv by metis
next
  case (cancels w a)
  have "ap_status (a\<lparr>ap_status := CANCELLED\<rparr>) = CANCELLED" by simp
  with cancels show ?case
    using cancel_effect [of w rt bs a] cancelled_no_clash row_updated_db_ok tables_same_inv by metis
next
  case (client_added w c)
  then show ?case by (simp add: no_clash_def insert_client_ok)
next
  case (outside w e)
  then show ?case by (simp add: no_clash_def)
qed

section \<open>A logging runtime for the concrete runs\<close>

definition log_calendar :: "string list calendar" where
  "log_calendar =
     \<lparr>list_busy_slots = (\<lambda>a b. ret []),
      create_event = (\<lambda>a b summary descr log. (Inr \<lparr>ev_event_id = ''ev'', ev_start = a, ev_end = b,
        ev_summary = summary\<rparr>, log @ [''create''])),
      cancel_event = (\<lambda>i log. (Inr (), log @ [''cancel''])),
      reschedule_event = (\<lambda>i a b log. (Inr \<lparr>ev_event_id = i, ev_start = a, ev_end = b,
        ev_summary = []\<rparr>, log @ [''move'']))\<rparr>"

definition log_service :: "string list sms_provider option \<Rightarrow> string list booking_service" where
  "log_service sms = \<lparr>bs_calendar = log_calendar, bs_sms = sms, bs_email = None,
     bs_hours_start = 9, bs_hours_end = 17, bs_default_minutes = 30\<rparr>"

definition log_runtime :: "string list runtime" where
  "log_runtime = \<lparr>rt_db_fault = (\<lambda>w. None), rt_uuid = (\<lambda>log. (word_of_nat (length log), log)),
     rt_now = (\<lambda>log. 0)\<rparr>"

definition ann :: client where
  "ann = \<lparr>cl_id = 1, cl_phone_number = ''+1'', cl_full_name = None, cl_email = None, cl_notes = None\<rparr>"

definition hour_slot :: "int \<Rightarrow> int \<Rightarrow> datetime" where
  "hour_slot h off = \<lparr>dt_wall = 365 * day_us + h * hour_us, dt_off = off * hour_us\<rparr>"

definition ann_appointment :: "uuid \<Rightarrow> appointment_status \<Rightarrow> int \<Rightarrow> appointment" where
  "ann_appointment i st h = \<lparr>ap_id = i, ap_client_id = 1, ap_call_id = None,
     ap_starts_at = hour_slot h 0, ap_ends_at = hour_slot (h + 1) 0, ap_status = st,
     ap_calendar_event_id = Some ''ev'', ap_notes = None\<rparr>"

definition ann_world :: "appointment list \<Rightarrow> string list world" where
  "ann_world as = \<lparr>w_clients = [ann], w_calls = [], w_transcripts = [], w_appointments = as,
     w_ext = []\<rparr>"

lemmas log_defs = log_calendar_def log_service_def log_runtime_def ann_def hour_slot_def
  ann_appointment_def ann_world_def

section \<open>Properties\<close>

text \<open>
  (C11) No client ever holds two overlapping active appointments, and every constraint of the
  tables holds, after any sequence of bookings and cancellations whatever the calendar, the
  messaging services and the database connection did in between.
\<close>

theorem bookings_never_clash:
  assumes "booking_reach rt bs w"
  shows "no_clash w \<and> db_ok w"
  using assms
proof (induction rule: booking_reach.induct)
  case (empty_tables e)
  then show ?case by (simp add: no_clash_def db_ok_def)
next
  case (next_booking w w')
  then show ?case using booking_step_safe [OF next_booking.hyps(2)] by simp
qed

theorem bookings_never_clash_witness:
  "no_clash (snd (book_appointment log_runtime (log_service None) ann (hour_slot 9 0) (hour_slot 10 0)
     None None \<lparr>w_clients = [], w_calls = [], w_transcripts = [], w_appointments = [], w_ext = []\<rparr>))"
  by (rule conjunct1 [OF bookings_never_clash [OF booking_reach.next_booking
    [OF booking_reach.empty_tables booking_step.books]]])

text \<open>
  Rescheduling does not look for overlaps: the same client's two appointments of 9:00 and
  11:00 end up at the same time, both active.
\<close>

theorem reschedule_can_double_book:
  "let w = ann_world [ann_appointment 5 CONFIRMED 9, ann_appointment 6 CONFIRMED 11];
       (r, w') = reschedule_appointment log_runtime (log_service None) (ann_appointment 6 CONFIRMED 11)
         (hour_slot 9 0) (hour_slot 10 0) w
   in no_clash w \<and> db_ok w \<and> r = Inr (ann_appointment 6 RESCHEDULED 9) \<and> db_ok w' \<and> \<not> no_clash w'"
  by code_simp

text \<open>
  Rescheduling does not look at the status either: a cancelled appointment comes back to life.
\<close>

theorem reschedule_revives_cancelled:
  "let w = ann_world [ann_appointment 5 CANCELLED 9];
       (r, w') = reschedule_appointment log_runtime (log_service None) (ann_appointment 5 CANCELLED 9)
         (hour_slot 14 0) (hour_slot 15 0) w
   in r = Inr (ann_appointment 5 RESCHEDULED 14) \<and> list_ex active (w_appointments w')"
  by code_simp

text \<open>
  (C17) Asking again for exactly the appointment one holds is answered with that appointment and
  changes nothing: no second event, no second row, no second message.
\<close>

theorem repeated_booking_is_idempotent:
  assumes "no_clash w" and "db_ok w" and "rt_db_fault rt w = None"
    and "a \<in> set (w_appointments w)" and "active a" and "ap_client_id a = cl_id client"
    and "dt_eq (ap_starts_at a) start" and "dt_eq (ap_ends_at a) stop"
    and "storable start" and "storable stop"
  shows "book_appointment rt bs client start stop call_id notes w = (Inr a, w)"
proof -
  let ?o = "overlaps_window (cl_id client) start stop"
  have lt: "dt_less (ap_starts_at a) (ap_ends_at a)" and dist: "distinct (map ap_id (w_appointments w))"
    using assms(2,4) by (auto simp: db_ok_def)
  have a: "?o a" using assms(5-8) lt by (auto simp: overlaps_window_def dt_order_defs)
  have "b = a" if "b \<in> set (w_appointments w)" "?o b" for b
  proof -
    have "clash a b" using that(2) assms(5-8) by (auto simp: overlaps_window_def clash_def dt_order_defs)
    with assms(1,4) that(1) have "ap_id a = ap_id b" by (auto simp: no_clash_def)
    with dist that(1) assms(4) show ?thesis by (auto simp: distinct_map dest: inj_onD)
  qed
  then have "find ?o (w_appointments w) = Some a"
    using a assms(4) by (metis find_None_iff find_Some_iff nth_mem option.exhaust)
  then have "find_overlapping_appointment rt (cl_id client) start stop w = (Inr (Some a), w)"
    using assms(3,9,10) by (simp add: find_overlapping_appointment_def query_dt_def query_def db_op_def)
  then show ?thesis using assms(7,8) by (simp add: book_appointment_def bind_prog_apply)
qed

theorem repeated_booking_is_idempotent_witness:
  "book_appointment log_runtime (log_service None) ann (hour_slot 11 2) (hour_slot 12 2) None None
     (ann_world [ann_appointment 5 CONFIRMED 9]) =
   (Inr (ann_appointment 5 CONFIRMED 9), ann_world [ann_appointment 5 CONFIRMED 9])"
  by (rule repeated_booking_is_idempotent; code_simp)

text \<open>
  A time that overlaps another active appointment of the client is refused with an error
  the agent can tell the caller, before anything is created anywhere.
\<close>

theorem overlapping_booking_is_refused:
  assumes "rt_db_fault rt w = None" and "storable start" and "storable stop"
    and "a \<in> set (w_appointments w)" and "overlaps_window (cl_id client) start stop a"
    and "\<forall>b \<in> set (w_appointments w). ap_client_id b = cl_id client \<and> active b \<longrightarrow>
      \<not> (dt_eq (ap_starts_at b) start \<and> dt_eq (ap_ends_at b) stop)"
  shows "\<exists>b. overlaps_window (cl_id client) start stop b \<and>
    book_appointment rt bs client start stop call_id notes w = (Inl (BookingError (overlap_message b)), w)"
proof -
  let ?o = "overlaps_window (cl_id client) start stop"
  obtain b where b: "find ?o (w_appointments w) = Some b"
    using assms(4,5) by (metis find_None_iff not_None_eq)
  then have "?o b" "b \<in> set (w_appointments w)" by (auto simp: find_Some_iff)
  moreover have "find_overlapping_appointment rt (cl_id client) start stop w = (Inr (Some b), w)"
    using b assms(1-3) by (simp add: find_overlapping_appointment_def query_dt_def query_def db_op_def)
  ultimately show ?thesis using assms(6)
    by (intro exI [of _ b]) (auto simp: book_appointment_def bind_prog_apply overlaps_window_def)
qed

theorem overlapping_booking_is_refused_witness:
  "\<exists>b. overlaps_window 1 (hour_slot 9 0) (hour_slot 11 0) b \<and>
    book_appointment log_runtime (log_service None) ann (hour_slot 9 0) (hour_slot 11 0) None None
      (ann_world [ann_appointment 5 CONFIRMED 10]) =
    (Inl (BookingError (overlap_message b)), ann_world [ann_appointment 5 CONFIRMED 10])"
proof -
  have "cl_id ann = 1" by (simp add: ann_def)
  moreover have "rt_db_fault log_runtime (ann_world [ann_appointment 5 CONFIRMED 10]) = None"
    "storable (hour_slot 9 0)" "storable (hour_slot 11 0)"
    "overlaps_window (cl_id ann) (hour_slot 9 0) (hour_slot 11 0) (ann_appointment 5 CONFIRMED 10)"
    "\<not> dt_eq (ap_starts_at (ann_appointment 5 CONFIRMED 10)) (hour_slot 9 0)" by code_simp+
  ultimately show ?thesis
    using overlapping_booking_is_refused [of log_runtime "ann_world [ann_appointment 5 CONFIRMED 10]"
      "hour_slot 9 0" "hour_slot 11 0" "ann_appointment 5 CONFIRMED 10" ann "log_service None"
      None None] by (simp add: ann_world_def)
qed


text \<open>The course of a booking up to the point where the row is written.\<close>

lemma booking_reaches_insert:
  assumes "rt_db_fault rt = (\<lambda>_. None)" and "storable start" and "storable stop"
    and "\<forall>a \<in> set (w_appointments w). \<not> overlaps_window (cl_id client) start stop a"
    and "create_event (bs_calendar bs) start stop (event_summary client) None (w_ext w) = (Inr event, e1)"
    and "rt_uuid rt e1 = (i, e2)"
  shows "book_appointment rt bs client start stop call_id notes w =
    save_booking rt bs client (new_appointment i client start stop call_id notes event) (w\<lparr>w_ext := e2\<rparr>)"
proof -
  have "find (overlaps_window (cl_id client) start stop) (w_appointments w) = None"
    using assms(4) by (auto simp: find_None_iff)
  then have "find_overlapping_appointment rt (cl_id client) start stop w = (Inr None, w)"
    using assms(1-3) by (simp add: find_overlapping_appointment_def query_dt_def query_def db_op_def)
  then show ?thesis using assms(5,6)
    by (simp add: book_appointment_def create_booking_def bind_prog_apply lift_ext_def new_uuid_def)
qed

definition quiet :: "(string \<Rightarrow> string \<Rightarrow> ('w, unit) prog) \<Rightarrow> bool" where
  "quiet send \<longleftrightarrow> (\<forall>to body e x e'. send to body e = (Inl x, e') \<longrightarrow> (\<exists>m. x = NotificationError m))"

lemma notify_returns:
  assumes "quiet send"
  shows "\<exists>e'. notify (lift_ext (send to body)) w = (Inr (), w\<lparr>w_ext := e'\<rparr>)"
proof -
  obtain r e' where s: "send to body (w_ext w) = (r, e')" by fastforce
  show ?thesis
  proof (cases r)
    case (Inl x)
    with s assms obtain m where "x = NotificationError m" unfolding quiet_def by blast
    with s Inl show ?thesis by (auto simp: notify_def try_prog_apply lift_ext_def)
  next
    case (Inr x)
    with s show ?thesis by (auto simp: notify_def try_prog_apply lift_ext_def)
  qed
qed

lemma send_confirmation_returns:
  assumes "\<forall>send. bs_sms bs = Some send \<longrightarrow> quiet send"
    and "\<forall>send. bs_email bs = Some send \<longrightarrow> (\<forall>subj. quiet (\<lambda>to. send to subj))"
  shows "\<exists>e'. send_confirmation bs client a w = (Inr (), w\<lparr>w_ext := e'\<rparr>)"
proof -
  have idle: "\<exists>e'. ret () v = (Inr (), v\<lparr>w_ext := e'\<rparr>)" for v :: "'a world"
    by (metis ret_apply tables_same_def tables_same_refl)
  have sms: "\<exists>e'. (case bs_sms bs of Some send_sms \<Rightarrow>
       (if cl_phone_number client \<noteq> []
        then notify (lift_ext (send_sms (cl_phone_number client) m)) else ret ())
     | None \<Rightarrow> ret ()) v = (Inr (), v\<lparr>w_ext := e'\<rparr>)" for v m
    using assms(1) idle notify_returns by (auto split: option.split)
  have mail: "\<exists>e'. notify (lift_ext (send address ''Appointment confirmed'' m)) v =
      (Inr (), v\<lparr>w_ext := e'\<rparr>)" if "bs_email bs = Some send" for send address m v
    using assms(2) that notify_returns [of "\<lambda>to. send to ''Appointment confirmed''" address m v]
    by blast
  have email: "\<exists>e'. (case bs_email bs of Some send_email \<Rightarrow>
       (case cl_email client of
          Some address \<Rightarrow> (if address \<noteq> []
            then notify (lift_ext (send_email address ''Appointment confirmed'' m)) else ret ())
        | None \<Rightarrow> ret ())
     | None \<Rightarrow> ret ()) v = (Inr (), v\<lparr>w_ext := e'\<rparr>)" for v m
    using idle mail by (auto split: option.split)
  obtain e1 where 1: "(case bs_sms bs of Some send_sms \<Rightarrow>
       (if cl_phone_number client \<noteq> []
        then notify (lift_ext (send_sms (cl_phone_number client) (confirmation_message a))) else ret ())
     | None \<Rightarrow> ret ()) w = (Inr (), w\<lparr>w_ext := e1\<rparr>)" using sms by blast
  show ?thesis
    using email [of "confirmation_message a" "w\<lparr>w_ext := e1\<rparr>"]
    by (simp add: send_confirmation_def Let_def bind_prog_apply 1)
qed

lemma booking_stands:
  assumes "rt_db_fault rt = (\<lambda>_. None)" and "storable start" and "storable stop"
    and "\<forall>a \<in> set (w_appointments w). \<not> overlaps_window (cl_id client) start stop a"
    and "create_event (bs_calendar bs) start stop (event_summary client) None (w_ext w) = (Inr event, e1)"
    and "rt_uuid rt e1 = (i, e2)" and "i \<notin> ap_id ` set (w_appointments w)"
    and "appointment_row_error (new_appointment i client start stop call_id notes event) w = None"
    and "\<forall>send. bs_sms bs = Some send \<longrightarrow> quiet send"
    and "\<forall>send. bs_email bs = Some send \<longrightarrow> (\<forall>subj. quiet (\<lambda>to. send to subj))"
  shows "\<exists>e. book_appointment rt bs client start stop call_id notes w =
    (Inr (stored (new_appointment i client start stop call_id notes event)),
     w\<lparr>w_appointments := w_appointments w
         @ [stored (new_appointment i client start stop call_id notes event)], w_ext := e\<rparr>)"
proof -
  let ?a = "new_appointment i client start stop call_id notes event"
  let ?w = "w\<lparr>w_appointments := w_appointments w @ [stored ?a], w_ext := e2\<rparr>"
  have id: "ap_id ?a = i" by (simp add: new_appointment_def)
  have err: "appointment_row_error ?a (w\<lparr>w_ext := e2\<rparr>) = None"
    using assms(8) by (simp add: row_error_None)
  have insert: "insert_appointment rt ?a (w\<lparr>w_ext := e2\<rparr>) = (Inr (), ?w)"
    using assms(1,7) err id by (simp add: insert_appointment_def db_op_def)
  have "find (\<lambda>b. ap_id b = i) (w_appointments w @ [stored ?a]) = Some (stored ?a)"
    using assms(7) id by (simp add: find_fresh)
  then have refresh: "refresh_appointment rt ?a ?w = (Inr (stored ?a), ?w)"
    using assms(1) id
    by (simp add: refresh_appointment_def get_appointment_def query_def db_op_def bind_prog_apply)
  obtain e' where "send_confirmation bs client (stored ?a) ?w = (Inr (), ?w\<lparr>w_ext := e'\<rparr>)"
    using send_confirmation_returns [OF assms(9,10)] by blast
  with insert refresh have "save_booking rt bs client ?a (w\<lparr>w_ext := e2\<rparr>) =
      (Inr (stored ?a), ?w\<lparr>w_ext := e'\<rparr>)"
    by (simp add: save_booking_def bind_prog_apply)
  then show ?thesis using booking_reaches_insert [OF assms(1-6)] by auto
qed

text \<open>
  Once the row is written the booking stands: if the messaging services fail only with
  \<^verbatim>\<open>NotificationError\<close>, as their interface says, the booking returns the stored appointment and
  the row is there, whether the confirmations went out or not.
\<close>

theorem failed_notification_never_undoes_booking:
  assumes "rt_db_fault rt = (\<lambda>_. None)" and "storable start" and "storable stop"
    and "\<forall>a \<in> set (w_appointments w). \<not> overlaps_window (cl_id client) start stop a"
    and "create_event (bs_calendar bs) start stop (event_summary client) None (w_ext w) = (Inr event, e1)"
    and "rt_uuid rt e1 = (i, e2)" and "i \<notin> ap_id ` set (w_appointments w)"
    and "appointment_row_error (new_appointment i client start stop call_id notes event) w = None"
    and "\<forall>send. bs_sms bs = Some send \<longrightarrow> quiet send"
    and "\<forall>send. bs_email bs = Some send \<longrightarrow> (\<forall>subj. quiet (\<lambda>to. send to subj))"
  shows "\<exists>e. book_appointment rt bs client start stop call_id notes w =
    (Inr (stored (new_appointment i client start stop call_id notes event)),
     w\<lparr>w_appointments := w_appointments w
         @ [stored (new_appointment i client start stop call_id notes event)], w_ext := e\<rparr>)"
  using assms by (rule booking_stands)

definition failing_sms :: "string list sms_provider" where
  "failing_sms to body log = (Inl (NotificationError ''unreachable''), log @ [to])"

theorem failed_notification_never_undoes_booking_witness:
  "\<exists>e. book_appointment log_runtime (log_service (Some failing_sms)) ann (hour_slot 9 0)
      (hour_slot 10 0) None None (ann_world []) =
    (Inr ((ann_appointment 1 CONFIRMED 9)),
     ann_world [ann_appointment 1 CONFIRMED 9]\<lparr>w_ext := e\<rparr>)"
proof -
  let ?ev = "\<lparr>ev_event_id = ''ev'', ev_start = hour_slot 9 0, ev_end = hour_slot 10 0,
    ev_summary = event_summary ann\<rparr>"
  let ?a = "new_appointment 1 ann (hour_slot 9 0) (hour_slot 10 0) None None ?ev"
  have "appointment_row_error ?a (ann_world []) = None" by code_simp
  moreover have "storable (hour_slot 9 0)" "storable (hour_slot 10 0)" by code_simp+
  moreover have "quiet failing_sms" by (auto simp: quiet_def failing_sms_def)
  moreover have "stored ?a = ann_appointment 1 CONFIRMED 9" by code_simp
  ultimately show ?thesis
    using failed_notification_never_undoes_booking [of log_runtime "hour_slot 9 0" "hour_slot 10 0"
      "ann_world []" ann "log_service (Some failing_sms)" ?ev "[''create'']" 1 "[''create'']" None None]
    by (simp add: log_runtime_def log_service_def log_calendar_def ann_world_def)
qed

text \<open>
  The event is created before the row is checked, and nothing takes it back: when the row is
  refused (an end not after the start, a lost connection, an unknown call), the booking fails
  with the database's exception, no row exists, and the external state is the one in which the
  event was created.
\<close>

theorem refused_row_leaves_orphan_event:
  assumes "rt_db_fault rt = (\<lambda>_. None)" and "storable start" and "storable stop"
    and "\<forall>a \<in> set (w_appointments w). \<not> overlaps_window (cl_id client) start stop a"
    and "create_event (bs_calendar bs) start stop (event_summary client) None (w_ext w) = (Inr event, e1)"
    and "rt_uuid rt e1 = (i, e2)" and "i \<notin> ap_id ` set (w_appointments w)"
    and "appointment_row_error (new_appointment i client start stop call_id notes event) w = Some x"
  shows "book_appointment rt bs client start stop call_id notes w = (Inl x, w\<lparr>w_ext := e2\<rparr>)"
proof -
  have "ap_id (new_appointment i client start stop call_id notes event) = i"
    by (simp add: new_appointment_def)
  then have "insert_appointment rt (new_appointment i client start stop call_id notes event)
      (w\<lparr>w_ext := e2\<rparr>) = (Inl x, w\<lparr>w_ext := e2\<rparr>)"
    using assms(1,7,8) by (simp add: insert_appointment_def db_op_def)
  then show ?thesis
    using booking_reaches_insert [OF assms(1-6)] by (simp add: save_booking_def bind_prog_apply)
qed

theorem refused_row_leaves_orphan_event_witness:
  "book_appointment log_runtime (log_service None) ann (hour_slot 10 0) (hour_slot 9 0) None None
     (ann_world []) =
   (Inl (IntegrityError ''ck_appointment_ends_after_starts''), ann_world []\<lparr>w_ext := [''create'']\<rparr>)"
proof -
  let ?ev = "\<lparr>ev_event_id = ''ev'', ev_start = hour_slot 10 0, ev_end = hour_slot 9 0,
    ev_summary = event_summary ann\<rparr>"
  have "appointment_row_error (new_appointment 1 ann (hour_slot 10 0) (hour_slot 9 0) None None ?ev)
      (ann_world []) = Some (IntegrityError ''ck_appointment_ends_after_starts'')" by code_simp
  moreover have "storable (hour_slot 9 0)" "storable (hour_slot 10 0)" by code_simp+
  ultimately show ?thesis
    using refused_row_leaves_orphan_event [of log_runtime "hour_slot 10 0" "hour_slot 9 0"
      "ann_world []" ann "log_service None" ?ev "[''create'']" 1 "[''create'']" None None
      "IntegrityError ''ck_appointment_ends_after_starts''"]
    by (simp add: log_runtime_def log_service_def log_calendar_def ann_world_def)
qed

definition log_sms :: "string list sms_provider" where
  "log_sms to body log = (Inr (), log @ [body])"

text \<open>
  The confirmation names the hour in UTC, not in the offset the appointment was asked for in:
  the row is read back from the database first. A booking for 14:00+02:00 is confirmed for 12:00.
\<close>

theorem confirmation_is_in_utc:
  "w_ext (snd (book_appointment log_runtime (log_service (Some log_sms)) ann (hour_slot 14 2)
      (hour_slot 15 2) None None (ann_world []))) =
    [''create'', ''Your appointment is confirmed for Tuesday January 01 at 12:00.'']"
  by code_simp

text \<open>
  The upcoming appointments are exactly the client's own active ones that have not begun,
  soonest first, and listing changes nothing.
\<close>

theorem upcoming_appointments_exact:
  assumes "rt_db_fault rt w = None" and "storable now"
  shows "\<exists>as. list_upcoming_appointments rt cid (Some now) w = (Inr as, w) \<and>
    sorted (map (dt_instant \<circ> ap_starts_at) as) \<and>
    mset as = {#a \<in># mset (w_appointments w).
      ap_client_id a = cid \<and> active a \<and> dt_le now (ap_starts_at a)#}"
  using assms
  by (auto simp: list_upcoming_appointments_def query_dt_def query_def db_op_def conj_commute
      intro!: arg_cong [where f = "\<lambda>P. filter_mset P _"])

theorem upcoming_appointments_exact_witness:
  "\<exists>as. list_upcoming_appointments log_runtime 1 (Some (hour_slot 9 0))
      (ann_world [ann_appointment 5 CONFIRMED 15, ann_appointment 6 CONFIRMED 11]) =
        (Inr as, ann_world [ann_appointment 5 CONFIRMED 15, ann_appointment 6 CONFIRMED 11]) \<and>
    sorted (map (dt_instant \<circ> ap_starts_at) as)"
proof -
  have "storable (hour_slot 9 0)" by code_simp
  then show ?thesis
    using upcoming_appointments_exact [of log_runtime "ann_world [ann_appointment 5 CONFIRMED 15,
      ann_appointment 6 CONFIRMED 11]" "hour_slot 9 0" 1] by (auto simp: log_runtime_def)
qed

text \<open>
  Cancelling marks exactly that appointment, once the calendar has dropped the event; if the
  calendar fails, the error is raised and no row changes.
\<close>

theorem cancel_marks_one_appointment:
  assumes "rt_db_fault rt = (\<lambda>_. None)" and "db_ok w" and "a \<in> set (w_appointments w)"
    and "appointment_row_error a w = None" and "ap_calendar_event_id a = Some e"
    and "cancel_event (bs_calendar bs) e (w_ext w) = (r, e')"
  shows "cancel_appointment rt bs a w = (case r of
      Inl x \<Rightarrow> (Inl x, w\<lparr>w_ext := e'\<rparr>)
    | Inr _ \<Rightarrow> (Inr (), w\<lparr>w_ext := e', w_appointments :=
        map (\<lambda>b. if ap_id b = ap_id a then b\<lparr>ap_status := CANCELLED\<rparr> else b) (w_appointments w)\<rparr>))"
proof (cases r)
  case (Inl x)
  then show ?thesis using assms(5,6)
    by (simp add: cancel_appointment_def bind_prog_apply lift_ext_def)
next
  case (Inr u)
  let ?c = "a\<lparr>ap_status := CANCELLED\<rparr>"
  have err: "appointment_row_error ?c (w\<lparr>w_ext := e'\<rparr>) = None"
    using assms(4) by (simp add: row_error_None)
  have "ap_starts_at a = to_utc (ap_starts_at a)" "ap_ends_at a = to_utc (ap_ends_at a)"
    using assms(2,3) by (auto simp: db_ok_def)
  then have "stored ?c = ?c" by (simp add: stored_def)
  moreover have "b = a" if "b \<in> set (w_appointments w)" "ap_id b = ap_id a" for b
    using assms(2,3) that by (auto simp: db_ok_def distinct_map dest: inj_onD)
  ultimately have rows: "map (\<lambda>b. if ap_id b = ap_id a then stored ?c else b) (w_appointments w) =
      map (\<lambda>b. if ap_id b = ap_id a then b\<lparr>ap_status := CANCELLED\<rparr> else b) (w_appointments w)"
    by (intro map_cong refl) auto
  have "update_appointment rt ?c (w\<lparr>w_ext := e'\<rparr>) = (Inr (), w\<lparr>w_ext := e', w_appointments :=
      map (\<lambda>b. if ap_id b = ap_id a then stored ?c else b) (w_appointments w)\<rparr>)"
    using err assms(1,3) by (simp add: update_appointment_def db_op_def)
  then show ?thesis using assms(5,6) Inr rows
    by (simp add: cancel_appointment_def bind_prog_apply lift_ext_def)
qed

theorem cancel_marks_one_appointment_witness:
  "cancel_appointment log_runtime (log_service None) (ann_appointment 5 CONFIRMED 9)
     (ann_world [ann_appointment 5 CONFIRMED 9, ann_appointment 6 CONFIRMED 11]) =
   (Inr (), ann_world [ann_appointment 5 CANCELLED 9, ann_appointment 6 CONFIRMED 11]
     \<lparr>w_ext := [''cancel'']\<rparr>)"
proof -
  let ?w = "ann_world [ann_appointment 5 CONFIRMED 9, ann_appointment 6 CONFIRMED 11]"
  let ?a = "ann_appointment 5 CONFIRMED 9"
  have "db_ok ?w" by code_simp
  moreover have "appointment_row_error ?a ?w = None" by code_simp
  ultimately have "cancel_appointment log_runtime (log_service None) ?a ?w =
      (Inr (), ?w\<lparr>w_ext := [''cancel''], w_appointments :=
        map (\<lambda>b. if ap_id b = ap_id ?a then b\<lparr>ap_status := CANCELLED\<rparr> else b) (w_appointments ?w)\<rparr>)"
    using cancel_marks_one_appointment [of log_runtime ?w ?a "''ev''" "log_service None" "Inr ()"
      "[''cancel'']"] by (simp add: log_defs)
  then show ?thesis by (simp add: ann_world_def ann_appointment_def)
qed

end
