(* ===== verification/Booking_Interleaving.thy ===== *)
theory Booking_Interleaving
  imports Booking_Thms
begin

text \<open>
  \<^verbatim>\<open>BookingService.book_appointment\<close> suspends twice before its row is written: after the search for an
  overlapping appointment and while the calendar event is created. Here the tasks of a process (calls
  and API requests) run between these points.
\<close>

section \<open>Bookings that are under way\<close>

record pending_booking =
  pb_client :: client
  pb_start :: datetime
  pb_stop :: datetime
  pb_call_id :: "uuid option"
  pb_notes :: "string option"
  pb_event :: "calendar_event option"

definition pending_row :: "uuid \<Rightarrow> pending_booking \<Rightarrow> calendar_event \<Rightarrow> appointment" where
  "pending_row i p event = new_appointment i (pb_client p) (pb_start p) (pb_stop p) (pb_call_id p) (pb_notes p) event"

definition pending_clients :: "pending_booking list \<Rightarrow> uuid list" where
  "pending_clients ps = map (\<lambda>p. cl_id (pb_client p)) ps"

text \<open>
  With \<open>serial\<close>, a client's next booking begins only when none of the same client's is under way. What
  follows the commit of the row (the refresh and the confirmation) touches no table, so it is taken
  together with it.
\<close>

inductive interleaved_step ::
  "bool \<Rightarrow> 'w runtime \<Rightarrow> 'w booking_service \<Rightarrow> 'w world \<times> pending_booking list
   \<Rightarrow> 'w world \<times> pending_booking list \<Rightarrow> bool"
  for serial rt bs where
  Checked: "pb_event p = None \<Longrightarrow>
    find_overlapping_appointment rt (cl_id (pb_client p)) (pb_start p) (pb_stop p) w = (Inr None, w') \<Longrightarrow>
    serial \<longrightarrow> cl_id (pb_client p) \<notin> set (pending_clients ps) \<Longrightarrow>
    interleaved_step serial rt bs (w, ps) (w', p # ps)"
| Event_Created: "pb_event p = None \<Longrightarrow>
    lift_ext (create_event (bs_calendar bs) (pb_start p) (pb_stop p) (event_summary (pb_client p)) None) w
      = (Inr event, w') \<Longrightarrow>
    interleaved_step serial rt bs (w, ps @ p # qs) (w', ps @ p\<lparr>pb_event := Some event\<rparr> # qs)"
| Event_Failed: "pb_event p = None \<Longrightarrow>
    lift_ext (create_event (bs_calendar bs) (pb_start p) (pb_stop p) (event_summary (pb_client p)) None) w
      = (Inl e, w') \<Longrightarrow>
    interleaved_step serial rt bs (w, ps @ p # qs) (w', ps @ qs)"
| Saved: "pb_event p = Some event \<Longrightarrow> new_uuid rt w = (Inr i, u) \<Longrightarrow>
    interleaved_step serial rt bs (w, ps @ p # qs)
      (snd (save_booking rt bs (pb_client p) (pending_row i p event) u), ps @ qs)"
| Cancels: "interleaved_step serial rt bs (w, ps) (snd (cancel_appointment rt bs a w), ps)"
| Client_Added: "interleaved_step serial rt bs (w, ps) (snd (insert_client rt c w), ps)"
| Outside: "interleaved_step serial rt bs (w, ps) (w\<lparr>w_ext := e\<rparr>, ps)"

inductive interleaved_reach ::
  "bool \<Rightarrow> 'w runtime \<Rightarrow> 'w booking_service \<Rightarrow> 'w world \<Rightarrow> 'w world \<times> pending_booking list \<Rightarrow> bool"
  for serial rt bs w where
  Nothing_Pending: "interleaved_reach serial rt bs w (w, [])"
| Next_Step: "interleaved_reach serial rt bs w x \<Longrightarrow> interleaved_step serial rt bs x y \<Longrightarrow>
    interleaved_reach serial rt bs w y"

text \<open>Without interruption the steps are \<open>book_appointment\<close>.\<close>

definition pending_of ::
  "client \<Rightarrow> datetime \<Rightarrow> datetime \<Rightarrow> uuid option \<Rightarrow> string option \<Rightarrow> pending_booking" where
  "pending_of client start stop call_id notes =
     \<lparr>pb_client = client, pb_start = start, pb_stop = stop, pb_call_id = call_id, pb_notes = notes,
      pb_event = None\<rparr>"

lemma uninterrupted_booking:
  assumes "serial \<longrightarrow> cl_id client \<notin> set (pending_clients ps)"
  shows "(interleaved_step serial rt bs)\<^sup>*\<^sup>* (w, ps)
    (snd (book_appointment rt bs client start stop call_id notes w), ps)"
proof -
  let ?p = "pending_of client start stop call_id notes" and ?step = "interleaved_step serial rt bs"
  obtain r where find: "find_overlapping_appointment rt (cl_id client) start stop w = (r, w)"
    using overlapping_state by (metis prod.collapse)
  show ?thesis
  proof (cases "r = Inr None")
    case False
    then have "snd (book_appointment rt bs client start stop call_id notes w) = w"
      using find by (auto simp: book_appointment_def bind_prog_apply split: sum.split option.split)
    then show ?thesis by simp
  next
    case True
    have check: "?step (w, ps) (w, [] @ ?p # ps)"
      using Checked [of ?p rt w w serial ps bs] find True assms by (simp add: pending_of_def)
    obtain r2 v where event: "lift_ext (create_event (bs_calendar bs) start stop (event_summary client) None) w
        = (r2, v)" by fastforce
    show ?thesis
    proof (cases r2)
      case (Inl e)
      then have "?step (w, [] @ ?p # ps) (v, [] @ ps)"
        using Event_Failed [of ?p bs w e v serial rt "[]" ps] event by (simp add: pending_of_def)
      moreover have "snd (book_appointment rt bs client start stop call_id notes w) = v"
        using find True event Inl by (simp add: book_appointment_def create_booking_def bind_prog_apply)
      ultimately show ?thesis using check by (simp add: rtranclp.rtrancl_into_rtrancl)
    next
      case (Inr ev)
      obtain i u where new: "new_uuid rt v = (Inr i, u)"
        using new_uuid_result [of rt v] by (metis prod.collapse)
      have "?step (w, [] @ ?p # ps) (v, [] @ ?p\<lparr>pb_event := Some ev\<rparr> # ps)"
        using Event_Created [of ?p bs w ev v serial rt "[]" ps] event Inr by (simp add: pending_of_def)
      moreover have "?step (v, [] @ ?p\<lparr>pb_event := Some ev\<rparr> # ps)
          (snd (save_booking rt bs client (pending_row i (?p\<lparr>pb_event := Some ev\<rparr>) ev) u), [] @ ps)"
        using Saved [of "?p\<lparr>pb_event := Some ev\<rparr>" ev rt v i u serial bs "[]" ps] new by (simp add: pending_of_def)
      moreover have "snd (book_appointment rt bs client start stop call_id notes w) =
          snd (save_booking rt bs client (pending_row i (?p\<lparr>pb_event := Some ev\<rparr>) ev) u)"
        using find True event Inr new
        by (simp add: book_appointment_def create_booking_def bind_prog_apply pending_row_def pending_of_def)
      ultimately show ?thesis using check by (simp add: rtranclp.rtrancl_into_rtrancl)
    qed
  qed
qed

section \<open>The invariant\<close>

text \<open>A booking that has passed its check stays free of overlaps while others of other clients act.\<close>

definition still_free :: "'w world \<Rightarrow> pending_booking \<Rightarrow> bool" where
  "still_free w p \<longleftrightarrow>
     (\<forall>a \<in> set (w_appointments w). \<not> overlaps_window (cl_id (pb_client p)) (pb_start p) (pb_stop p) a)"

lemma still_free_same: "tables_same w w' \<Longrightarrow> still_free w' p = still_free w p"
  by (auto simp: still_free_def tables_same_def)

lemma still_free_event [simp]: "still_free w (p\<lparr>pb_event := e\<rparr>) = still_free w p"
  by (simp add: still_free_def)

lemma overlaps_stored [simp]: "overlaps_window cid start stop (stored a) = overlaps_window cid start stop a"
  by (simp add: overlaps_window_def dt_less_def active_def)

lemma still_free_booked:
  assumes "booked client start stop call_id notes w w'" and "cl_id client \<noteq> cl_id (pb_client p)"
    and "still_free w p"
  shows "still_free w' p"
  using assms by (auto simp: booked_def still_free_def tables_same_def overlaps_window_def new_appointment_def)

lemma still_free_cancelled:
  assumes "row_updated a w w'" and "ap_status a = CANCELLED" and "still_free w p"
  shows "still_free w' p"
  using assms by (auto simp: row_updated_def still_free_def tables_same_def overlaps_window_def active_def)

definition interleaving_ok :: "'w world \<times> pending_booking list \<Rightarrow> bool" where
  "interleaving_ok x \<longleftrightarrow> no_clash (fst x) \<and> db_ok (fst x) \<and> distinct (pending_clients (snd x)) \<and>
     list_all (still_free (fst x)) (snd x)"

lemma interleaving_ok_world:
  assumes "interleaving_ok (w, ps)" and "no_clash w'" and "db_ok w'"
    and "\<And>p. p \<in> set ps \<Longrightarrow> still_free w p \<Longrightarrow> still_free w' p"
  shows "interleaving_ok (w', ps)"
  using assms by (auto simp: interleaving_ok_def list_all_iff)

lemma interleaving_ok_same: "tables_same w w' \<Longrightarrow> interleaving_ok (w, ps) \<Longrightarrow> interleaving_ok (w', ps)"
  by (rule interleaving_ok_world) (auto simp: tables_same_inv still_free_same interleaving_ok_def)

lemma interleaving_ok_drop:
  "interleaving_ok (w, ps @ p # qs) \<Longrightarrow>
     interleaving_ok (w, ps @ qs) \<and> still_free w p \<and> cl_id (pb_client p) \<notin> set (pending_clients (ps @ qs))"
  by (auto simp: interleaving_ok_def pending_clients_def)

lemma saved_booking:
  assumes "still_free w p" and "new_uuid rt w = (Inr i, u)"
    and "w' = snd (save_booking rt bs (pb_client p) (pending_row i p event) u)"
  shows "tables_same w w' \<or>
    booked (pb_client p) (pb_start p) (pb_stop p) (pb_call_id p) (pb_notes p) w w'"
proof -
  have u: "tables_same w u" using keeps_result [OF keeps_new_uuid assms(2)] .
  have i: "ap_id (pending_row i p event) = i" by (simp add: pending_row_def new_appointment_def)
  from save_effect [of u rt bs "pb_client p" "pending_row i p event"] show ?thesis
  proof
    assume "tables_same u (snd (save_booking rt bs (pb_client p) (pending_row i p event) u))"
    with u assms(3) show ?thesis by (blast intro: ext_only.frame_trans)
  next
    assume "appointment_row_error (pending_row i p event) u = None \<and>
      ap_id (pending_row i p event) \<notin> ap_id ` set (w_appointments u) \<and>
      tables_same (u\<lparr>w_appointments := w_appointments u @ [stored (pending_row i p event)]\<rparr>)
        (snd (save_booking rt bs (pb_client p) (pending_row i p event) u))"
    then show ?thesis
      using bookedI [OF u assms(1) [unfolded still_free_def], of i "pb_call_id p" "pb_notes p" event w'] i assms(3)
      by (simp add: pending_row_def)
  qed
qed

lemma step_keeps_ok:
  "interleaved_step True rt bs x y \<Longrightarrow> interleaving_ok x \<Longrightarrow> interleaving_ok y"
proof (induction rule: interleaved_step.induct)
  case (Checked p w w' ps)
  then have "w' = w" "still_free w p"
    using overlapping_state find_overlapping_None by (metis snd_conv) (use Checked find_overlapping_None in \<open>simp add: still_free_def\<close>)
  with Checked show ?case by (simp add: interleaving_ok_def pending_clients_def)
next
  case (Event_Created p w event w' ps qs)
  then have "tables_same w w'" using keeps_result [OF keeps_lift_ext] by blast
  then have "interleaving_ok (w', ps @ p # qs)" using Event_Created interleaving_ok_same by blast
  then show ?case by (simp add: interleaving_ok_def pending_clients_def)
next
  case (Event_Failed p w e w' ps qs)
  then have "tables_same w w'" using keeps_result [OF keeps_lift_ext] by blast
  then show ?case using Event_Failed interleaving_ok_same interleaving_ok_drop by blast
next
  case (Saved p event w i u ps qs)
  define w' where "w' = snd (save_booking rt bs (pb_client p) (pending_row i p event) u)"
  from Saved.prems have rest: "interleaving_ok (w, ps @ qs)" "still_free w p"
    "cl_id (pb_client p) \<notin> set (pending_clients (ps @ qs))" using interleaving_ok_drop by blast+
  from saved_booking [OF rest(2) Saved.hyps(2) w'_def] have "interleaving_ok (w', ps @ qs)"
  proof
    assume b: "booked (pb_client p) (pb_start p) (pb_stop p) (pb_call_id p) (pb_notes p) w w'"
    show ?thesis
    proof (rule interleaving_ok_world [OF rest(1)])
      show "no_clash w'" using booked_no_clash [OF b] rest(1) by (simp add: interleaving_ok_def)
      show "db_ok w'" using booked_db_ok [OF b] rest(1) by (simp add: interleaving_ok_def)
      fix q
      assume "q \<in> set (ps @ qs)" "still_free w q"
      moreover from this rest(3) have "cl_id (pb_client p) \<noteq> cl_id (pb_client q)" by (auto simp: pending_clients_def)
      ultimately show "still_free w' q" using still_free_booked [OF b] by blast
    qed
  qed (use rest(1) interleaving_ok_same in blast)
  then show ?case by (simp add: w'_def)
next
  case (Cancels w ps a)
  let ?a = "a\<lparr>ap_status := CANCELLED\<rparr>"
  have c: "ap_status ?a = CANCELLED" by simp
  from cancel_effect [of w rt bs a] show ?case
  proof
    assume r: "row_updated ?a w (snd (cancel_appointment rt bs a w))"
    show ?thesis
      using Cancels cancelled_no_clash [OF r c] row_updated_db_ok [OF r] still_free_cancelled [OF r c]
      by (intro interleaving_ok_world [OF Cancels]) (simp_all add: interleaving_ok_def)
  qed (use Cancels interleaving_ok_same in blast)
next
  case (Client_Added w ps c)
  then show ?case
    by (intro interleaving_ok_world [OF Client_Added]) (simp_all add: interleaving_ok_def no_clash_def insert_client_ok still_free_def)
next
  case (Outside w ps e)
  have "tables_same w (w\<lparr>w_ext := e\<rparr>)" by (auto simp: tables_same_def)
  then show ?case using Outside interleaving_ok_same by blast
qed

lemma reach_ok:
  "interleaved_reach True rt bs w x \<Longrightarrow> no_clash w \<and> db_ok w \<Longrightarrow> interleaving_ok x"
proof (induction rule: interleaved_reach.induct)
  case Nothing_Pending
  then show ?case by (simp add: interleaving_ok_def pending_clients_def)
next
  case (Next_Step x y)
  then show ?case using step_keeps_ok by blast
qed

section \<open>Property\<close>

text \<open>
  (C12) The check against double booking also holds between tasks that run at the same time: in any
  interleaving of bookings, at the points where the code waits, with cancellations and new clients
  and whatever the calendar and the database do, no client gets two overlapping active appointments
  and every booking still under way could be written without an overlap, provided that no client has
  two bookings under way at once.
\<close>

theorem interleaved_bookings_never_clash:
  assumes "interleaved_reach True rt bs w (w', ps)" and "no_clash w" and "db_ok w"
  shows "no_clash w' \<and> db_ok w' \<and>
    (\<forall>p \<in> set ps. \<forall>a \<in> set (w_appointments w').
       \<not> overlaps_window (cl_id (pb_client p)) (pb_start p) (pb_stop p) a)"
  using reach_ok [OF assms(1)] assms(2,3) by (simp add: interleaving_ok_def still_free_def list_all_iff)

text \<open>
  Ann's booking is checked and suspended while the calendar works; meanwhile another client, Bob, books
  the same time.
\<close>

definition bob :: client where
  "bob = \<lparr>cl_id = 2, cl_phone_number = ''+2'', cl_full_name = None, cl_email = None, cl_notes = None\<rparr>"

definition both_clients :: "string list world" where
  "both_clients = (ann_world [])\<lparr>w_clients := [ann, bob]\<rparr>"

definition anns_booking :: pending_booking where
  "anns_booking = pending_of ann (hour_slot 9 0) (hour_slot 10 0) None None"

definition bobs_world :: "string list world" where
  "bobs_world = snd (book_appointment log_runtime (log_service None) bob (hour_slot 9 0) (hour_slot 10 0)
     None None both_clients)"

lemma reach_steps:
  "(interleaved_step serial rt bs)\<^sup>*\<^sup>* x y \<Longrightarrow> interleaved_reach serial rt bs w x \<Longrightarrow> interleaved_reach serial rt bs w y"
  by (induction rule: rtranclp_induct) (auto intro: Next_Step)

lemma anns_check:
  "interleaved_reach serial log_runtime (log_service None) both_clients (both_clients, [anns_booking])"
proof -
  have "find_overlapping_appointment log_runtime (cl_id ann) (hour_slot 9 0) (hour_slot 10 0) both_clients
      = (Inr None, both_clients)" by code_simp
  then have "interleaved_step serial log_runtime (log_service None) (both_clients, []) (both_clients, [anns_booking])"
    by (intro Checked) (simp_all add: anns_booking_def pending_of_def pending_clients_def)
  then show ?thesis by (rule Next_Step [OF Nothing_Pending])
qed

theorem interleaved_bookings_never_clash_witness:
  "no_clash bobs_world \<and> db_ok bobs_world \<and> w_appointments bobs_world \<noteq> []"
proof -
  have "True \<longrightarrow> cl_id bob \<notin> set (pending_clients [anns_booking])"
    by (simp add: bob_def anns_booking_def pending_of_def pending_clients_def ann_def)
  from reach_steps [OF uninterrupted_booking [OF this] anns_check]
  have "interleaved_reach True log_runtime (log_service None) both_clients (bobs_world, [anns_booking])"
    by (simp add: bobs_world_def)
  moreover have "no_clash both_clients" "db_ok both_clients"
    by (simp_all add: both_clients_def ann_world_def ann_def bob_def no_clash_def db_ok_def)
  moreover have "length (w_appointments bobs_world) = 1" by code_simp
  ultimately show ?thesis using interleaved_bookings_never_clash by fastforce
qed

text \<open>
  For one client it is not enough, as the documentation of \<^verbatim>\<open>book_appointment\<close> says: Ann's two calls, both
  checked before either is written, give her two appointments at the same time.
\<close>

lemma one_clients_bookings_can_clash:
  "\<exists>w'. interleaved_reach False log_runtime (log_service None) both_clients (w', []) \<and> \<not> no_clash w'"
proof -
  let ?reach = "interleaved_reach False log_runtime (log_service None) both_clients"
  let ?bs = "log_service None" and ?start = "hour_slot 9 0" and ?stop = "hour_slot 10 0"
  define one where "one = snd (book_appointment log_runtime ?bs ann ?start ?stop None None both_clients)"
  define event where "event = \<lparr>ev_event_id = ''ev'', ev_start = ?start, ev_end = ?stop, ev_summary = event_summary ann\<rparr>"
  define v where "v = one\<lparr>w_ext := w_ext one @ [''create'']\<rparr>"
  let ?p = "anns_booking\<lparr>pb_event := Some event\<rparr>"
  define two where "two = snd (save_booking log_runtime ?bs ann (pending_row (word_of_nat (length (w_ext v))) ?p event) v)"
  have "?reach (one, [] @ anns_booking # [])"
    using reach_steps [OF uninterrupted_booking anns_check] by (simp add: one_def)
  then have "?reach (v, [] @ ?p # [])"
    by (rule Next_Step, intro Event_Created)
      (simp_all add: anns_booking_def pending_of_def lift_ext_def log_service_def log_calendar_def event_def v_def)
  moreover have "new_uuid log_runtime v = (Inr (word_of_nat (length (w_ext v))), v)"
    by (simp add: new_uuid_def lift_ext_def log_runtime_def)
  ultimately have "?reach (two, [] @ [])"
    using Next_Step [OF _ Saved [of ?p event log_runtime v]]
    by (fastforce simp: two_def anns_booking_def pending_of_def)
  moreover have "\<not> no_clash two" unfolding two_def v_def event_def one_def by code_simp
  ultimately show ?thesis by auto
qed

end
