(* ===== verification/Py_Text.thy ===== *)
theory Py_Text
  imports LLM_Base "HOL-Library.Word"
begin

text \<open>
  Text forms used in tool calls and their results: \<^verbatim>\<open>str.replace\<close>, \<^verbatim>\<open>int(s, 16)\<close>, \<^verbatim>\<open>uuid.UUID\<close>
  and \<^verbatim>\<open>str\<close> of one, \<^verbatim>\<open>str\<close> of an integer, and \<^verbatim>\<open>json.dumps\<close>.
\<close>

section \<open>Replacing and stripping\<close>

text \<open>\<^verbatim>\<open>s.replace(pat, by)\<close> for a non-empty pattern: leftmost, not overlapping.\<close>

function py_replace :: "string \<Rightarrow> string \<Rightarrow> string \<Rightarrow> string" where
  "py_replace pat by [] = []"
| "py_replace pat by (c # s) =
     (if pat \<noteq> [] \<and> prefix pat (c # s) then by @ py_replace pat by (drop (length pat) (c # s))
      else c # py_replace pat by s)"
  by pat_completeness auto
termination
  by (relation "measure (\<lambda>(pat, by, s). length s)") (auto simp: length_greater_0_conv [symmetric]
    simp del: length_greater_0_conv)

lemma py_replace_absent:
  assumes "c \<in> set pat" and "c \<notin> set s"
  shows "py_replace pat by s = s"
  using assms(2)
proof (induction s)
  case Nil
  then show ?case by simp
next
  case (Cons x s)
  have "\<not> prefix pat (x # s)"
    using assms(1) Cons.prems set_mono_prefix [of pat "x # s"] by blast
  with Cons show ?case by simp
qed

lemma py_replace_char: "py_replace [c] [] s = filter (\<lambda>x. x \<noteq> c) s"
  by (induction s) simp_all

text \<open>\<^verbatim>\<open>s.strip("{}")\<close>.\<close>

definition strip_braces :: "string \<Rightarrow> string" where
  "strip_braces s =
     (let brace = (\<lambda>c. c = CHR ''{'' \<or> c = CHR ''}'')
      in rev (dropWhile brace (rev (dropWhile brace s))))"

section \<open>Integers in base 16\<close>

definition hex_char :: "nat \<Rightarrow> char" where
  "hex_char n = (if n < 10 then char_of (48 + n) else char_of (87 + n))"

definition hex_value :: "char \<Rightarrow> int option" where
  "hex_value c =
     (let n = (of_char c :: nat)
      in if 48 \<le> n \<and> n \<le> 57 then Some (int n - 48)
         else if 97 \<le> n \<and> n \<le> 102 then Some (int n - 87)
         else if 65 \<le> n \<and> n \<le> 70 then Some (int n - 55)
         else None)"

text \<open>
  Digits with single underscores between them: \<open>fresh\<close> says that an underscore may not come next.
\<close>

fun hex_digits :: "bool \<Rightarrow> int \<Rightarrow> string \<Rightarrow> int option" where
  "hex_digits fresh acc [] = (if fresh then None else Some acc)"
| "hex_digits fresh acc (c # s) =
     (if c = CHR ''_'' then (if fresh then None else hex_digits True acc s)
      else case hex_value c of None \<Rightarrow> None | Some d \<Rightarrow> hex_digits False (acc * 16 + d) s)"

text \<open>\<^verbatim>\<open>int(s, 16)\<close>: white space around, a sign, an optional \<^verbatim>\<open>0x\<close>.\<close>

definition py_int16 :: "string \<Rightarrow> int option" where
  "py_int16 s =
     (let t = py_strip s;
          neg = (t \<noteq> [] \<and> hd t = CHR ''-'');
          t = (if t \<noteq> [] \<and> (hd t = CHR ''-'' \<or> hd t = CHR ''+'') then tl t else t);
          v = (if prefix ''0x'' t \<or> prefix ''0X'' t
               then (let r = drop 2 t
                     in hex_digits True 0 (if r \<noteq> [] \<and> hd r = CHR ''_'' then tl r else r))
               else hex_digits True 0 t)
      in map_option (\<lambda>n. if neg then - n else n) v)"

section \<open>UUIDs\<close>

text \<open>\<^verbatim>\<open>uuid.UUID(s)\<close>; \<open>None\<close> for the \<^verbatim>\<open>ValueError\<close>.\<close>

definition uuid_of :: "string \<Rightarrow> 128 word option" where
  "uuid_of s =
     (let h = py_replace ''uuid:'' [] (py_replace ''urn:'' [] s);
          h = py_replace ''-'' [] (strip_braces h)
      in if length h \<noteq> 32 then None
         else case py_int16 h of
                None \<Rightarrow> None
              | Some n \<Rightarrow> (if 0 \<le> n \<and> n < 2 ^ 128 then Some (word_of_int n) else None))"

fun hex_pad :: "nat \<Rightarrow> nat \<Rightarrow> string" where
  "hex_pad 0 n = []"
| "hex_pad (Suc k) n = hex_pad k (n div 16) @ [hex_char (n mod 16)]"

text \<open>\<^verbatim>\<open>str(u)\<close>: 32 hexadecimal digits in groups of 8, 4, 4, 4 and 12.\<close>

definition uuid_str :: "128 word \<Rightarrow> string" where
  "uuid_str u =
     (let h = hex_pad 32 (unat u)
      in take 8 h @ ''-'' @ take 4 (drop 8 h) @ ''-'' @ take 4 (drop 12 h) @ ''-''
         @ take 4 (drop 16 h) @ ''-'' @ drop 20 h)"

declare hex_pad.simps(2) [simp del]

definition is_hex :: "char \<Rightarrow> bool" where
  "is_hex c \<longleftrightarrow> hex_value c \<noteq> None"

lemma hex_char_value: "n < 16 \<Longrightarrow> hex_value (hex_char n) = Some (int n)"
  by (auto simp: hex_value_def hex_char_def)

lemma length_hex_pad [simp]: "length (hex_pad k n) = k"
  by (induction k arbitrary: n) (simp_all add: hex_pad.simps)

lemma hex_pad_hex: "list_all is_hex (hex_pad k n)"
  by (induction k arbitrary: n) (simp_all add: hex_pad.simps is_hex_def hex_char_value)

lemma is_hex_other: "is_hex c \<Longrightarrow> c \<noteq> CHR ''-'' \<and> c \<noteq> CHR ''+'' \<and> c \<noteq> CHR ''_'' \<and> c \<noteq> CHR ''x'' \<and>
    c \<noteq> CHR ''X'' \<and> c \<noteq> CHR ''{'' \<and> c \<noteq> CHR ''}'' \<and> c \<noteq> CHR ''u'' \<and> \<not> is_space c"
  by (auto simp: is_hex_def hex_value_def is_space_def Let_def split: if_splits)

lemma hex_digits_append:
  "list_all is_hex s \<Longrightarrow> s \<noteq> [] \<Longrightarrow> hex_digits b acc (s @ t) =
     hex_digits False (foldl (\<lambda>a c. a * 16 + the (hex_value c)) acc s) t"
proof (induction s arbitrary: b acc)
  case Nil
  then show ?case by simp
next
  case (Cons c s)
  then have "c \<noteq> CHR ''_''" "hex_value c \<noteq> None" using is_hex_other [of c] by (auto simp: is_hex_def)
  with Cons show ?case by (cases "s = []") auto
qed

lemma foldl_hex_pad:
  "foldl (\<lambda>a c. a * 16 + the (hex_value c)) acc (hex_pad k n) = acc * 16 ^ k + int (n mod 16 ^ k)"
proof (induction k arbitrary: n)
  case 0
  then show ?case by simp
next
  case (Suc k)
  have "n mod (16 * 16 ^ k) = 16 * (n div 16 mod 16 ^ k) + n mod 16"
    by (simp add: mod_mult2_eq)
  then show ?case by (simp add: hex_pad.simps Suc.IH hex_char_value distrib_right)
qed

lemma py_strip_no_space:
  assumes "s \<noteq> []" and "\<not> is_space (hd s)" and "\<not> is_space (last s)"
  shows "py_strip s = s"
proof -
  have "py_lstrip s = s" using assms(1,2) by (cases s) (auto simp: py_lstrip_def)
  moreover have "py_rstrip s = s" using assms(1,3) by (cases s rule: rev_cases) auto
  ultimately show ?thesis by (simp add: py_strip_def)
qed

lemma py_int16_hex:
  assumes all: "list_all is_hex s" and ne: "s \<noteq> []"
  shows "py_int16 s = Some (foldl (\<lambda>a c. a * 16 + the (hex_value c)) 0 s)"
proof -
  have hex: "is_hex c" if "c \<in> set s" for c using all that by (simp add: list_all_iff)
  have strip: "py_strip s = s"
    using ne hex is_hex_other by (intro py_strip_no_space) auto
  have "hd s \<noteq> CHR ''-''" "hd s \<noteq> CHR ''+''" using hex [OF hd_in_set [OF ne]] is_hex_other by auto
  moreover have "CHR ''x'' \<notin> set s" "CHR ''X'' \<notin> set s" using hex is_hex_other by blast+
  then have "\<not> prefix ''0x'' s" "\<not> prefix ''0X'' s"
    using set_mono_prefix [of "''0x''" s] set_mono_prefix [of "''0X''" s] by auto
  moreover have "hex_digits True 0 s = Some (foldl (\<lambda>a c. a * 16 + the (hex_value c)) 0 s)"
    using hex_digits_append [OF all ne, of True 0 "[]"] by simp
  ultimately show ?thesis by (simp add: py_int16_def strip Let_def)
qed

lemma strip_braces_none: "CHR ''{'' \<notin> set s \<Longrightarrow> CHR ''}'' \<notin> set s \<Longrightarrow> strip_braces s = s"
proof -
  assume "CHR ''{'' \<notin> set s" "CHR ''}'' \<notin> set s"
  then have "dropWhile (\<lambda>c. c = CHR ''{'' \<or> c = CHR ''}'') t = t" if "set t = set s" for t
    using that by (cases t) auto
  then show ?thesis by (simp add: strip_braces_def)
qed

lemma uuid_of_str: "uuid_of (uuid_str u) = Some u"
proof -
  define h where "h = hex_pad 32 (unat u)"
  have "unat u < 2 ^ LENGTH(128)" by (rule unsigned_less)
  then have bound: "unat u < 2 ^ 128" by simp
  have all: "\<forall>c \<in> set h. is_hex c" using hex_pad_hex by (auto simp: h_def list_all_iff)
  have str: "uuid_str u = take 8 h @ ''-'' @ take 4 (drop 8 h) @ ''-'' @ take 4 (drop 12 h) @ ''-''
      @ take 4 (drop 16 h) @ ''-'' @ drop 20 h"
    by (simp only: uuid_str_def h_def Let_def)
  have sub: "set (take i (drop j h)) \<subseteq> set h" "set (take i h) \<subseteq> set h" "set (drop j h) \<subseteq> set h" for i j
    by (meson set_drop_subset set_take_subset subset_trans)+
  then have "set (uuid_str u) \<subseteq> insert CHR ''-'' (set h)" unfolding str by (auto dest: in_set_takeD in_set_dropD)
  then have other: "\<forall>c \<in> set (uuid_str u). c \<noteq> CHR ''u'' \<and> c \<noteq> CHR ''{'' \<and> c \<noteq> CHR ''}''"
    using all is_hex_other by blast
  then have nu: "CHR ''u'' \<notin> set (uuid_str u)" by blast
  have dash: "filter (\<lambda>c. c \<noteq> CHR ''-'') t = t" if "set t \<subseteq> set h" for t
    using that all is_hex_other by (intro filter_True) blast
  have split: "take 8 h @ take 4 (drop 8 h) @ take 4 (drop 12 h) @ take 4 (drop 16 h) @ drop 20 h = h"
    using append_take_drop_id [of 8 h] append_take_drop_id [of 4 "drop 8 h"]
      append_take_drop_id [of 4 "drop 12 h"] append_take_drop_id [of 4 "drop 16 h"] by simp
  have "py_replace ''uuid:'' [] (py_replace ''urn:'' [] (uuid_str u)) = uuid_str u"
    using py_replace_absent [OF _ nu, of "''urn:''"] py_replace_absent [OF _ nu, of "''uuid:''"] by simp
  moreover have "strip_braces (uuid_str u) = uuid_str u"
    using other by (intro strip_braces_none) auto
  moreover have "py_replace ''-'' [] (uuid_str u) = h"
    unfolding py_replace_char str using dash [OF sub(1)] dash [OF sub(2)] dash [OF sub(3)] split
    by simp
  moreover have "foldl (\<lambda>a c. a * 16 + the (hex_value c)) 0 h = uint u"
  proof -
    have "unat u mod 16 ^ 32 = unat u" using bound by (intro mod_less) simp
    then show ?thesis unfolding h_def foldl_hex_pad by (simp only: mult_zero_left add_0_left uint_nat)
  qed
  moreover have "uint u < 2 ^ LENGTH(128)" by (rule unsigned_less)
  then have "uint u < 2 ^ 128" by simp
  moreover have len: "length h = 32" by (simp add: h_def)
  then have "h \<noteq> []" by auto
  then have "py_int16 h = Some (foldl (\<lambda>a c. a * 16 + the (hex_value c)) 0 h)"
    using all by (intro py_int16_hex) (simp_all add: list_all_iff)
  ultimately show ?thesis using len by (simp add: uuid_of_def Let_def)
qed


interpretation uuid_text: codec uuid_str uuid_of "\<lambda>_. True"
  by unfold_locales (simp add: uuid_of_str)

section \<open>Integers and JSON\<close>

text \<open>\<^verbatim>\<open>str(n)\<close>.\<close>

function nat_digits :: "nat \<Rightarrow> string" where
  "nat_digits n = (if n < 10 then [char_of (48 + n)]
     else nat_digits (n div 10) @ [char_of (48 + n mod 10)])"
  by pat_completeness auto
termination by (relation "measure id") auto

declare nat_digits.simps [simp del]

definition int_str :: "int \<Rightarrow> string" where
  "int_str n = (if n < 0 then CHR ''-'' # nat_digits (nat (- n)) else nat_digits (nat n))"

text \<open>
  \<^verbatim>\<open>json.dumps\<close> with its defaults: \<^verbatim>\<open>", "\<close> and \<^verbatim>\<open>": "\<close> as separators, every character outside
  printable ASCII escaped.
\<close>

definition json_char :: "char \<Rightarrow> string" where
  "json_char c =
     (let n = (of_char c :: nat)
      in if n = 34 then [CHR 0x5C, CHR 0x22]
         else if n = 92 then [CHR 0x5C, CHR 0x5C]
         else if n = 10 then [CHR 0x5C, CHR ''n'']
         else if n = 13 then [CHR 0x5C, CHR ''r'']
         else if n = 9 then [CHR 0x5C, CHR ''t'']
         else if n = 12 then [CHR 0x5C, CHR ''f'']
         else if n = 8 then [CHR 0x5C, CHR ''b'']
         else if n < 32 \<or> 126 < n then [CHR 0x5C, CHR ''u''] @ hex_pad 4 n
         else [c])"

definition json_string :: "string \<Rightarrow> string" where
  "json_string s = [CHR 0x22] @ concat (map json_char s) @ [CHR 0x22]"

fun json_dumps :: "json \<Rightarrow> string" where
  "json_dumps JNull = ''null''"
| "json_dumps (JBool b) = (if b then ''true'' else ''false'')"
| "json_dumps (JInt n) = int_str n"
| "json_dumps (JFloat r) = r"
| "json_dumps (JStr s) = json_string s"
| "json_dumps (JArr xs) = ''['' @ py_join '', '' (map json_dumps xs) @ '']''"
| "json_dumps (JObj kvs) =
     ''{'' @ py_join '', '' (map (\<lambda>(k, v). json_string k @ '': '' @ json_dumps v) kvs) @ ''}''"

end
