(* ===== verification/Booking_Tools.thy ===== *)
theory Booking_Tools
  imports Booking_Service Py_Text
begin

text \<open>
  \<^verbatim>\<open>openvoice/agent/tools/booking.py\<close>: the tool schemas and the executor that turns the
  model's tool calls into booking actions for one caller. The argument models are validated by
  pydantic, which is a parameter (\<open>validators\<close>): each validator maps the raw arguments to the
  text of the \<^verbatim>\<open>ValidationError\<close> or to the typed arguments.
\<close>

section \<open>Schemas and arguments\<close>

definition booking_system_prompt_addendum :: string where
  "booking_system_prompt_addendum =
     ''\<newline>\<newline>You can take real booking actions using the tools available to you:\<newline>- check_availability and list_my_appointments are informational -- use them freely.\<newline>- book_appointment, cancel_appointment, and reschedule_appointment actually change the calendar. Before calling one of these, say the exact date, time, and action out loud and wait for the caller to clearly confirm (e.g. ''
     @ [CHR 0x22] @ ''yes'' @ [CHR 0x22] @ '', '' @ [CHR 0x22] @ ''that's right'' @ [CHR 0x22]
     @ ''). Only then call the tool with caller_confirmed set to true. Never guess a confirmation the caller didn't give, and never call a mutating tool speculatively.\<newline>''"

definition iso_description :: string where
  "iso_description = ''Timezone-aware ISO 8601 datetime, e.g. 2026-09-01T14:00:00+02:00''"

text \<open>A property of a schema: its JSON type and, if given, its description.\<close>

definition schema_prop :: "string \<Rightarrow> string option \<Rightarrow> json" where
  "schema_prop ty descr = JObj ((''type'', JStr ty) #
     (case descr of None \<Rightarrow> [] | Some d \<Rightarrow> [(''description'', JStr d)]))"

definition object_schema :: "(string \<times> json) list \<Rightarrow> string list \<Rightarrow> json" where
  "object_schema props req = JObj [(''type'', JStr ''object''), (''properties'', JObj props),
     (''required'', JArr (map JStr req))]"

definition booking_tool_definitions :: "tool_definition list" where
  "booking_tool_definitions =
    [\<lparr>td_name = ''check_availability'',
      td_description = ''Find open appointment slots within business hours.'',
      td_parameters = object_schema
        [(''duration_minutes'', schema_prop ''integer'' (Some ''Desired appointment length in minutes.'')),
         (''search_days'', schema_prop ''integer'' (Some ''How many days ahead to search.''))] []\<rparr>,
     \<lparr>td_name = ''list_my_appointments'',
      td_description = ''List the caller's upcoming (non-cancelled) appointments, with their IDs.'',
      td_parameters = object_schema [] []\<rparr>,
     \<lparr>td_name = ''book_appointment'',
      td_description = ''Book a new appointment. Only call this after the caller has explicitly confirmed the date and time out loud.'',
      td_parameters = object_schema
        [(''start'', schema_prop ''string'' (Some iso_description)),
         (''end'', schema_prop ''string'' (Some iso_description)),
         (''notes'', schema_prop ''string'' (Some ''Optional note about the visit.'')),
         (''caller_confirmed'', schema_prop ''boolean''
            (Some ''True only if the caller just confirmed this exact booking.''))]
        [''start'', ''end'', ''caller_confirmed'']\<rparr>,
     \<lparr>td_name = ''cancel_appointment'',
      td_description = ''Cancel an existing appointment. Call list_my_appointments first if you don't already have its ID. Only call this after the caller has explicitly confirmed the cancellation out loud.'',
      td_parameters = object_schema
        [(''appointment_id'', schema_prop ''string'' None),
         (''caller_confirmed'', schema_prop ''boolean''
            (Some ''True only if the caller just confirmed this cancellation.''))]
        [''appointment_id'', ''caller_confirmed'']\<rparr>,
     \<lparr>td_name = ''reschedule_appointment'',
      td_description = ''Move an existing appointment to a new time. Call list_my_appointments first if you don't already have its ID. Only call this after the caller has explicitly confirmed the new date and time out loud.'',
      td_parameters = object_schema
        [(''appointment_id'', schema_prop ''string'' None),
         (''new_start'', schema_prop ''string'' (Some iso_description)),
         (''new_end'', schema_prop ''string'' (Some iso_description)),
         (''caller_confirmed'', schema_prop ''boolean''
            (Some ''True only if the caller just confirmed this new time.''))]
        [''appointment_id'', ''new_start'', ''new_end'', ''caller_confirmed'']\<rparr>]"

record check_args =
  ck_duration_minutes :: "int option"
  ck_search_days :: "int option"

record book_args =
  ba_start :: string
  ba_end :: string
  ba_notes :: "string option"
  ba_caller_confirmed :: bool

record id_args =
  ia_appointment_id :: string
  ia_caller_confirmed :: bool

record reschedule_args =
  ra_appointment_id :: string
  ra_new_start :: string
  ra_new_end :: string
  ra_caller_confirmed :: bool

type_synonym arguments = "(string \<times> json) list"

record validators =
  v_check :: "arguments \<Rightarrow> string + check_args"
  v_book :: "arguments \<Rightarrow> string + book_args"
  v_id :: "arguments \<Rightarrow> string + id_args"
  v_reschedule :: "arguments \<Rightarrow> string + reschedule_args"

text \<open>What \<^verbatim>\<open>make_booking_tool_executor\<close> is given, with the runtime.\<close>

record 'w tool_context =
  tx_runtime :: "'w runtime"
  tx_service :: "'w booking_service"
  tx_validators :: validators
  tx_client_id :: uuid
  tx_call_id :: "uuid option"

section \<open>Helpers\<close>

definition parse_datetime :: "string \<Rightarrow> datetime option" where
  "parse_datetime raw =
     (case fromisoformat raw of
        None \<Rightarrow> None
      | Some (w, None) \<Rightarrow> None
      | Some (w, Some off) \<Rightarrow> Some \<lparr>dt_wall = w, dt_off = off\<rparr>)"

interpretation datetime_text: codec isoformat parse_datetime dt_ok
  by unfold_locales (simp add: parse_datetime_def fromisoformat_isoformat)

definition get_owned_appointment ::
  "'w runtime \<Rightarrow> string \<Rightarrow> uuid \<Rightarrow> ('w world, appointment option) prog" where
  "get_owned_appointment rt raw cid =
     (case uuid_of raw of
        None \<Rightarrow> ret None
      | Some i \<Rightarrow> bind_prog (get_appointment rt i) (\<lambda>r. case r of
          None \<Rightarrow> ret None
        | Some a \<Rightarrow> if ap_client_id a \<noteq> cid then ret None else ret (Some a)))"

definition slot_json :: "time_slot \<Rightarrow> json" where
  "slot_json s = JObj [(''start'', JStr (isoformat (sl_start s))), (''end'', JStr (isoformat (sl_end s)))]"

definition appointment_json :: "appointment \<Rightarrow> json" where
  "appointment_json a = JObj
     [(''appointment_id'', JStr (uuid_str (ap_id a))),
      (''start'', JStr (isoformat (ap_starts_at a))),
      (''end'', JStr (isoformat (ap_ends_at a))),
      (''status'', JStr (appointment_status_value (ap_status a)))]"

definition invalid_arguments :: "string \<Rightarrow> string \<times> bool" where
  "invalid_arguments e = (''Invalid arguments: '' @ e, True)"

section \<open>The five tools\<close>

type_synonym tool_result = "string \<times> bool"

text \<open>
  The slot search may run for ever, so this tool's value is an option.
\<close>

definition check_availability ::
  "'w tool_context \<Rightarrow> arguments \<Rightarrow> 'w world \<Rightarrow> (tool_result res \<times> 'w world) option" where
  "check_availability tx raw w =
     (case v_check (tx_validators tx) raw of
        Inl e \<Rightarrow> Some (Inr (invalid_arguments e), w)
      | Inr args \<Rightarrow>
          (case find_available_slots (tx_service tx) (utc_now (tx_runtime tx) w)
                  (case ck_search_days args of Some n \<Rightarrow> (if n = 0 then 7 else n) | None \<Rightarrow> 7)
                  (ck_duration_minutes args) 5 (w_ext w) of
             None \<Rightarrow> None
           | Some (Inl e, x) \<Rightarrow> Some (Inl e, w\<lparr>w_ext := x\<rparr>)
           | Some (Inr slots, x) \<Rightarrow>
               Some (Inr (if slots = [] then (''No available slots found in the searched window.'', False)
                          else (json_dumps (JArr (map slot_json slots)), False)),
                     w\<lparr>w_ext := x\<rparr>)))"

definition list_my_appointments :: "'w tool_context \<Rightarrow> ('w world, tool_result) prog" where
  "list_my_appointments tx =
     bind_prog (list_upcoming_appointments (tx_runtime tx) (tx_client_id tx) None)
       (\<lambda>as. ret (if as = [] then (''No upcoming appointments.'', False)
                   else (json_dumps (JArr (map appointment_json as)), False)))"

definition book_tool :: "'w tool_context \<Rightarrow> arguments \<Rightarrow> ('w world, tool_result) prog" where
  "book_tool tx raw =
     (case v_book (tx_validators tx) raw of
        Inl e \<Rightarrow> ret (invalid_arguments e)
      | Inr args \<Rightarrow>
          if \<not> ba_caller_confirmed args
          then ret (''Not booked: you must say the exact date and time out loud and get the caller's explicit confirmation before calling this tool with caller_confirmed set to true.'', True)
          else (case (parse_datetime (ba_start args), parse_datetime (ba_end args)) of
              (Some start, Some stop) \<Rightarrow>
                bind_prog (get_client (tx_runtime tx) (tx_client_id tx)) (\<lambda>r. case r of
                    None \<Rightarrow> ret (''Caller record not found.'', True)
                  | Some client \<Rightarrow>
                      bind_prog (book_appointment (tx_runtime tx) (tx_service tx) client start stop
                          (tx_call_id tx) (ba_notes args))
                        (\<lambda>a. ret (''Booked. appointment_id='' @ uuid_str (ap_id a) @ '', start=''
                           @ isoformat (ap_starts_at a) @ '', end='' @ isoformat (ap_ends_at a) @ ''.'',
                           False)))
            | _ \<Rightarrow> ret (''Invalid start/end: must be timezone-aware ISO 8601 datetimes.'', True)))"

definition cancel_tool :: "'w tool_context \<Rightarrow> arguments \<Rightarrow> ('w world, tool_result) prog" where
  "cancel_tool tx raw =
     (case v_id (tx_validators tx) raw of
        Inl e \<Rightarrow> ret (invalid_arguments e)
      | Inr args \<Rightarrow>
          if \<not> ia_caller_confirmed args
          then ret (''Not cancelled: get the caller's explicit confirmation before calling this tool with caller_confirmed set to true.'', True)
          else bind_prog (get_owned_appointment (tx_runtime tx) (ia_appointment_id args) (tx_client_id tx))
            (\<lambda>r. case r of
                None \<Rightarrow> ret (''No such appointment for this caller.'', True)
              | Some a \<Rightarrow>
                  bind_prog (cancel_appointment (tx_runtime tx) (tx_service tx) a)
                    (\<lambda>_. ret (''Cancelled appointment '' @ uuid_str (ap_id a) @ ''.'', False))))"

definition reschedule_tool :: "'w tool_context \<Rightarrow> arguments \<Rightarrow> ('w world, tool_result) prog" where
  "reschedule_tool tx raw =
     (case v_reschedule (tx_validators tx) raw of
        Inl e \<Rightarrow> ret (invalid_arguments e)
      | Inr args \<Rightarrow>
          if \<not> ra_caller_confirmed args
          then ret (''Not rescheduled: get the caller's explicit confirmation before calling this tool with caller_confirmed set to true.'', True)
          else (case (parse_datetime (ra_new_start args), parse_datetime (ra_new_end args)) of
              (Some start, Some stop) \<Rightarrow>
                bind_prog (get_owned_appointment (tx_runtime tx) (ra_appointment_id args) (tx_client_id tx))
                  (\<lambda>r. case r of
                      None \<Rightarrow> ret (''No such appointment for this caller.'', True)
                    | Some a \<Rightarrow>
                        bind_prog (reschedule_appointment (tx_runtime tx) (tx_service tx) a start stop)
                          (\<lambda>u. ret (''Rescheduled. appointment_id='' @ uuid_str (ap_id u) @ '', start=''
                             @ isoformat (ap_starts_at u) @ '', end='' @ isoformat (ap_ends_at u) @ ''.'',
                             False)))
            | _ \<Rightarrow> ret (''Invalid new_start/new_end: must be timezone-aware ISO 8601 datetimes.'', True)))"

section \<open>The executor\<close>

text \<open>\<^verbatim>\<open>except (BookingError, CalendarError, NotificationError)\<close>.\<close>

fun booking_failure :: "exc \<Rightarrow> bool" where
  "booking_failure (BookingError m) = True"
| "booking_failure (CalendarError m) = True"
| "booking_failure (NotificationError m) = True"
| "booking_failure _ = False"

definition report_failures :: "tool_result res \<Rightarrow> tool_result res" where
  "report_failures r =
     (case r of
        Inl e \<Rightarrow> (if booking_failure e then Inr (''Could not complete this action: '' @ exc_str e, True)
                  else Inl e)
      | Inr x \<Rightarrow> Inr x)"

definition dispatch ::
  "'w tool_context \<Rightarrow> tool_call \<Rightarrow> 'w world \<Rightarrow> (tool_result res \<times> 'w world) option" where
  "dispatch tx tc w =
     (if tc_name tc = ''check_availability'' then check_availability tx (tc_arguments tc) w
      else if tc_name tc = ''list_my_appointments'' then Some (list_my_appointments tx w)
      else if tc_name tc = ''book_appointment'' then Some (book_tool tx (tc_arguments tc) w)
      else if tc_name tc = ''cancel_appointment'' then Some (cancel_tool tx (tc_arguments tc) w)
      else if tc_name tc = ''reschedule_appointment'' then Some (reschedule_tool tx (tc_arguments tc) w)
      else Some (Inr (''Unknown tool: '' @ tc_name tc, True), w))"

definition execute ::
  "'w tool_context \<Rightarrow> tool_call \<Rightarrow> 'w world \<Rightarrow> (tool_result res \<times> 'w world) option" where
  "execute tx tc w = map_option (\<lambda>(r, w'). (report_failures r, w')) (dispatch tx tc w)"

text \<open>
  The executor as the conversation calls it. A call that never returns has no result; the last
  branch only makes the function total, and is not reached when the default length is not zero
  (\<open>booking_executor_execute\<close>).
\<close>

definition booking_executor :: "'w tool_context \<Rightarrow> tool_call \<Rightarrow> ('w world, tool_result) prog" where
  "booking_executor tx tc = (\<lambda>w. case execute tx tc w of
     Some rw \<Rightarrow> rw
   | None \<Rightarrow> (Inl (OtherError ''NoReturn'' []), w))"

lemma check_availability_returns:
  assumes "bs_default_minutes (tx_service tx) \<noteq> 0"
  shows "\<exists>r w'. check_availability tx raw w = Some (r, w')"
proof (cases "v_check (tx_validators tx) raw")
  case (Inl e)
  then show ?thesis by (simp add: check_availability_def)
next
  case (Inr args)
  have "minutes_or_default (tx_service tx) (ck_duration_minutes args) \<noteq> 0"
    using assms by (auto simp: minutes_or_default_def split: option.split)
  then obtain r x where "find_available_slots (tx_service tx) (utc_now (tx_runtime tx) w)
      (case ck_search_days args of Some n \<Rightarrow> (if n = 0 then 7 else n) | None \<Rightarrow> 7)
      (ck_duration_minutes args) 5 (w_ext w) = Some (r, x)"
    using find_available_slots_ends by (metis not_None_eq prod.collapse)
  with Inr show ?thesis by (cases r) (simp_all add: check_availability_def)
qed

lemma execute_returns:
  assumes "bs_default_minutes (tx_service tx) \<noteq> 0"
  shows "\<exists>r w'. execute tx tc w = Some (r, w')"
proof -
  have "\<exists>p. dispatch tx tc w = Some p"
    using check_availability_returns [OF assms, of "tc_arguments tc" w]
    by (simp add: dispatch_def)
  then show ?thesis by (auto simp: execute_def split_paired_Ex)
qed


lemma booking_executor_execute:
  "bs_default_minutes (tx_service tx) \<noteq> 0 \<Longrightarrow> execute tx tc w = Some (booking_executor tx tc w)"
  using execute_returns [of tx tc w] by (auto simp: booking_executor_def)

end
