(* ===== verification/Booking_Tools_Thms.thy ===== *)
theory Booking_Tools_Thms
  imports Booking_Tools Booking_Thms Booking_Slots_Thms
begin

text \<open>
  The guarantees of the booking tools: nothing happens without the confirmation flag, a caller
  reaches only the caller's own appointments, what a tool prints is accepted back, and which
  failures escape the executor.
\<close>

section \<open>Other clients' data\<close>

text \<open>
  \<open>others_same cid\<close>: all tables but the appointments are unchanged, and so are the appointments
  of every other client.
\<close>

definition others_same :: "uuid \<Rightarrow> 'w world \<Rightarrow> 'w world \<Rightarrow> bool" where
  "others_same cid s t \<longleftrightarrow>
     w_clients t = w_clients s \<and> w_calls t = w_calls s \<and> w_transcripts t = w_transcripts s \<and>
     filter (\<lambda>a. ap_client_id a \<noteq> cid) (w_appointments t) =
     filter (\<lambda>a. ap_client_id a \<noteq> cid) (w_appointments s)"

interpretation others: frame "others_same cid" for cid
  by unfold_locales (simp_all add: others_same_def)

lemma tables_same_others: "tables_same s t \<Longrightarrow> others_same cid s t"
  by (simp add: others_same_def tables_same_fields)

lemma booked_others:
  assumes "booked client start stop call_id notes w w'" and "cl_id client = cid"
  shows "others_same cid w w'"
proof -
  from assms(1) obtain i event t where t: "tables_same w t"
    and w': "tables_same (t\<lparr>w_appointments := w_appointments t @
       [stored (new_appointment i client start stop call_id notes event)]\<rparr>) w'"
    unfolding booked_def by blast
  have "others_same cid t (t\<lparr>w_appointments := w_appointments t @
       [stored (new_appointment i client start stop call_id notes event)]\<rparr>)"
    using assms(2) by (simp add: others_same_def new_appointment_def)
  with t w' show ?thesis by (blast intro: tables_same_others others.frame_trans)
qed

text \<open>Updating the row of an appointment that is the client's own.\<close>

lemma row_updated_others:
  assumes up: "row_updated a' w w'" and "db_ok w" and "a \<in> set (w_appointments w)"
    and "ap_id a' = ap_id a" and "ap_client_id a' = cid" and "ap_client_id a = cid"
  shows "others_same cid w w'"
proof -
  from up obtain t where t: "tables_same w t"
    and w': "w' = t\<lparr>w_appointments :=
       map (\<lambda>b. if ap_id b = ap_id a' then stored a' else b) (w_appointments t)\<rparr>"
    unfolding row_updated_def by blast
  have own: "ap_client_id b = cid" if "b \<in> set (w_appointments w)" "ap_id b = ap_id a'" for b
    using assms that by (auto simp: db_ok_def distinct_map dest: inj_onD)
  have "filter (\<lambda>b. ap_client_id b \<noteq> cid)
      (map (\<lambda>b. if ap_id b = ap_id a' then stored a' else b) xs) = filter (\<lambda>b. ap_client_id b \<noteq> cid) xs"
    if "set xs \<subseteq> set (w_appointments w)" for xs
    using that own assms(5) by (induction xs) auto
  with t show ?thesis by (simp add: w' others_same_def tables_same_fields)
qed

section \<open>What a tool call can do\<close>

lemma list_upcoming_state [simp]: "snd (list_upcoming_appointments rt cid now w) = w"
  by (simp add: list_upcoming_appointments_def Let_def)

lemma get_owned_Some:
  assumes "get_owned_appointment rt raw cid w = (Inr (Some a), w')"
  shows "a \<in> set (w_appointments w) \<and> ap_client_id a = cid \<and> uuid_of raw = Some (ap_id a) \<and> w' = w"
  using assms
  by (auto simp: get_owned_appointment_def get_appointment_def query_def db_op_def bind_prog_apply
      find_Some_iff split: option.splits if_splits)

lemma get_owned_state [simp]: "snd (get_owned_appointment rt raw cid w) = w"
  by (auto simp: get_owned_appointment_def get_appointment_def query_def db_op_def bind_prog_apply
      split: option.split)

lemma find_slots_ext: "check_availability tx raw w = Some (r, w') \<Longrightarrow> tables_same w w'"
  by (auto simp: check_availability_def tables_same_def split: sum.splits option.splits)
    (metis tables_same_def tables_same_refl)+

lemma list_tool_state [simp]: "snd (list_my_appointments tx w) = w"
  by (simp add: list_my_appointments_def)

text \<open>The effect of each mutating tool on the tables.\<close>

definition own_row_updated :: "uuid \<Rightarrow> 'w world \<Rightarrow> 'w world \<Rightarrow> bool" where
  "own_row_updated cid w w' \<longleftrightarrow>
     (\<exists>a a'. a \<in> set (w_appointments w) \<and> ap_client_id a = cid \<and> ap_id a' = ap_id a \<and>
        ap_client_id a' = cid \<and> row_updated a' w w')"

lemma owned_action_effect:
  assumes "\<And>a. tables_same w (snd (act a w)) \<or> row_updated (new a) w (snd (act a w))"
    and "\<And>a. ap_id (new a) = ap_id a \<and> ap_client_id (new a) = ap_client_id a"
  shows "tables_same w (snd (bind_prog (get_owned_appointment rt i cid)
      (\<lambda>r. case r of None \<Rightarrow> ret m | Some a \<Rightarrow> bind_prog (act a) (\<lambda>x. ret (f a x))) w)) \<or>
    own_row_updated cid w (snd (bind_prog (get_owned_appointment rt i cid)
      (\<lambda>r. case r of None \<Rightarrow> ret m | Some a \<Rightarrow> bind_prog (act a) (\<lambda>x. ret (f a x))) w))"
proof (cases "fst (get_owned_appointment rt i cid w)")
  case (Inl e)
  then show ?thesis by (simp add: snd_bind_read)
next
  case (Inr r)
  show ?thesis
  proof (cases r)
    case None
    with Inr show ?thesis by (simp add: snd_bind_read)
  next
    case (Some a)
    have "get_owned_appointment rt i cid w = (Inr (Some a), w)"
      using Inr Some get_owned_state [of rt i cid w] by (metis prod.collapse)
    from get_owned_Some [OF this] assms(1) [of a] assms(2) [of a] Inr Some show ?thesis
      unfolding own_row_updated_def by (simp add: snd_bind_read) blast
  qed
qed

lemma cancel_tool_effect:
  "tables_same w (snd (cancel_tool tx raw w)) \<or>
   own_row_updated (tx_client_id tx) w (snd (cancel_tool tx raw w))"
proof -
  note act = owned_action_effect [OF cancel_effect,
    where f = "\<lambda>a _. (''Cancelled appointment '' @ uuid_str (ap_id a) @ ''.'', False)"]
  show ?thesis
    unfolding cancel_tool_def by (auto split: sum.split if_split simp del: append.simps intro!: act)
qed

lemma reschedule_tool_effect:
  "tables_same w (snd (reschedule_tool tx raw w)) \<or>
   own_row_updated (tx_client_id tx) w (snd (reschedule_tool tx raw w))"
proof -
  have new: "ap_id (moved a start stop) = ap_id a \<and> ap_client_id (moved a start stop) = ap_client_id a"
    for a start stop by (simp add: moved_def)
  note act = owned_action_effect [OF reschedule_effect new]
  show ?thesis
    unfolding reschedule_tool_def
    by (auto split: sum.split if_split option.split simp del: append.simps intro!: act)
qed

lemma get_client_Some:
  "get_client rt cid w = (Inr (Some c), w') \<Longrightarrow> cl_id c = cid"
  by (auto simp: get_client_def query_def db_op_def find_Some_iff split: option.splits)

definition own_booking :: "uuid \<Rightarrow> 'w world \<Rightarrow> 'w world \<Rightarrow> bool" where
  "own_booking cid w w' \<longleftrightarrow> (\<exists>client start stop call_id notes. cl_id client = cid \<and>
     booked client start stop call_id notes w w')"

lemma client_action_effect:
  assumes "\<And>c. cl_id c = cid \<Longrightarrow> tables_same w (snd (act c w)) \<or> own_booking cid w (snd (act c w))"
  shows "tables_same w (snd (bind_prog (get_client rt cid)
      (\<lambda>r. case r of None \<Rightarrow> ret m | Some c \<Rightarrow> bind_prog (act c) (\<lambda>x. ret (f x))) w)) \<or>
    own_booking cid w (snd (bind_prog (get_client rt cid)
      (\<lambda>r. case r of None \<Rightarrow> ret m | Some c \<Rightarrow> bind_prog (act c) (\<lambda>x. ret (f x))) w))"
proof (cases "fst (get_client rt cid w)")
  case (Inl e)
  then show ?thesis by (simp add: snd_bind_read)
next
  case (Inr r)
  show ?thesis
  proof (cases r)
    case None
    with Inr show ?thesis by (simp add: snd_bind_read)
  next
    case (Some c)
    have "get_client rt cid w = (Inr (Some c), w)"
      using Inr Some get_state(1) [of rt cid w] by (metis prod.collapse)
    from get_client_Some [OF this] assms [of c] Inr Some show ?thesis by (simp add: snd_bind_read)
  qed
qed

lemma book_tool_effect:
  "tables_same w (snd (book_tool tx raw w)) \<or>
   own_booking (tx_client_id tx) w (snd (book_tool tx raw w))"
proof -
  have act: "cl_id c = cid \<Longrightarrow>
      tables_same w (snd (book_appointment rt bs c start stop call_id notes w)) \<or>
      own_booking cid w (snd (book_appointment rt bs c start stop call_id notes w))"
    for cid rt bs c start stop call_id "notes"
    using book_effect [of w rt bs c start stop call_id "notes"] unfolding own_booking_def by blast
  note act = client_action_effect [where w = w and
    act = "\<lambda>c. book_appointment rt bs c start stop call_id notes" for rt bs start stop call_id "notes",
    OF act]
  show ?thesis
    unfolding book_tool_def
    by (auto split: sum.split if_split option.split simp del: append.simps intro!: act)
qed


text \<open>The effect of any tool call.\<close>

lemma dispatch_effect:
  assumes "dispatch tx tc w = Some (r, w')"
  shows "tables_same w w' \<or> own_row_updated (tx_client_id tx) w w' \<or> own_booking (tx_client_id tx) w w'"
proof -
  from assms consider "check_availability tx (tc_arguments tc) w = Some (r, w')"
    | "w' = snd (list_my_appointments tx w)" | "w' = snd (book_tool tx (tc_arguments tc) w)"
    | "w' = snd (cancel_tool tx (tc_arguments tc) w)"
    | "w' = snd (reschedule_tool tx (tc_arguments tc) w)" | "w' = w"
    unfolding dispatch_def by (auto simp del: list_tool_state split: if_splits)
  then show ?thesis
  proof cases
    case 1
    then show ?thesis using find_slots_ext by blast
  qed (use book_tool_effect [of w tx] cancel_tool_effect [of w tx] reschedule_tool_effect [of w tx]
      in \<open>(blast | simp)\<close>)+
qed

lemma execute_dispatch:
  "execute tx tc w = Some (r, w') \<Longrightarrow> \<exists>r'. dispatch tx tc w = Some (r', w') \<and> r = report_failures r'"
  by (auto simp: execute_def)

lemma execute_others:
  assumes "execute tx tc w = Some (r, w')" and "db_ok w"
  shows "others_same (tx_client_id tx) w w' \<and> db_ok w'"
proof -
  from execute_dispatch [OF assms(1)] obtain r' where "dispatch tx tc w = Some (r', w')" by blast
  from dispatch_effect [OF this] show ?thesis
  proof (elim disjE)
    assume "own_row_updated (tx_client_id tx) w w'"
    then show ?thesis unfolding own_row_updated_def
      using assms(2) row_updated_others row_updated_db_ok by metis
  qed (use assms(2) booked_others booked_db_ok tables_same_others in
        \<open>auto simp: own_booking_def tables_same_inv\<close>)
qed


section \<open>A caller for the concrete runs\<close>

text \<open>
  Validators that accept one fixed argument object for each tool: Ann books the hour from 10:00,
  backwards from 11:00 to 10:00 if \<open>backwards\<close>, with the given confirmation.
\<close>

definition demo_validators :: "bool \<Rightarrow> bool \<Rightarrow> validators" where
  "demo_validators confirmed backwards =
     \<lparr>v_check = (\<lambda>_. Inr \<lparr>ck_duration_minutes = None, ck_search_days = None\<rparr>),
      v_book = (\<lambda>_. Inr \<lparr>ba_start = isoformat (hour_slot (if backwards then 11 else 10) 0),
        ba_end = isoformat (hour_slot (if backwards then 10 else 11) 0), ba_notes = None,
        ba_caller_confirmed = confirmed\<rparr>),
      v_id = (\<lambda>_. Inr \<lparr>ia_appointment_id = uuid_str 5, ia_caller_confirmed = confirmed\<rparr>),
      v_reschedule = (\<lambda>_. Inl ''no'')\<rparr>"

definition demo_context :: "bool \<Rightarrow> bool \<Rightarrow> string list tool_context" where
  "demo_context confirmed backwards =
     \<lparr>tx_runtime = log_runtime, tx_service = log_service None,
      tx_validators = demo_validators confirmed backwards, tx_client_id = 1, tx_call_id = None\<rparr>"

definition demo_call :: "string \<Rightarrow> tool_call" where
  "demo_call name = \<lparr>tc_id = ''1'', tc_name = name, tc_arguments = []\<rparr>"

section \<open>Properties\<close>

definition mutating :: "tool_call \<Rightarrow> bool" where
  "mutating tc \<longleftrightarrow> tc_name tc \<in> {''book_appointment'', ''cancel_appointment'', ''reschedule_appointment''}"

definition confirmed :: "'w tool_context \<Rightarrow> tool_call \<Rightarrow> bool" where
  "confirmed tx tc \<longleftrightarrow>
     (if tc_name tc = ''book_appointment'' then
        (case v_book (tx_validators tx) (tc_arguments tc) of Inl e \<Rightarrow> False | Inr a \<Rightarrow> ba_caller_confirmed a)
      else if tc_name tc = ''cancel_appointment'' then
        (case v_id (tx_validators tx) (tc_arguments tc) of Inl e \<Rightarrow> False | Inr a \<Rightarrow> ia_caller_confirmed a)
      else
        (case v_reschedule (tx_validators tx) (tc_arguments tc) of Inl e \<Rightarrow> False
         | Inr a \<Rightarrow> ra_caller_confirmed a))"

lemma book_unconfirmed:
  assumes "\<And>a. v_book (tx_validators tx) raw = Inr a \<Longrightarrow> \<not> ba_caller_confirmed a"
  shows "\<exists>msg. book_tool tx raw w = (Inr (msg, True), w)"
  unfolding book_tool_def
  by (cases "v_book (tx_validators tx) raw") (use assms in \<open>simp_all add: invalid_arguments_def ret_def\<close>)

lemma cancel_unconfirmed:
  assumes "\<And>a. v_id (tx_validators tx) raw = Inr a \<Longrightarrow> \<not> ia_caller_confirmed a"
  shows "\<exists>msg. cancel_tool tx raw w = (Inr (msg, True), w)"
  unfolding cancel_tool_def
  by (cases "v_id (tx_validators tx) raw") (use assms in \<open>simp_all add: invalid_arguments_def ret_def\<close>)

lemma reschedule_unconfirmed:
  assumes "\<And>a. v_reschedule (tx_validators tx) raw = Inr a \<Longrightarrow> \<not> ra_caller_confirmed a"
  shows "\<exists>msg. reschedule_tool tx raw w = (Inr (msg, True), w)"
  unfolding reschedule_tool_def
  by (cases "v_reschedule (tx_validators tx) raw")
    (use assms in \<open>simp_all add: invalid_arguments_def ret_def\<close>)

text \<open>
  (C15) No booking, cancellation or move happens without the confirmation flag: the tool answers
  with an error and neither the tables nor any external service is touched.
\<close>

theorem unconfirmed_action_changes_nothing:
  assumes "mutating tc" and "\<not> confirmed tx tc"
  shows "\<exists>msg. execute tx tc w = Some (Inr (msg, True), w)"
proof -
  from assms(1) consider "tc_name tc = ''book_appointment''" | "tc_name tc = ''cancel_appointment''"
    | "tc_name tc = ''reschedule_appointment''"
    unfolding mutating_def by blast
  then have "\<exists>msg. dispatch tx tc w = Some (Inr (msg, True), w)"
  proof cases
    case 1
    with assms(2) have "\<exists>msg. book_tool tx (tc_arguments tc) w = (Inr (msg, True), w)"
      by (intro book_unconfirmed) (simp add: confirmed_def split: sum.splits)
    with 1 show ?thesis by (auto simp: dispatch_def)
  next
    case 2
    with assms(2) have "\<exists>msg. cancel_tool tx (tc_arguments tc) w = (Inr (msg, True), w)"
      by (intro cancel_unconfirmed) (simp add: confirmed_def split: sum.splits)
    with 2 show ?thesis by (auto simp: dispatch_def)
  next
    case 3
    with assms(2) have "\<exists>msg. reschedule_tool tx (tc_arguments tc) w = (Inr (msg, True), w)"
      by (intro reschedule_unconfirmed) (simp add: confirmed_def split: sum.splits)
    with 3 show ?thesis by (auto simp: dispatch_def)
  qed
  then show ?thesis by (auto simp: execute_def report_failures_def)
qed

theorem unconfirmed_action_changes_nothing_witness:
  "\<exists>msg. execute (demo_context False False) (demo_call ''book_appointment'') (ann_world []) =
    Some (Inr (msg, True), ann_world [])"
  by (rule unconfirmed_action_changes_nothing)
    (simp_all add: mutating_def confirmed_def demo_call_def demo_context_def demo_validators_def)

text \<open>
  (C14) Whatever the model asks for, a tool call leaves every other client's appointments, and all
  clients, calls and transcripts, as they were, and keeps the constraints of the tables.
\<close>

theorem tools_reach_only_the_callers_appointments:
  assumes "execute tx tc w = Some (r, w')" and "db_ok w"
  shows "w_clients w' = w_clients w \<and> w_calls w' = w_calls w \<and> w_transcripts w' = w_transcripts w \<and>
    filter (\<lambda>a. ap_client_id a \<noteq> tx_client_id tx) (w_appointments w') =
    filter (\<lambda>a. ap_client_id a \<noteq> tx_client_id tx) (w_appointments w) \<and> db_ok w'"
  using execute_others [OF assms] by (simp add: others_same_def)

theorem tools_reach_only_the_callers_appointments_witness:
  "w_clients (snd (the (execute (demo_context True False) (demo_call ''book_appointment'')
     (ann_world [])))) = [ann]"
proof -
  have "bs_default_minutes (tx_service (demo_context True False)) \<noteq> 0"
    by (simp add: demo_context_def log_service_def)
  then obtain r w' where e: "execute (demo_context True False) (demo_call ''book_appointment'')
      (ann_world []) = Some (r, w')" using execute_returns by blast
  have "db_ok (ann_world [])" by (simp add: db_ok_def ann_world_def)
  from tools_reach_only_the_callers_appointments [OF e this] e show ?thesis by (simp add: ann_world_def)
qed

text \<open>
  Every failure the booking layer knows about becomes an error the model can read; but the
  executor's rule that it never raises does not hold: a booking that ends before it begins
  creates the event and then lets the database's exception out.
\<close>

theorem backwards_booking_raises:
  "execute (demo_context True True) (demo_call ''book_appointment'') (ann_world []) =
     Some (Inl (IntegrityError ''ck_appointment_ends_after_starts''),
       ann_world []\<lparr>w_ext := [''create'']\<rparr>)"
proof -
  have parse: "parse_datetime (isoformat (hour_slot h 0)) = Some (hour_slot h 0)"
    if "0 \<le> h" "h \<le> 23" for h
    using that by (intro datetime_text.dec_enc)
      (simp add: dt_ok_def wall_ok_def hour_slot_def max_wall_def unit_defs)
  have "book_appointment log_runtime (log_service None) ann (hour_slot 11 0) (hour_slot 10 0) None None
      (ann_world []) = (Inl (IntegrityError ''ck_appointment_ends_after_starts''),
        ann_world []\<lparr>w_ext := [''create'']\<rparr>)" by code_simp
  moreover have "get_client log_runtime 1 (ann_world []) = (Inr (Some ann), ann_world [])"
    by (simp add: get_client_def query_def db_op_def ann_world_def log_runtime_def ann_def)
  ultimately show ?thesis
    by (simp add: execute_def dispatch_def demo_call_def demo_context_def demo_validators_def
      book_tool_def parse bind_prog_apply report_failures_def)
qed

text \<open>
  What the model is told it can repeat: the identifier printed for one of the caller's
  appointments finds exactly that appointment, and no other client's identifier is accepted.
\<close>

theorem printed_identifier_finds_the_appointment:
  assumes "rt_db_fault rt w = None" and "db_ok w" and "a \<in> set (w_appointments w)"
  shows "get_owned_appointment rt (uuid_str (ap_id a)) cid w =
    (Inr (if ap_client_id a = cid then Some a else None), w)"
proof -
  have "b = a" if "b \<in> set (w_appointments w)" "ap_id b = ap_id a" for b
    using assms(2,3) that by (auto simp: db_ok_def distinct_map dest: inj_onD)
  then have "find (\<lambda>b. ap_id b = ap_id a) (w_appointments w) = Some a"
    using assms(3) by (metis (mono_tags, lifting) find_None_iff find_Some_iff nth_mem option.exhaust)
  then show ?thesis using assms(1)
    by (simp add: get_owned_appointment_def uuid_text.dec_enc get_appointment_def query_def db_op_def
      bind_prog_apply)
qed

theorem printed_identifier_finds_the_appointment_witness:
  "get_owned_appointment log_runtime (uuid_str 5) 1 (ann_world [ann_appointment 5 CONFIRMED 9]) =
    (Inr (Some (ann_appointment 5 CONFIRMED 9)), ann_world [ann_appointment 5 CONFIRMED 9])"
proof -
  have "db_ok (ann_world [ann_appointment 5 CONFIRMED 9])" by code_simp
  then show ?thesis
    using printed_identifier_finds_the_appointment [of log_runtime
      "ann_world [ann_appointment 5 CONFIRMED 9]" "ann_appointment 5 CONFIRMED 9" 1]
    by (simp add: log_runtime_def ann_world_def ann_appointment_def)
qed

text \<open>
  (C18) A proposed slot is understood when the model repeats it: the times that the search
  prints are parsed back to exactly the proposed ones.
\<close>

theorem proposed_times_are_read_back:
  assumes ok: "search_ok bs f days minutes" and off: "\<bar>dt_off f\<bar> < day_us"
    and busy: "list_busy_slots (bs_calendar bs) f (until_of f days) w = (Inr busy, w')"
    and found: "find_available_slots bs f days minutes m w = Some (Inr slots, w'')"
    and s: "s \<in> set slots"
  shows "parse_datetime (isoformat (sl_start s)) = Some (sl_start s) \<and>
    parse_datetime (isoformat (sl_end s)) = Some (sl_end s)"
proof -
  have mem: "s \<in> set (expected_slots bs f days minutes)"
    using find_slots_spec [OF ok busy, of m] found s by (auto dest: in_set_takeD)
  note e = expected_slot [OF ok mem]
  have "dt_wall (sl_end s) < max_wall"
    using expected_slot_bound [OF ok mem] .
  moreover have "0 \<le> dt_wall f" "0 < minutes_or_default bs minutes * minute_us"
    using ok by (simp_all add: search_ok_def unit_defs)
  ultimately have "dt_ok (sl_start s)" "dt_ok (sl_end s)"
    using e off by (simp_all add: dt_ok_def wall_ok_def)
  then show ?thesis by (simp add: datetime_text.dec_enc)
qed

theorem proposed_times_are_read_back_witness:
  "parse_datetime (isoformat (at_hour 0 9)) = Some (at_hour 0 9) \<and>
    parse_datetime (isoformat (at_hour 0 13)) = Some (at_hour 0 13)"
proof -
  let ?bs = "listed_service [] 240" and ?f = "at_hour 0 9"
  let ?s = "\<lparr>sl_start = at_hour 0 9, sl_end = at_hour 0 13\<rparr>"
  have ok: "search_ok ?bs ?f 1 None"
    by (simp add: search_ok_def listed_defs minutes_or_default_def max_wall_def unit_defs)
  have off: "\<bar>dt_off ?f\<bar> < day_us" by (simp add: at_hour_def unit_defs)
  have "?s \<in> set (take (nat 5) (filter (free_slot (busy_within [] ?f (until_of ?f 1)))
      (expected_slots ?bs ?f 1 None)))" by code_simp
  from proposed_times_are_read_back [OF ok off listed_busy
      find_slots_spec [OF ok listed_busy, where m = 5 and w = "()"] this] show ?thesis by simp
qed

end
