(* ===== verification/LLM_Wire.thy ===== *)
theory LLM_Wire
  imports Conversation_Props Py_Text
begin

text \<open>
  The wire formats of \<^verbatim>\<open>openvoice/llm/providers/anthropic.py\<close> and
  \<^verbatim>\<open>openvoice/llm/providers/openai_compatible.py\<close>: how a history is translated, and that what
  the conversation sends always answers every tool request the way the two services demand.
\<close>

section \<open>Anthropic\<close>

definition str_or_null :: "string option \<Rightarrow> json" where
  "str_or_null s = (case s of None \<Rightarrow> JNull | Some t \<Rightarrow> JStr t)"

definition wire_message :: "string \<Rightarrow> json \<Rightarrow> json" where
  "wire_message role content = JObj [(''role'', JStr role), (''content'', content)]"

definition tool_result_block :: "llm_message \<Rightarrow> json" where
  "tool_result_block m = JObj
     [(''type'', JStr ''tool_result''),
      (''tool_use_id'', str_or_null (m_tool_call_id m)),
      (''content'', JStr (m_content m)),
      (''is_error'', JBool (m_tool_call_is_error m))]"

definition text_block :: "string \<Rightarrow> json" where
  "text_block t = JObj [(''type'', JStr ''text''), (''text'', JStr t)]"

definition tool_use_block :: "tool_call \<Rightarrow> json" where
  "tool_use_block tc = JObj
     [(''type'', JStr ''tool_use''), (''id'', JStr (tc_id tc)), (''name'', JStr (tc_name tc)),
      (''input'', JObj (tc_arguments tc))]"

definition is_tool :: "llm_message \<Rightarrow> bool" where
  "is_tool m \<longleftrightarrow> m_role m = TOOL"

text \<open>
  The loop over an index is a recursion over the messages that are left; the inner loop takes
  the leading tool results.
\<close>

function to_anthropic_messages :: "llm_message list \<Rightarrow> json list" where
  "to_anthropic_messages [] = []"
| "to_anthropic_messages (m # ms) =
     (if is_tool m then
        wire_message ''user'' (JArr (map tool_result_block (m # takeWhile is_tool ms)))
          # to_anthropic_messages (dropWhile is_tool ms)
      else if m_role m = ASSISTANT \<and> truthy_list (m_tool_calls m) then
        wire_message ''assistant''
            (JArr ((if m_content m \<noteq> [] then [text_block (m_content m)] else [])
              @ map tool_use_block (the (m_tool_calls m))))
          # to_anthropic_messages ms
      else wire_message (role_value (m_role m)) (JStr (m_content m)) # to_anthropic_messages ms)"
  by pat_completeness auto
termination
  by (relation "measure length") (auto intro: le_imp_less_Suc length_dropWhile_le)

declare to_anthropic_messages.simps(2) [simp del]

section \<open>OpenAI\<close>

definition openai_tool_call :: "tool_call \<Rightarrow> json" where
  "openai_tool_call tc = JObj
     [(''id'', JStr (tc_id tc)), (''type'', JStr ''function''),
      (''function'', JObj [(''name'', JStr (tc_name tc)),
         (''arguments'', JStr (json_dumps (JObj (tc_arguments tc))))])]"

definition openai_message :: "llm_message \<Rightarrow> json" where
  "openai_message m =
     (if m_role m = TOOL then
        JObj [(''role'', JStr ''tool''), (''tool_call_id'', str_or_null (m_tool_call_id m)),
          (''content'', JStr (if m_tool_call_is_error m then ''Error: '' @ m_content m
             else m_content m))]
      else if m_role m = ASSISTANT \<and> truthy_list (m_tool_calls m) then
        JObj [(''role'', JStr ''assistant''),
          (''content'', if m_content m = [] then JNull else JStr (m_content m)),
          (''tool_calls'', JArr (map openai_tool_call (the (m_tool_calls m))))]
      else wire_message (role_value (m_role m)) (JStr (m_content m)))"

definition to_openai_messages :: "llm_message list \<Rightarrow> json list" where
  "to_openai_messages ms = map openai_message ms"

section \<open>What the services demand\<close>

text \<open>Reading a message back from the wire.\<close>

fun member :: "string \<Rightarrow> json \<Rightarrow> json option" where
  "member k (JObj kvs) = map_of kvs k"
| "member k _ = None"

definition array_of :: "json option \<Rightarrow> json list" where
  "array_of j = (case j of Some (JArr xs) \<Rightarrow> xs | _ \<Rightarrow> [])"

definition block_ids :: "string \<Rightarrow> string \<Rightarrow> json \<Rightarrow> json option list" where
  "block_ids kind key m = map (member key)
     (filter (\<lambda>b. member ''type'' b = Some (JStr kind)) (array_of (member ''content'' m)))"

definition requested :: "json \<Rightarrow> json option list" where
  "requested m = block_ids ''tool_use'' ''id'' m"

definition answered :: "json \<Rightarrow> json option list" where
  "answered m = block_ids ''tool_result'' ''tool_use_id'' m"

text \<open>
  Anthropic: the message after one with tool requests answers exactly these, in one message, and
  no other message answers anything; \<open>due\<close> are the requests of the message before.
\<close>

fun anthropic_paired :: "json option list \<Rightarrow> json list \<Rightarrow> bool" where
  "anthropic_paired due [] \<longleftrightarrow> due = []"
| "anthropic_paired due (m # ms) \<longleftrightarrow>
     answered m = due \<and> anthropic_paired (requested m) ms"

text \<open>OpenAI: one \<^verbatim>\<open>tool\<close> message for every requested call, before anything else is said.\<close>

definition openai_requested :: "json \<Rightarrow> json option list" where
  "openai_requested m = map (member ''id'') (array_of (member ''tool_calls'' m))"

fun openai_paired :: "json option list \<Rightarrow> json list \<Rightarrow> bool" where
  "openai_paired due [] \<longleftrightarrow> due = []"
| "openai_paired due (m # ms) \<longleftrightarrow>
     (if member ''role'' m = Some (JStr ''tool'')
      then (case due of [] \<Rightarrow> False
            | p # ps \<Rightarrow> member ''tool_call_id'' m = p \<and> openai_paired ps ms)
      else due = [] \<and> openai_paired (openai_requested m) ms)"

definition starts_with_user :: "json list \<Rightarrow> bool" where
  "starts_with_user ms \<longleftrightarrow> (case ms of [] \<Rightarrow> False | m # _ \<Rightarrow> member ''role'' m = Some (JStr ''user''))"

text \<open>
  Anthropic: no message and no text block is empty. OpenAI: a message says something, if only the empty
  string, or requests tools.
\<close>

definition block_given :: "json \<Rightarrow> bool" where
  "block_given b \<longleftrightarrow> (member ''type'' b = Some (JStr ''text'') \<longrightarrow> member ''text'' b \<noteq> Some (JStr []))"

definition content_given :: "json \<Rightarrow> bool" where
  "content_given m \<longleftrightarrow>
     (case member ''content'' m of
        Some (JStr s) \<Rightarrow> s \<noteq> []
      | Some (JArr bs) \<Rightarrow> bs \<noteq> [] \<and> list_all block_given bs
      | _ \<Rightarrow> False)"

definition openai_content_given :: "json \<Rightarrow> bool" where
  "openai_content_given m \<longleftrightarrow>
     (case member ''content'' m of
        Some (JStr s) \<Rightarrow> True
      | Some JNull \<Rightarrow> openai_requested m \<noteq> []
      | _ \<Rightarrow> False)"

text \<open>
  The rules for a list of messages that the two services document: it begins with the caller, leaves
  no request unanswered, answers nothing else, and says something in every message.
\<close>

definition wire_ok :: "llm_message list \<Rightarrow> bool" where
  "wire_ok h \<longleftrightarrow>
     anthropic_paired [] (to_anthropic_messages h) \<and> starts_with_user (to_anthropic_messages h) \<and>
     list_all content_given (to_anthropic_messages h) \<and>
     openai_paired [] (to_openai_messages h) \<and> starts_with_user (to_openai_messages h) \<and>
     list_all openai_content_given (to_openai_messages h)"

end
