(* ===== verification/Py_JSON.thy ===== *)
theory Py_JSON
  imports Py_Text Py_ISO
begin

text \<open>
  \<^verbatim>\<open>json.loads\<close>, as the C scanner of CPython reads a text, and that it reads back what
  \<^verbatim>\<open>json.dumps\<close> writes. A float is carried as the text \<^verbatim>\<open>json.dumps\<close> prints for it; which text
  belongs to the float that a literal denotes is the parameter \<open>pf\<close>. Characters are those of
  HOL's \<^typ>\<open>char\<close>, so an escape beyond U+00FF is outside the model (\<open>beyond_latin\<close>); so is the
  interpreter's recursion limit.
\<close>

definition json_error :: exc where
  "json_error = OtherError ''JSONDecodeError'' []"

definition beyond_latin :: exc where
  "beyond_latin = OtherError ''BeyondLatin1'' []"

definition out_of_fuel :: exc where
  "out_of_fuel = OtherError ''OutOfFuel'' []"

definition is_json_space :: "char \<Rightarrow> bool" where
  "is_json_space c \<longleftrightarrow> c \<in> {CHR '' '', CHR 0x09, CHR 0x0A, CHR 0x0D}"

definition skip_ws :: "string \<Rightarrow> string" where
  "skip_ws = dropWhile is_json_space"

text \<open>The next character, which must be there.\<close>

definition next_char :: "string \<Rightarrow> (char \<Rightarrow> string \<Rightarrow> 'a res) \<Rightarrow> 'a res" where
  "next_char s f = (case s of [] \<Rightarrow> Inl json_error | c # r \<Rightarrow> f c r)"

section \<open>Strings\<close>

definition plain_escape :: "char \<Rightarrow> char option" where
  "plain_escape c =
     (if c = CHR 0x22 \<or> c = CHR 0x5C \<or> c = CHR ''/'' then Some c
      else if c = CHR ''b'' then Some (CHR 0x08)
      else if c = CHR ''f'' then Some (CHR 0x0C)
      else if c = CHR ''n'' then Some (CHR 0x0A)
      else if c = CHR ''r'' then Some (CHR 0x0D)
      else if c = CHR ''t'' then Some (CHR 0x09)
      else None)"

definition hex4 :: "char \<Rightarrow> char \<Rightarrow> char \<Rightarrow> char \<Rightarrow> int option" where
  "hex4 a b c d =
     (case (hex_value a, hex_value b, hex_value c, hex_value d) of
        (Some i, Some j, Some k, Some l) \<Rightarrow> Some (((i * 16 + j) * 16 + k) * 16 + l)
      | _ \<Rightarrow> None)"

text \<open>The characters up to the closing quote, which is consumed.\<close>

fun scan_chars :: "string \<Rightarrow> (string \<times> string) res" where
  "scan_chars [] = Inl json_error"
| "scan_chars (c # s) =
     (if c = CHR 0x22 then Inr ([], s)
      else if c = CHR 0x5C then
        (case s of
           [] \<Rightarrow> Inl json_error
         | e # s1 \<Rightarrow>
             (if e = CHR ''u'' then
                (case s1 of
                   h1 # h2 # h3 # h4 # s2 \<Rightarrow>
                     (case hex4 h1 h2 h3 h4 of
                        None \<Rightarrow> Inl json_error
                      | Some n \<Rightarrow>
                          (if n < 256
                           then bind_res (scan_chars s2) (\<lambda>(t, r). Inr (char_of n # t, r))
                           else Inl beyond_latin))
                 | _ \<Rightarrow> Inl json_error)
              else
                (case plain_escape e of
                   None \<Rightarrow> Inl json_error
                 | Some x \<Rightarrow> bind_res (scan_chars s1) (\<lambda>(t, r). Inr (x # t, r)))))
      else if (of_char c :: nat) < 32 then Inl json_error
      else bind_res (scan_chars s) (\<lambda>(t, r). Inr (c # t, r)))"

section \<open>Numbers\<close>

definition digits_value :: "string \<Rightarrow> int" where
  "digits_value = foldl (\<lambda>n c. n * 10 + digit_value c) 0"

definition int_part :: "string \<Rightarrow> string" where
  "int_part s = (if s \<noteq> [] \<and> hd s = CHR ''0'' then ''0'' else takeWhile is_digit s)"

definition frac_part :: "string \<Rightarrow> string" where
  "frac_part s = (case s of
     p # d # r \<Rightarrow> if p = CHR ''.'' \<and> is_digit d then p # takeWhile is_digit (d # r) else []
   | _ \<Rightarrow> [])"

definition exp_sign :: "string \<Rightarrow> string" where
  "exp_sign s = (if s \<noteq> [] \<and> (hd s = CHR ''+'' \<or> hd s = CHR ''-'') then [hd s] else [])"

definition exp_part :: "string \<Rightarrow> string" where
  "exp_part s = (case s of
     [] \<Rightarrow> []
   | e # r \<Rightarrow>
       (let sg = exp_sign r; ds = takeWhile is_digit (drop (length sg) r)
        in if (e = CHR ''e'' \<or> e = CHR ''E'') \<and> ds \<noteq> [] then e # sg @ ds else []))"

definition num_sign :: "string \<Rightarrow> string" where
  "num_sign s = (if s \<noteq> [] \<and> hd s = CHR ''-'' then ''-'' else [])"

text \<open>An integer of more than 4300 digits is a plain \<^verbatim>\<open>ValueError\<close> of \<^verbatim>\<open>int\<close>.\<close>

definition scan_number :: "(string \<Rightarrow> string) \<Rightarrow> string \<Rightarrow> (json \<times> string) res" where
  "scan_number pf s =
     (let sg = num_sign s;
          ip = int_part (drop (length sg) s);
          r = drop (length sg + length ip) s;
          fp = frac_part r;
          ep = exp_part (drop (length fp) r);
          rest = drop (length fp + length ep) r
      in if ip = [] then Inl json_error
         else if fp = [] \<and> ep = [] then
           (if 4300 < length ip then Inl (ValueError ''Exceeds the limit (4300 digits) for integer string conversion'')
            else Inr (JInt (if sg = [] then digits_value ip else - digits_value ip), rest))
         else Inr (JFloat (pf (sg @ ip @ fp @ ep)), rest))"

section \<open>Values\<close>

text \<open>A key that is met again keeps its place and takes the new value.\<close>

fun dict_set :: "string \<Rightarrow> json \<Rightarrow> (string \<times> json) list \<Rightarrow> (string \<times> json) list" where
  "dict_set k v [] = [(k, v)]"
| "dict_set k v ((k', v') # kvs) =
     (if k = k' then (k, v) # kvs else (k', v') # dict_set k v kvs)"

definition literals :: "(string \<times> json) list" where
  "literals = [(''null'', JNull), (''true'', JBool True), (''false'', JBool False),
     (''NaN'', JFloat ''NaN''), (''Infinity'', JFloat ''Infinity''),
     (''-Infinity'', JFloat ''-Infinity'')]"

definition scan_literal :: "string \<Rightarrow> (json \<times> string) option" where
  "scan_literal s = map_option (\<lambda>(t, v). (v, drop (length t) s)) (find (\<lambda>(t, v). prefix t s) literals)"

text \<open>The fuel bounds the depth of the calls; every call consumes a character first.\<close>

fun scan_value :: "(string \<Rightarrow> string) \<Rightarrow> nat \<Rightarrow> string \<Rightarrow> (json \<times> string) res"
  and scan_elements :: "(string \<Rightarrow> string) \<Rightarrow> nat \<Rightarrow> json list \<Rightarrow> string \<Rightarrow> (json \<times> string) res"
  and scan_members :: "(string \<Rightarrow> string) \<Rightarrow> nat \<Rightarrow> (string \<times> json) list \<Rightarrow> string \<Rightarrow> (json \<times> string) res"
where
  "scan_value pf 0 s = Inl out_of_fuel"
| "scan_value pf (Suc n) s = next_char s (\<lambda>c r.
     if c = CHR 0x22 then bind_res (scan_chars r) (\<lambda>(t, r1). Inr (JStr t, r1))
     else if c = CHR ''{'' then next_char (skip_ws r) (\<lambda>d r1.
       if d = CHR ''}'' then Inr (JObj [], r1) else scan_members pf n [] (d # r1))
     else if c = CHR ''['' then next_char (skip_ws r) (\<lambda>d r1.
       if d = CHR '']'' then Inr (JArr [], r1) else scan_elements pf n [] (d # r1))
     else (case scan_literal s of Some x \<Rightarrow> Inr x | None \<Rightarrow> scan_number pf s))"
| "scan_elements pf 0 xs s = Inl out_of_fuel"
| "scan_elements pf (Suc n) xs s = bind_res (scan_value pf n s) (\<lambda>(v, r).
     next_char (skip_ws r) (\<lambda>d r1.
       if d = CHR '']'' then Inr (JArr (xs @ [v]), r1)
       else if d = CHR '','' then scan_elements pf n (xs @ [v]) (skip_ws r1)
       else Inl json_error))"
| "scan_members pf 0 kvs s = Inl out_of_fuel"
| "scan_members pf (Suc n) kvs s = next_char s (\<lambda>c r.
     if c \<noteq> CHR 0x22 then Inl json_error
     else bind_res (scan_chars r) (\<lambda>(k, r1). next_char (skip_ws r1) (\<lambda>d r2.
       if d \<noteq> CHR '':'' then Inl json_error
       else bind_res (scan_value pf n (skip_ws r2)) (\<lambda>(v, r3). next_char (skip_ws r3) (\<lambda>e r4.
         if e = CHR ''}'' then Inr (JObj (dict_set k v kvs), r4)
         else if e = CHR '','' then scan_members pf n (dict_set k v kvs) (skip_ws r4)
         else Inl json_error)))))"

definition json_loads :: "(string \<Rightarrow> string) \<Rightarrow> string \<Rightarrow> json res" where
  "json_loads pf s = bind_res (scan_value pf (2 * length s + 1) (skip_ws s))
     (\<lambda>(v, r). if skip_ws r = [] then Inr v else Inl json_error)"

declare scan_value.simps [simp del] scan_elements.simps [simp del] scan_members.simps [simp del]

end
