(* ===== verification/Py_JSON_Thms.thy ===== *)
theory Py_JSON_Thms
  imports Py_JSON
begin

text \<open>
  What is known of \<^verbatim>\<open>json.loads\<close>: it reads back every value that \<^verbatim>\<open>json.dumps\<close> writes (the interface
  \<open>codec\<close>), and the fuel of the model is enough for every text (\<open>json_loads_fuel\<close>).
\<close>

section \<open>Strings are read back\<close>

lemma char_eq_code: "c = d \<longleftrightarrow> (of_char c :: nat) = of_char d"
  by (metis char_of_char)

lemma hex4_pad:
  assumes "n < 256"
  shows "\<exists>h1 h2 h3 h4. hex_pad 4 n = [h1, h2, h3, h4] \<and> hex4 h1 h2 h3 h4 = Some (int n)"
proof -
  have m: "n div 16 < 16" "n mod 16 < 16" "n div 16 div 16 = 0" using assms by auto
  have "hex_pad (Suc (Suc (Suc (Suc 0)))) n =
      [hex_char 0, hex_char 0, hex_char (n div 16), hex_char (n mod 16)]"
    using m by (simp only: hex_pad.simps) simp
  then have "hex_pad 4 n = [hex_char 0, hex_char 0, hex_char (n div 16), hex_char (n mod 16)]"
    by (simp only: numeral_eq_Suc pred_numeral_simps BitM.simps One_nat_def)
  moreover have "hex4 (hex_char 0) (hex_char 0) (hex_char (n div 16)) (hex_char (n mod 16)) = Some (int n)"
  proof -
    have "int (n div 16) * 16 + int (n mod 16) = int n"
      by (metis div_mult_mod_eq of_nat_add of_nat_mult of_nat_numeral)
    then show ?thesis using m by (simp add: hex4_def hex_char_value del: of_nat_div of_nat_mod)
  qed
  ultimately show ?thesis by blast
qed

lemma scan_json_char:
  "scan_chars (json_char c @ s) = bind_res (scan_chars s) (\<lambda>(t, r). Inr (c # t, r))"
proof -
  define n where "n = (of_char c :: nat)"
  have c: "c = char_of n" by (simp add: n_def)
  have n: "n < 256" by (simp add: n_def)
  show ?thesis
  proof (cases "n \<in> {34, 92, 10, 13, 9, 12, 8}")
    case True
    then have "c \<in> {CHR 0x22, CHR 0x5C, CHR 0x0A, CHR 0x0D, CHR 0x09, CHR 0x0C, CHR 0x08}"
      by (simp add: n_def char_eq_code [of c])
    then show ?thesis by (elim insertE) (simp_all add: json_char_def plain_escape_def)
  next
    case other: False
    show ?thesis
    proof (cases "n < 32 \<or> 126 < n")
      case True
      obtain h1 h2 h3 h4 where h: "hex_pad 4 n = [h1, h2, h3, h4]" "hex4 h1 h2 h3 h4 = Some (int n)"
        using hex4_pad [OF n] by blast
      have "json_char c = [CHR 0x5C, CHR ''u''] @ hex_pad 4 n"
        using True other by (simp add: json_char_def n_def [symmetric])
      then show ?thesis using h n by (simp add: c)
    next
      case False
      then have "json_char c = [c]" "c \<noteq> CHR 0x22" "c \<noteq> CHR 0x5C"
        using other by (simp_all add: json_char_def char_eq_code [of c] n_def [symmetric])
      then show ?thesis using False by (simp add: n_def [symmetric])
    qed
  qed
qed

lemma scan_json_string: "scan_chars (concat (map json_char t) @ CHR 0x22 # s) = Inr (t, s)"
proof (induction t)
  case Nil
  then show ?case by simp
next
  case (Cons c t)
  then show ?case
    using scan_json_char [of c "concat (map json_char t) @ CHR 0x22 # s"] by simp
qed

section \<open>Numbers are read back\<close>

text \<open>What may follow a value: nothing, or a separator or bracket.\<close>

definition value_end :: "string \<Rightarrow> bool" where
  "value_end s \<longleftrightarrow> s = [] \<or> hd s \<in> {CHR '','', CHR '']'', CHR ''}''}"

lemma value_end_simps [simp]:
  "value_end []" "value_end (CHR '','' # s)" "value_end (CHR '']'' # s)" "value_end (CHR ''}'' # s)"
  by (simp_all add: value_end_def)

lemma value_end_head:
  "value_end (c # s) \<Longrightarrow> \<not> is_digit c \<and> c \<noteq> CHR ''.'' \<and> c \<noteq> CHR ''e'' \<and> c \<noteq> CHR ''E'' \<and>
     c \<noteq> CHR ''+'' \<and> c \<noteq> CHR ''-''"
  by (auto simp: value_end_def is_digit_def)

lemma takeWhile_digits_end: "value_end e \<Longrightarrow> takeWhile is_digit (s @ e) = takeWhile is_digit s"
  by (induction s) (cases e; simp add: value_end_head)+

lemma int_part_end: "value_end e \<Longrightarrow> int_part (s @ e) = int_part s"
  using takeWhile_digits_end [of e s] value_end_head [of "CHR ''0''" "tl e"]
  by (cases s; cases e) (auto simp: int_part_def is_digit_def)

lemma frac_part_end:
  assumes "value_end e"
  shows "frac_part (s @ e) = frac_part s"
proof (cases s)
  case Nil
  then show ?thesis using assms value_end_head [of "hd e" "tl e"]
    by (cases e) (auto simp: frac_part_def split: list.split)
next
  case (Cons p r)
  then show ?thesis using assms value_end_head [of "hd e" "tl e"] takeWhile_digits_end [OF assms, of r]
    by (cases r; cases e) (auto simp: frac_part_def)
qed

lemma exp_part_end:
  assumes "value_end e"
  shows "exp_part (s @ e) = exp_part s"
proof (cases s)
  case Nil
  then show ?thesis using assms value_end_head [of "hd e" "tl e"]
    by (cases e) (auto simp: exp_part_def Let_def)
next
  case (Cons p r)
  have "exp_sign (r @ e) = exp_sign r"
    using assms value_end_head [of "hd e" "tl e"] by (cases r; cases e) (auto simp: exp_sign_def)
  moreover have "drop (length (exp_sign r)) (r @ e) = drop (length (exp_sign r)) r @ e"
    by (cases r) (auto simp: exp_sign_def)
  ultimately show ?thesis
    using Cons takeWhile_digits_end [OF assms] by (simp add: exp_part_def)
qed

text \<open>The parts of a number are prefixes of what is left.\<close>

lemma length_int_part: "length (int_part s) \<le> length s"
  by (cases s) (auto simp: int_part_def length_takeWhile_le)

lemma length_frac_part: "length (frac_part s) \<le> length s"
  by (auto simp: frac_part_def length_takeWhile_le split: list.split)

lemma length_exp_part: "length (exp_part s) \<le> length s"
proof (cases s)
  case (Cons e r)
  have "length (exp_sign r) + length (takeWhile is_digit (drop (length (exp_sign r)) r)) \<le> length r"
    using length_takeWhile_le [of is_digit "drop (length (exp_sign r)) r"]
    by (cases r) (auto simp: exp_sign_def)
  with Cons show ?thesis by (simp add: exp_part_def Let_def)
qed (simp add: exp_part_def)

lemma scan_number_end:
  assumes "scan_number pf s = Inr (v, r)" and "value_end e"
  shows "scan_number pf (s @ e) = Inr (v, r @ e)"
proof -
  define sg where "sg = num_sign s"
  define t where "t = drop (length sg) s"
  define ip where "ip = int_part t"
  define q where "q = drop (length ip) t"
  define fp where "fp = frac_part q"
  define u where "u = drop (length fp) q"
  define ep where "ep = exp_part u"
  have ip: "ip \<noteq> []" and s: "s \<noteq> []"
    using assms(1) by (auto simp: scan_number_def Let_def sg_def t_def ip_def int_part_def
      split: if_splits)
  have sg': "num_sign (s @ e) = sg" and l: "length sg \<le> length s"
    using s by (cases s; auto simp: sg_def num_sign_def)+
  have t': "drop (length sg) (s @ e) = t @ e" using l by (simp add: t_def)
  have ip': "int_part (t @ e) = ip" using int_part_end [OF assms(2)] by (simp add: ip_def)
  have q': "drop (length sg + length ip) (s @ e) = q @ e"
    using l length_int_part [of t] by (simp add: q_def t_def ip_def add.commute)
  have q0: "drop (length sg + length ip) s = q" by (simp add: q_def t_def add.commute)
  have fp': "frac_part (q @ e) = fp" using frac_part_end [OF assms(2)] by (simp add: fp_def)
  have u': "drop (length fp) (q @ e) = u @ e" using length_frac_part [of q] by (simp add: u_def fp_def)
  have ep': "exp_part (u @ e) = ep" using exp_part_end [OF assms(2)] by (simp add: ep_def)
  have r': "drop (length fp + length ep) (q @ e) = drop (length fp + length ep) q @ e"
    using length_frac_part [of q] length_exp_part [of u] by (simp add: ep_def fp_def u_def)
  have "scan_number pf (s @ e) = (if fp = [] \<and> ep = [] then
      (if 4300 < length ip then Inl (ValueError ''Exceeds the limit (4300 digits) for integer string conversion'')
       else Inr (JInt (if sg = [] then digits_value ip else - digits_value ip),
         drop (length fp + length ep) q @ e))
      else Inr (JFloat (pf (sg @ ip @ fp @ ep)), drop (length fp + length ep) q @ e))"
    unfolding scan_number_def Let_def sg' t' ip' q' fp' u' ep' r' using ip by simp
  moreover have "scan_number pf s = (if fp = [] \<and> ep = [] then
      (if 4300 < length ip then Inl (ValueError ''Exceeds the limit (4300 digits) for integer string conversion'')
       else Inr (JInt (if sg = [] then digits_value ip else - digits_value ip),
         drop (length fp + length ep) q))
      else Inr (JFloat (pf (sg @ ip @ fp @ ep)), drop (length fp + length ep) q))"
    unfolding scan_number_def Let_def sg_def [symmetric] t_def [symmetric] ip_def [symmetric] q0
      fp_def [symmetric] u_def [symmetric] ep_def [symmetric] using ip by simp
  ultimately show ?thesis using assms(1) by (auto split: if_splits)
qed


lemma foldl_digits:
  "foldl (\<lambda>n c. n * 10 + digit_value c) 0 (s @ [c]) =
     foldl (\<lambda>n c. n * 10 + digit_value c) 0 s * 10 + digit_value c"
  by simp

lemma nat_digits_facts:
  "list_all is_digit (nat_digits n) \<and> nat_digits n \<noteq> [] \<and> digits_value (nat_digits n) = int n \<and>
   (hd (nat_digits n) = CHR ''0'' \<longrightarrow> nat_digits n = ''0'')"
proof (induction n rule: nat_digits.induct)
  case (1 n)
  have d: "is_digit (char_of (48 + k)) \<and> digit_value (char_of (48 + k)) = int k \<and>
      (char_of (48 + k) = CHR ''0'' \<longrightarrow> k = 0)" if "k < 10" for k :: nat
    using that by (auto simp: is_digit_def digit_value_def char_eq_code)
  show ?case
  proof (cases "n < 10")
    case True
    then show ?thesis using d [of n] by (auto simp: nat_digits.simps [of n] digits_value_def)
  next
    case False
    have h: "hd (nat_digits (n div 10)) \<noteq> CHR ''0''"
    proof
      assume "hd (nat_digits (n div 10)) = CHR ''0''"
      with 1 [OF False] have "digits_value ''0'' = int (n div 10)" by metis
      with False show False by (simp add: digits_value_def digit_value_def)
    qed
    have "int (n div 10) * 10 + int (n mod 10) = int n"
      by (metis div_mult_mod_eq of_nat_add of_nat_mult of_nat_numeral)
    then show ?thesis
      using 1 [OF False] d [of "n mod 10"] False h
      by (simp add: nat_digits.simps [of n] digits_value_def del: of_nat_div of_nat_mod)
  qed
qed

lemma length_nat_digits: "0 < k \<Longrightarrow> n < 10 ^ k \<Longrightarrow> length (nat_digits n) \<le> k"
proof (induction n arbitrary: k rule: nat_digits.induct)
  case (1 n)
  show ?case
  proof (cases "n < 10")
    case True
    then show ?thesis using 1 by (simp add: nat_digits.simps [of n])
  next
    case False
    with 1 obtain j where k: "k = Suc j" "0 < j" by (cases k; cases "k - 1") auto
    have "n div 10 < 10 ^ j" using 1 k by (simp add: less_mult_imp_div_less mult.commute)
    then have "length (nat_digits (n div 10)) \<le> j" using 1(1) [OF False] k by blast
    then show ?thesis using False k by (simp add: nat_digits.simps [of n])
  qed
qed

definition printable_int :: "int \<Rightarrow> bool" where
  "printable_int n \<longleftrightarrow> nat \<bar>n\<bar> < 10 ^ 4300"

lemma int_part_digits:
  "list_all is_digit s \<Longrightarrow> s \<noteq> [] \<Longrightarrow> (hd s = CHR ''0'' \<longrightarrow> s = ''0'') \<Longrightarrow> int_part s = s"
  by (auto simp: int_part_def list_all_iff)

lemma scan_digits_int:
  assumes "list_all is_digit s" and "s \<noteq> []" and "hd s = CHR ''0'' \<longrightarrow> s = ''0''" and "length s \<le> 4300"
  shows "scan_number pf s = Inr (JInt (digits_value s), [])"
    and "scan_number pf (CHR ''-'' # s) = Inr (JInt (- digits_value s), [])"
proof -
  have "hd s \<noteq> CHR ''-''" using assms(1,2) by (cases s) (auto simp: is_digit_def)
  then have "num_sign s = []" by (simp add: num_sign_def)
  then show "scan_number pf s = Inr (JInt (digits_value s), [])"
    using assms int_part_digits [OF assms(1-3)]
    by (simp add: scan_number_def frac_part_def exp_part_def)
  show "scan_number pf (CHR ''-'' # s) = Inr (JInt (- digits_value s), [])"
    using assms int_part_digits [OF assms(1-3)]
    by (simp add: scan_number_def num_sign_def frac_part_def exp_part_def)
qed

lemma scan_int_str: "printable_int n \<Longrightarrow> scan_number pf (int_str n) = Inr (JInt n, [])"
proof -
  assume "printable_int n"
  then have "nat \<bar>n\<bar> < 10 ^ 4300" unfolding printable_int_def .
  then have l: "length (nat_digits (nat \<bar>n\<bar>)) \<le> 4300" by (rule length_nat_digits [rotated]) simp
  note f = nat_digits_facts [of "nat \<bar>n\<bar>"]
  show ?thesis
  proof (cases "n < 0")
    case True
    then have "nat \<bar>n\<bar> = nat (- n)" by simp
    with True f l show ?thesis using scan_digits_int(2) [of "nat_digits (nat (- n))" pf]
      by (simp add: int_str_def)
  next
    case False
    then have "nat \<bar>n\<bar> = nat n" by simp
    with False f l show ?thesis using scan_digits_int(1) [of "nat_digits (nat n)" pf]
      by (simp add: int_str_def)
  qed
qed

lemma scan_number_head:
  assumes "scan_number pf s = Inr x"
  shows "\<exists>c r. s = c # r \<and> (is_digit c \<or> c = CHR ''-'' \<and> r \<noteq> [] \<and> is_digit (hd r))"
proof -
  have ip: "int_part (drop (length (num_sign s)) s) \<noteq> []"
    using assms by (auto simp: scan_number_def Let_def)
  have digit: "t \<noteq> [] \<and> is_digit (hd t)" if "int_part t \<noteq> []" for t
    using that by (cases t) (auto simp: int_part_def is_digit_def split: if_splits)
  show ?thesis
    using digit [OF ip] by (cases s) (auto simp: num_sign_def split: if_splits)
qed

lemma scan_literal_number:
  assumes "is_digit c \<or> c = CHR ''-'' \<and> r \<noteq> [] \<and> is_digit (hd r)"
  shows "scan_literal (c # r @ e) = None"
proof -
  have other: "CHR ''n'' \<noteq> d \<and> CHR ''t'' \<noteq> d \<and> CHR ''f'' \<noteq> d \<and> CHR ''N'' \<noteq> d \<and> CHR ''I'' \<noteq> d \<and> CHR ''-'' \<noteq> d"
    if "is_digit d" for d
    using that by (auto simp: is_digit_def)
  from assms show ?thesis
  proof
    assume "is_digit c"
    from other [OF this] show ?thesis by (simp add: scan_literal_def literals_def)
  next
    assume c: "c = CHR ''-'' \<and> r \<noteq> [] \<and> is_digit (hd r)"
    then obtain d r' where r: "r = d # r'" "is_digit d" by (cases r) auto
    from other [OF this(2)] c r(1) show ?thesis by (simp add: scan_literal_def literals_def)
  qed
qed


section \<open>Values are read back\<close>

definition float_ok :: "(string \<Rightarrow> string) \<Rightarrow> string \<Rightarrow> bool" where
  "float_ok pf r \<longleftrightarrow> r \<in> {''NaN'', ''Infinity'', ''-Infinity''} \<or> scan_number pf r = Inr (JFloat r, [])"

text \<open>The values of Python that \<^verbatim>\<open>json.dumps\<close> prints: keys are distinct, integers not too long.\<close>

fun valid_json :: "(string \<Rightarrow> string) \<Rightarrow> json \<Rightarrow> bool" where
  "valid_json pf (JInt n) \<longleftrightarrow> printable_int n"
| "valid_json pf (JFloat r) \<longleftrightarrow> float_ok pf r"
| "valid_json pf (JArr xs) \<longleftrightarrow> list_all (valid_json pf) xs"
| "valid_json pf (JObj kvs) \<longleftrightarrow> distinct (map fst kvs) \<and> list_all (\<lambda>(k, v). valid_json pf v) kvs"
| "valid_json pf _ \<longleftrightarrow> True"

lemma scan_number_value:
  assumes "scan_number pf s = Inr (v, [])" and "value_end e"
  shows "scan_value pf (Suc n) (s @ e) = Inr (v, e)"
proof -
  obtain c r where s: "s = c # r" "is_digit c \<or> c = CHR ''-'' \<and> r \<noteq> [] \<and> is_digit (hd r)"
    using scan_number_head [OF assms(1)] by blast
  have "c \<noteq> CHR 0x22 \<and> c \<noteq> CHR ''{'' \<and> c \<noteq> CHR ''[''" using s(2) by (auto simp: is_digit_def)
  then show ?thesis
    using scan_literal_number [OF s(2), of e] scan_number_end [OF assms] s(1)
    by (simp add: scan_value.simps next_char_def)
qed

lemma dumps_start:
  assumes "valid_json pf j"
  shows "\<exists>c t. json_dumps j = c # t \<and> \<not> is_json_space c \<and> c \<noteq> CHR '']''"
proof -
  have num: "\<exists>c t. r = c # t \<and> \<not> is_json_space c \<and> c \<noteq> CHR '']''" if "scan_number pf r = Inr (v, [])"
    for r v
    using scan_number_head [OF that] by (auto simp: is_digit_def is_json_space_def)
  show ?thesis
  proof (cases j)
    case (JInt n)
    then show ?thesis using assms num [OF scan_int_str [of n pf]] by simp
  next
    case (JFloat r)
    then show ?thesis using assms num [of r "JFloat r"] by (auto simp: float_ok_def is_json_space_def)
  qed (auto simp: is_json_space_def json_string_def)
qed

lemma dict_set_fresh: "k \<notin> fst ` set kvs \<Longrightarrow> dict_set k v kvs = kvs @ [(k, v)]"
  by (induction kvs) auto

lemma skip_ws_simps [simp]: "skip_ws [] = []" "is_json_space c \<Longrightarrow> skip_ws (c # s) = skip_ws s"
  "\<not> is_json_space c \<Longrightarrow> skip_ws (c # s) = c # s"
  by (simp_all add: skip_ws_def)

lemma json_spaces [simp]: "is_json_space CHR '' ''" "\<not> is_json_space CHR '',''"
  "\<not> is_json_space CHR '']''" "\<not> is_json_space CHR ''}''" "\<not> is_json_space CHR '':''"
  "\<not> is_json_space CHR 0x22"
  by (simp_all add: is_json_space_def)

lemma skip_ws_dumps: "valid_json pf j \<Longrightarrow> skip_ws (json_dumps j @ s) = json_dumps j @ s"
  using dumps_start [of pf j] by auto

text \<open>\<open>reads pf t v\<close>: the text \<open>t\<close>, in front of anything that may follow, is read as \<open>v\<close>.\<close>

definition reads :: "(string \<Rightarrow> string) \<Rightarrow> string \<Rightarrow> json \<Rightarrow> bool" where
  "reads pf t v \<longleftrightarrow> (\<forall>n e. 2 * length t < n \<longrightarrow> value_end e \<longrightarrow> scan_value pf n (t @ e) = Inr (v, e))"

lemma readsD: "reads pf t v \<Longrightarrow> 2 * length t < n \<Longrightarrow> value_end e \<Longrightarrow> scan_value pf n (t @ e) = Inr (v, e)"
  by (simp add: reads_def)

lemma scan_elements_dumps:
  assumes "xs \<noteq> []" and "\<forall>x \<in> set xs. valid_json pf x \<and> reads pf (json_dumps x) x"
    and "2 * length (py_join '', '' (map json_dumps xs)) + 1 < n"
  shows "scan_elements pf n acc (py_join '', '' (map json_dumps xs) @ CHR '']'' # e) =
    Inr (JArr (acc @ xs), e)"
  using assms
proof (induction xs arbitrary: acc n)
  case Nil
  then show ?case by simp
next
  case (Cons x xs)
  obtain m where n: "n = Suc m" using Cons.prems(3) by (cases n) auto
  show ?case
  proof (cases xs)
    case Nil
    then show ?thesis using Cons.prems n by (simp add: scan_elements.simps reads_def next_char_def)
  next
    case (Cons y ys)
    let ?rest = "py_join '', '' (map json_dumps xs) @ CHR '']'' # e"
    have "scan_value pf m (json_dumps x @ CHR '','' # CHR '' '' # ?rest) = Inr (x, CHR '','' # CHR '' '' # ?rest)"
      using Cons.prems n Cons by (simp add: reads_def)
    moreover have "skip_ws (CHR '' '' # ?rest) = ?rest"
      using Cons.prems(2) Cons skip_ws_dumps [of pf y] by (cases ys) simp_all
    moreover have "scan_elements pf m (acc @ [x]) ?rest = Inr (JArr ((acc @ [x]) @ xs), e)"
      using Cons.prems n Cons by (intro Cons.IH) auto
    ultimately show ?thesis using n Cons
      by (simp add: scan_elements.simps next_char_def del: append_assoc skip_ws_simps(2)) simp
  qed
qed

definition json_entry :: "string \<times> json \<Rightarrow> string" where
  "json_entry kv = json_string (fst kv) @ '': '' @ json_dumps (snd kv)"

lemma json_dumps_JObj: "json_dumps (JObj kvs) = ''{'' @ py_join '', '' (map json_entry kvs) @ ''}''"
  by (simp add: json_entry_def [abs_def] case_prod_beta')

lemma scan_member:
  assumes "valid_json pf v" and "reads pf (json_dumps v) v" and "2 * length (json_entry (k, v)) < n"
    and "value_end (d # e)"
  shows "scan_members pf (Suc n) kvs (json_entry (k, v) @ d # e) =
    (if d = CHR ''}'' then Inr (JObj (dict_set k v kvs), e)
     else if d = CHR '','' then scan_members pf n (dict_set k v kvs) (skip_ws e)
     else Inl json_error)"
proof -
  have "scan_value pf n (json_dumps v @ d # e) = Inr (v, d # e)"
    using assms(2-4) by (simp add: reads_def json_entry_def)
  moreover have "\<not> is_json_space d" using assms(4) by (auto simp: value_end_def)
  ultimately show ?thesis
    by (simp add: scan_members.simps next_char_def json_entry_def json_string_def scan_json_string
      skip_ws_dumps [OF assms(1)])
qed

lemma scan_members_dumps:
  assumes "kvs \<noteq> []" and "\<forall>(k, v) \<in> set kvs. valid_json pf v \<and> reads pf (json_dumps v) v"
    and "distinct (map fst acc @ map fst kvs)"
    and "2 * length (py_join '', '' (map json_entry kvs)) + 1 < n"
  shows "scan_members pf n acc (py_join '', '' (map json_entry kvs) @ CHR ''}'' # e) =
    Inr (JObj (acc @ kvs), e)"
  using assms
proof (induction kvs arbitrary: acc n)
  case Nil
  then show ?case by simp
next
  case (Cons kv kvs)
  obtain m where n: "n = Suc m" using Cons.prems(4) by (cases n) auto
  obtain k v where kv: "kv = (k, v)" by fastforce
  have fresh: "dict_set k v acc = acc @ [(k, v)]"
    using Cons.prems(3) kv by (intro dict_set_fresh) auto
  note member = scan_member [of pf v k m _ _ acc]
  show ?case
  proof (cases kvs)
    case Nil
    then show ?thesis using Cons.prems n kv member [of "CHR ''}''" e] by (simp add: fresh)
  next
    case (Cons kv' kvs')
    let ?rest = "py_join '', '' (map json_entry kvs) @ CHR ''}'' # e"
    have "scan_members pf (Suc m) acc (json_entry (k, v) @ CHR '','' # CHR '' '' # ?rest) =
        scan_members pf m (acc @ [(k, v)]) (skip_ws (CHR '' '' # ?rest))"
      using Cons.prems n kv Cons member [of "CHR '',''" "CHR '' '' # ?rest"] by (simp add: fresh)
    moreover have "skip_ws (CHR '' '' # ?rest) = ?rest"
      using Cons by (cases kvs') (simp_all add: json_entry_def json_string_def)
    moreover have "scan_members pf m (acc @ [(k, v)]) ?rest = Inr (JObj ((acc @ [(k, v)]) @ kvs), e)"
      using Cons.prems n kv Cons by (intro Cons.IH) auto
    ultimately show ?thesis using n Cons kv by (simp del: append_assoc skip_ws_simps(2)) simp
  qed
qed

lemma reads_JStr: "reads pf (json_dumps (JStr t)) (JStr t)"
proof (unfold reads_def, intro allI impI)
  fix n e
  assume "2 * length (json_dumps (JStr t)) < n"
  then show "scan_value pf n (json_dumps (JStr t) @ e) = Inr (JStr t, e)"
    by (cases n) (simp_all add: scan_value.simps next_char_def json_string_def scan_json_string)
qed

lemma reads_number: "scan_number pf t = Inr (v, []) \<Longrightarrow> reads pf t v"
  by (auto simp: reads_def scan_number_value dest!: gr0_implies_Suc [OF le_less_trans [OF le0]])

lemma reads_literal: "(t, v) \<in> set literals \<Longrightarrow> reads pf t v"
proof (unfold reads_def, intro allI impI)
  fix n e
  assume "(t, v) \<in> set literals" and "2 * length t < n"
  then show "scan_value pf n (t @ e) = Inr (v, e)"
    by (cases n) (auto simp: scan_value.simps next_char_def literals_def scan_literal_def)
qed

lemma reads_JArr:
  assumes "\<forall>x \<in> set xs. valid_json pf x \<and> reads pf (json_dumps x) x"
  shows "reads pf (json_dumps (JArr xs)) (JArr xs)"
proof (unfold reads_def, intro allI impI)
  fix n e
  assume n: "2 * length (json_dumps (JArr xs)) < n" and "value_end e"
  show "scan_value pf n (json_dumps (JArr xs) @ e) = Inr (JArr xs, e)"
  proof (cases xs)
    case Nil
    then show ?thesis using n by (cases n) (simp_all add: scan_value.simps next_char_def)
  next
    case (Cons x ys)
    obtain m where m: "n = Suc m" using n by (cases n) auto
    obtain c t where c: "json_dumps x = c # t" "\<not> is_json_space c" "c \<noteq> CHR '']''"
      using dumps_start [of pf x] assms Cons by auto
    have "scan_elements pf m [] (py_join '', '' (map json_dumps xs) @ CHR '']'' # e) = Inr (JArr xs, e)"
      using scan_elements_dumps [of xs pf m "[]" e] assms n m Cons by simp
    moreover obtain u where "py_join '', '' (map json_dumps xs) @ CHR '']'' # e = c # u"
      using Cons c(1) by (cases ys) auto
    ultimately show ?thesis using m c(2,3) by (simp add: scan_value.simps next_char_def)
  qed
qed

lemma reads_JObj:
  assumes "\<forall>(k, v) \<in> set kvs. valid_json pf v \<and> reads pf (json_dumps v) v" and "distinct (map fst kvs)"
  shows "reads pf (json_dumps (JObj kvs)) (JObj kvs)"
proof (unfold reads_def json_dumps_JObj, intro allI impI)
  fix n e
  assume n: "2 * length (''{'' @ py_join '', '' (map json_entry kvs) @ ''}'') < n" and "value_end e"
  show "scan_value pf n ((''{'' @ py_join '', '' (map json_entry kvs) @ ''}'') @ e) = Inr (JObj kvs, e)"
  proof (cases kvs)
    case Nil
    then show ?thesis using n by (cases n) (simp_all add: scan_value.simps next_char_def)
  next
    case (Cons kv ys)
    obtain m where m: "n = Suc m" using n by (cases n) auto
    have "scan_members pf m [] (py_join '', '' (map json_entry kvs) @ CHR ''}'' # e) = Inr (JObj kvs, e)"
      using scan_members_dumps [of kvs pf "[]" m e] assms n m Cons by simp
    moreover obtain u where "py_join '', '' (map json_entry kvs) @ CHR ''}'' # e = CHR 0x22 # u"
      using Cons by (cases ys) (auto simp: json_entry_def json_string_def)
    ultimately show ?thesis using m by (simp add: scan_value.simps next_char_def)
  qed
qed

lemma reads_dumps: "valid_json pf j \<Longrightarrow> reads pf (json_dumps j) j"
proof (induction j rule: json_dumps.induct)
  case 1
  show ?case using reads_literal [of "''null''" JNull] by (simp add: literals_def)
next
  case (2 b)
  show ?case using reads_literal [of _ "JBool b"] by (cases b) (simp_all add: literals_def)
next
  case (3 n)
  then show ?case by (simp add: reads_number scan_int_str)
next
  case (4 r)
  then show ?case using reads_literal [of r "JFloat r"]
    by (auto simp: float_ok_def reads_number literals_def)
next
  case (5 t)
  show ?case by (rule reads_JStr)
next
  case (6 xs)
  then show ?case by (intro reads_JArr) (auto simp: list_all_iff)
next
  case (7 kvs)
  then show ?case by (intro reads_JObj) (auto simp: list_all_iff)
qed

lemma json_loads_dumps: "valid_json pf j \<Longrightarrow> json_loads pf (json_dumps j) = Inr j"
proof -
  assume v: "valid_json pf j"
  have "scan_value pf (2 * length (json_dumps j) + 1) (json_dumps j @ []) = Inr (j, [])"
    using reads_dumps [OF v] by (rule readsD) simp_all
  then show ?thesis using skip_ws_dumps [OF v, of "[]"] by (simp add: json_loads_def)
qed

definition json_read :: "(string \<Rightarrow> string) \<Rightarrow> string \<Rightarrow> json option" where
  "json_read pf s = (case json_loads pf s of Inl e \<Rightarrow> None | Inr j \<Rightarrow> Some j)"

interpretation json_text: codec json_dumps "json_read pf" "valid_json pf" for pf
  by unfold_locales (simp add: json_read_def json_loads_dumps)


section \<open>The fuel is enough\<close>

text \<open>\<open>within n r\<close>: a scan that did not run out of fuel and leaves less than \<open>n\<close> characters.\<close>

definition within :: "nat \<Rightarrow> ('a \<times> string) res \<Rightarrow> bool" where
  "within n r \<longleftrightarrow> (case r of Inl e \<Rightarrow> e \<noteq> out_of_fuel | Inr (x, t) \<Rightarrow> length t < n)"

lemma within_errors [simp]: "within n (Inl json_error)" "within n (Inl beyond_latin)"
  "within n (Inl (ValueError m))"
  by (simp_all add: within_def json_error_def beyond_latin_def out_of_fuel_def)

lemma within_Inr [simp]: "within n (Inr (x, t)) \<longleftrightarrow> length t < n"
  by (simp add: within_def)

lemma within_bind:
  "within k m \<Longrightarrow> (\<And>x t. length t < k \<Longrightarrow> within n (f (x, t))) \<Longrightarrow> within n (bind_res m f)"
  by (cases m) (auto simp: within_def)

lemma within_next:
  "(\<And>c r. s = c # r \<Longrightarrow> within n (f c r)) \<Longrightarrow> within n (next_char s f)"
  by (cases s) (simp_all add: next_char_def)

lemma within_mono: "within n r \<Longrightarrow> n \<le> m \<Longrightarrow> within m r"
  by (auto simp: within_def split: sum.splits)

lemma length_skip_ws: "length (skip_ws s) \<le> length s"
  by (simp add: skip_ws_def length_dropWhile_le)

lemma within_chars: "within (length s) (scan_chars s)"
proof (induction s rule: length_induct)
  case (1 s)
  show ?case
  proof (cases s)
    case Nil
    then show ?thesis by simp
  next
    case (Cons c r)
    have sub: "within (Suc (length r)) (bind_res (scan_chars u) (\<lambda>(t, r). Inr (x # t, r)))"
      if "length u \<le> length r" for u x
      using 1 that Cons by (intro within_bind [of "length u"]) auto
    have u_escape: "within (Suc (length r)) (case s1 of
        h1 # h2 # h3 # h4 # s2 \<Rightarrow> (case hex4 h1 h2 h3 h4 of None \<Rightarrow> Inl json_error
          | Some n \<Rightarrow> (if n < 256 then bind_res (scan_chars s2) (\<lambda>(t, r). Inr (char_of n # t, r))
               else Inl beyond_latin))
      | _ \<Rightarrow> Inl json_error)" if "length s1 \<le> length r" for s1
      using that by (auto split: list.split option.split intro!: sub)
    show ?thesis
    proof (cases r)
      case Nil
      then show ?thesis using Cons sub [of r] by simp
    next
      case r: (Cons e s1)
      then show ?thesis using Cons sub [of r] sub [of s1] u_escape [of s1]
        by (cases "e = CHR ''u''")
          (simp_all add: scan_chars.simps(2) [of c "e # s1"] scan_chars.simps(2) [of c "CHR ''u'' # s1"] del: scan_chars.simps(2) split: option.split)
    qed
  qed
qed

lemma within_number: "within (length s) (scan_number pf s)"
proof (cases "int_part (drop (length (num_sign s)) s) = []")
  case True
  then show ?thesis by (simp add: scan_number_def)
next
  case False
  then have "s \<noteq> []" and "0 < length (num_sign s) + length (int_part (drop (length (num_sign s)) s))"
    by (auto simp: num_sign_def int_part_def)
  then have "length (drop (length (num_sign s) + length (int_part (drop (length (num_sign s)) s))) s) < length s"
    by (simp add: length_greater_0_conv [symmetric] del: length_greater_0_conv)
  then have "length (drop k (drop (length (num_sign s)
      + length (int_part (drop (length (num_sign s)) s))) s)) < length s" for k
    by (metis diff_le_self le_less_trans length_drop)
  then show ?thesis using False by (simp add: scan_number_def Let_def del: drop_drop length_drop)
qed

lemma within_literal: "scan_literal s = Some x \<Longrightarrow> within (length s) (Inr x)"
proof -
  assume "scan_literal s = Some x"
  then obtain t v where "(t, v) \<in> set literals" "prefix t s" "x = (v, drop (length t) s)"
    by (auto simp: scan_literal_def dest!: find_mem)
  moreover from this(1) have "t \<noteq> []" by (auto simp: literals_def)
  ultimately show ?thesis by (cases s) auto
qed

lemma scan_within:
  "2 * length s < n \<Longrightarrow> within (length s) (scan_value pf n s)"
  "2 * length s + 1 < n \<Longrightarrow> within (length s) (scan_elements pf n xs s)"
  "2 * length s + 1 < n \<Longrightarrow> within (length s) (scan_members pf n kvs s)"
proof (induction n arbitrary: s xs kvs)
  case 0
  { case 1 then show ?case by simp }
  { case 2 then show ?case by simp }
  { case 3 then show ?case by simp }
next
  case (Suc n)
  { case 1
    show ?case
    proof (cases s)
      case Nil
      then show ?thesis by (simp add: scan_value.simps next_char_def)
    next
      case (Cons c r)
      have r1: "length (d # r1) < length s" if "skip_ws r = d # r1" for d r1
        using that Cons length_skip_ws [of r] by simp
      have elements: "within (length s) (scan_elements pf n [] (d # r1))" if "skip_ws r = d # r1" for d r1
        using r1 [OF that] 1 by (intro within_mono [OF Suc.IH(2)]) auto
      have members: "within (length s) (scan_members pf n [] (d # r1))" if "skip_ws r = d # r1" for d r1
        using r1 [OF that] 1 by (intro within_mono [OF Suc.IH(3)]) auto
      have "within (length s) (next_char (skip_ws r) (\<lambda>d r1.
          if d = CHR '']'' then Inr (JArr [], r1) else scan_elements pf n [] (d # r1)))"
        using elements r1 by (intro within_next) fastforce
      moreover have "within (length s) (next_char (skip_ws r) (\<lambda>d r1.
          if d = CHR ''}'' then Inr (JObj [], r1) else scan_members pf n [] (d # r1)))"
        using members r1 by (intro within_next) fastforce
      moreover have "within (length s) (bind_res (scan_chars r) (\<lambda>(t, r1). Inr (JStr t, r1)))"
        using within_chars [of r] Cons by (intro within_bind [of "length r"]) auto
      moreover have "within (length s) (case scan_literal s of Some x \<Rightarrow> Inr x | None \<Rightarrow> scan_number pf s)"
        using within_literal [of s] within_number [of s pf] by (auto split: option.split)
      moreover have "next_char s f = f c r" for f :: "char \<Rightarrow> string \<Rightarrow> (json \<times> string) res"
        by (simp add: next_char_def Cons)
      ultimately show ?thesis unfolding scan_value.simps by (simp split del: option.split)
    qed }
  { case 2
    have "within (length s) (scan_elements pf n ys (skip_ws t))" if "length t < length s" for ys t
      using that 2 length_skip_ws [of t] Suc.IH(2) [of "skip_ws t" ys] by (auto intro: within_mono)
    moreover have "length r < length s" if "skip_ws t = d # r" "length t < length s" for t d r
      using that length_skip_ws [of t] by simp
    ultimately show ?case
      unfolding scan_elements.simps using Suc.IH(1) [of s] 2
      by (intro within_bind [of "length s"]) (auto intro!: within_next) }
  { case 3
    define k where "k = length s"
    have next_member: "within k (scan_members pf n ys (skip_ws t))" if "length t < k" for ys t
      using that 3 length_skip_ws [of t] within_mono [OF Suc.IH(3) [of "skip_ws t" ys], of k]
      by (simp add: k_def)
    have shorter: "length r < k" if "skip_ws t = d # r" "length t < k" for t d r
      using that length_skip_ws [of t] by simp
    have scanned: "within k (scan_value pf n (skip_ws t))" if "length t < k" for t
      using that 3 length_skip_ws [of t] within_mono [OF Suc.IH(1) [of "skip_ws t"], of k]
      by (simp add: k_def)
    have chars: "within k (scan_chars r)" if "s = c # r" for c r
      using that within_mono [OF within_chars [of r], of k] by (simp add: k_def)
    show ?case
      unfolding scan_members.simps k_def [symmetric]
      by (intro within_next)
        (auto intro!: within_next within_bind [of k] intro: chars; meson shorter next_member scanned) }
qed

lemma json_loads_fuel: "json_loads pf s \<noteq> Inl out_of_fuel"
proof -
  have "2 * length (skip_ws s) < 2 * length s + 1" using length_skip_ws [of s] by simp
  from scan_within(1) [OF this, of pf] show ?thesis
    by (auto simp: json_loads_def within_def bind_res_def json_error_def out_of_fuel_def
      split: sum.splits)
qed

end
