(* ===== verification/Retry.thy ===== *)
theory Retry
  imports Prelude
begin

text \<open>
  The retries of the providers: every one of them runs its request under
  \<^verbatim>\<open>tenacity.AsyncRetrying\<close> with the same waits. \<^verbatim>\<open>tenacity\<close> is a parameter (a \<open>retrier\<close>); what its
  documentation says is the predicate \<open>tenacity\<close>.
\<close>

section \<open>Policies\<close>

text \<open>\<^verbatim>\<open>AsyncRetrying(reraise=True, stop, wait, retry)\<close>; the waits are milliseconds.\<close>

record retry_policy =
  rp_max_attempts :: int
  rp_wait_multiplier :: int
  rp_wait_min :: int
  rp_wait_max :: int
  rp_retryable :: "exc \<Rightarrow> bool"

type_synonym ('w, 'a) retrier = "retry_policy \<Rightarrow> ('w, 'a) prog \<Rightarrow> ('w, 'a) prog"

definition provider_policy :: "int \<Rightarrow> (exc \<Rightarrow> bool) \<Rightarrow> retry_policy" where
  "provider_policy max_retries retryable =
     \<lparr>rp_max_attempts = max_retries, rp_wait_multiplier = 500, rp_wait_min = 500,
      rp_wait_max = 8000, rp_retryable = retryable\<rparr>"

section \<open>What the library documents\<close>

text \<open>
  \<^verbatim>\<open>tenacity\<close> with \<^verbatim>\<open>reraise=True\<close>: at least one attempt and at most \<^verbatim>\<open>max_attempts\<close>, another one
  only after a retryable exception (and a sleep), the outcome of the last one as the outcome.
\<close>

primrec attempts :: "('w \<Rightarrow> 'w) \<Rightarrow> (exc \<Rightarrow> bool) \<Rightarrow> nat \<Rightarrow> ('w, 'a) prog \<Rightarrow> ('w, 'a) prog" where
  "attempts sleep retryable 0 m = m"
| "attempts sleep retryable (Suc k) m = (\<lambda>s. case m s of
     (Inl e, t) \<Rightarrow> (if retryable e then attempts sleep retryable k m (sleep t) else (Inl e, t))
   | (Inr x, t) \<Rightarrow> (Inr x, t))"

definition tenacity :: "('w \<Rightarrow> 'w) \<Rightarrow> ('w, 'a) retrier \<Rightarrow> bool" where
  "tenacity sleep retry \<longleftrightarrow>
     (\<forall>p m. retry p m = attempts sleep (rp_retryable p) (nat (rp_max_attempts p - 1)) m)"

definition raises_only :: "(exc \<Rightarrow> bool) \<Rightarrow> ('w, 'a) prog \<Rightarrow> bool" where
  "raises_only P m \<longleftrightarrow> (\<forall>s e t. m s = (Inl e, t) \<longrightarrow> P e)"

text \<open>The smallest retrier that does so: it does not sleep.\<close>

definition policy_retrier :: "('w, 'a) retrier" where
  "policy_retrier p m = attempts (\<lambda>s. s) (rp_retryable p) (nat (rp_max_attempts p - 1)) m"

lemma policy_retrier_tenacity: "tenacity (\<lambda>s. s) policy_retrier"
  by (simp add: tenacity_def policy_retrier_def fun_eq_iff)

lemma attempts_outcome: "\<exists>s'. attempts sleep R k m s = m s'"
proof (induction k arbitrary: s)
  case 0
  then show ?case by auto
next
  case (Suc k)
  obtain r t where m: "m s = (r, t)" by fastforce
  then have "attempts sleep R (Suc k) m s = m s \<or>
      attempts sleep R (Suc k) m s = attempts sleep R k m (sleep t)" by (cases r) auto
  with Suc.IH [of "sleep t"] show ?case by metis
qed

lemma tenacity_outcome: "tenacity sleep retry \<Longrightarrow> \<exists>s'. retry p m s = m s'"
  by (simp add: tenacity_def attempts_outcome)

lemma attempts_count:
  assumes "\<And>s. count (snd (m s)) \<le> count s + (1 :: nat)" and "\<And>s. count (sleep s) = count s"
  shows "count (snd (attempts sleep R k m s)) \<le> count s + Suc k"
proof (induction k arbitrary: s)
  case 0
  then show ?case using assms(1) [of s] by simp
next
  case (Suc k)
  obtain r t where m: "m s = (r, t)" by fastforce
  have "count t \<le> count s + 1" using assms(1) [of s] m by simp
  then show ?case using m Suc.IH [of "sleep t"] assms(2) [of t] by (cases r) auto
qed

lemma tenacity_count:
  assumes "tenacity sleep retry" and "\<And>s. count (snd (m s)) \<le> count s + (1 :: nat)"
    and "\<And>s. count (sleep s) = count s"
  shows "count (snd (retry pol m s)) \<le> count s + nat (max 1 (rp_max_attempts pol))"
proof -
  have "Suc (nat (k - 1)) = nat (max 1 k)" for k by linarith
  then show ?thesis
    using attempts_count [of count m sleep "rp_retryable pol" "nat (rp_max_attempts pol - 1)" s] assms
    by (simp add: tenacity_def)
qed

lemma tenacity_raises: "tenacity sleep retry \<Longrightarrow> raises_only P m \<Longrightarrow> raises_only P (retry pol m)"
  unfolding raises_only_def by (metis tenacity_outcome)

end
