(* ===== verification/LLM_Providers.thy ===== *)
theory LLM_Providers
  imports LLM_Wire Py_JSON_Thms Retry
begin

text \<open>
  \<^verbatim>\<open>openvoice/llm/providers\<close>: the Anthropic and the OpenAI-compatible provider. The vendors' SDK
  clients are parameters: the requests they make, the exceptions that are their \<^verbatim>\<open>APIError\<close>s and
  the retrier that runs an attempt under a policy (\<open>Retry\<close>).
\<close>

section \<open>Failures\<close>

text \<open>\<^verbatim>\<open>except APIError as exc: raise LLMProviderError(f"...{exc}")\<close>.\<close>

definition provider_error :: "(exc \<Rightarrow> bool) \<Rightarrow> string \<Rightarrow> exc \<Rightarrow> exc" where
  "provider_error api_error said e = (if api_error e then LLMProviderError (said @ exc_str e) else e)"

section \<open>Anthropic\<close>

datatype content_block =
    Text_Block string
  | Tool_Use_Block string string "(string \<times> json) list"
  | Other_Block string

record anthropic_message =
  an_content :: "content_block list"
  an_model :: string
  an_input_tokens :: int
  an_output_tokens :: int

text \<open>
  Entering a stream gives the texts it will yield and the exception that ends it, if one does.
\<close>

record 'w anthropic_provider =
  ap_create :: "json \<Rightarrow> ('w, anthropic_message) prog"
  ap_enter :: "json \<Rightarrow> ('w, string list \<times> exc option) prog"
  ap_exit :: "('w, unit) prog"
  ap_retry_create :: "('w, anthropic_message) retrier"
  ap_retry_enter :: "('w, string list \<times> exc option) retrier"
  ap_api_error :: "exc \<Rightarrow> bool"
  ap_retryable :: "exc \<Rightarrow> bool"
  ap_model :: string
  ap_max_retries :: int

definition anthropic_kwargs ::
  "'w anthropic_provider \<Rightarrow> llm_message list \<Rightarrow> string option \<Rightarrow> int \<Rightarrow> (string \<times> json) list" where
  "anthropic_kwargs p messages system_prompt max_tokens =
     [(''model'', JStr (ap_model p)), (''max_tokens'', JInt max_tokens),
      (''temperature'', JFloat ''0.7''), (''messages'', JArr (to_anthropic_messages messages))]
     @ (case system_prompt of None \<Rightarrow> [] | Some sp \<Rightarrow> [(''system'', JStr sp)])"

definition anthropic_tool :: "tool_definition \<Rightarrow> json" where
  "anthropic_tool t = JObj [(''name'', JStr (td_name t)), (''description'', JStr (td_description t)),
     (''input_schema'', td_parameters t)]"

definition block_text :: "content_block \<Rightarrow> string" where
  "block_text b = (case b of Text_Block t \<Rightarrow> t | _ \<Rightarrow> [])"

definition block_calls :: "content_block \<Rightarrow> tool_call list" where
  "block_calls b = (case b of
     Tool_Use_Block i n args \<Rightarrow> [\<lparr>tc_id = i, tc_name = n, tc_arguments = args\<rparr>] | _ \<Rightarrow> [])"

definition calls_or_none :: "tool_call list \<Rightarrow> tool_call list option" where
  "calls_or_none tcs = (if tcs = [] then None else Some tcs)"

definition anthropic_response :: "anthropic_message \<Rightarrow> llm_response" where
  "anthropic_response m =
     \<lparr>r_content = concat (map block_text (an_content m)), r_model = an_model m,
      r_input_tokens = Some (an_input_tokens m), r_output_tokens = Some (an_output_tokens m),
      r_tool_calls = calls_or_none (concat (map block_calls (an_content m)))\<rparr>"

definition anthropic_generate ::
  "'w anthropic_provider \<Rightarrow> llm_message list \<Rightarrow> string option \<Rightarrow> int \<Rightarrow> tool_definition list option
   \<Rightarrow> ('w, llm_response) prog" where
  "anthropic_generate p messages system_prompt max_tokens tools =
     (let kwargs = JObj (anthropic_kwargs p messages system_prompt max_tokens
            @ (if truthy_list tools then [(''tools'', JArr (map anthropic_tool (the tools)))] else []))
      in bind_prog
           (try_prog (ap_retry_create p (provider_policy (ap_max_retries p) (ap_retryable p))
                (ap_create p kwargs))
              (\<lambda>e. raise (provider_error (ap_api_error p) ''Anthropic API call failed: '' e)))
           (\<lambda>response. ret (anthropic_response response)))"

text \<open>
  The stream is left (\<^verbatim>\<open>finally\<close>) however the iteration ended; an exception of the exit wins.
\<close>

definition anthropic_stream ::
  "'w anthropic_provider \<Rightarrow> llm_message list \<Rightarrow> string option \<Rightarrow> 'w
   \<Rightarrow> (string list \<times> exc option) \<times> 'w" where
  "anthropic_stream p messages system_prompt w =
     (let failed = provider_error (ap_api_error p) ''Anthropic streaming call failed: ''
      in case ap_retry_enter p (provider_policy (ap_max_retries p) (ap_retryable p))
             (ap_enter p (JObj (anthropic_kwargs p messages system_prompt 1024))) w of
           (Inl e, w1) \<Rightarrow> (([], Some (failed e)), w1)
         | (Inr (texts, ended), w1) \<Rightarrow>
             (case ap_exit p w1 of
                (Inl e, w2) \<Rightarrow> ((texts, Some e), w2)
              | (Inr _, w2) \<Rightarrow> ((texts, map_option failed ended), w2)))"

definition anthropic_llm :: "'w anthropic_provider \<Rightarrow> 'w llm_provider" where
  "anthropic_llm p = \<lparr>generate = anthropic_generate p, generate_stream = anthropic_stream p\<rparr>"

section \<open>OpenAI-compatible\<close>

text \<open>What the SDK returns; \<^verbatim>\<open>function\<close> is missing for a custom tool call.\<close>

record raw_function =
  rf_name :: string
  rf_arguments :: "string option"

record raw_tool_call =
  rt_id :: string
  rt_function :: "raw_function option"

record openai_choice =
  oc_content :: "string option"
  oc_tool_calls :: "raw_tool_call list option"

record openai_completion =
  om_choices :: "openai_choice list"
  om_model :: string
  om_usage :: "(int \<times> int) option"

text \<open>A chunk is the content of the deltas of its choices.\<close>

type_synonym openai_chunk = "string option list"

record 'w openai_provider =
  op_create :: "json \<Rightarrow> ('w, openai_completion) prog"
  op_open_stream :: "json \<Rightarrow> ('w, openai_chunk list \<times> exc option) prog"
  op_retry_create :: "('w, openai_completion) retrier"
  op_retry_open :: "('w, openai_chunk list \<times> exc option) retrier"
  op_api_error :: "exc \<Rightarrow> bool"
  op_retryable :: "exc \<Rightarrow> bool"
  op_float_text :: "string \<Rightarrow> string"
  op_model :: string
  op_max_retries :: int

text \<open>
  \<^verbatim>\<open>_parse_tool_calls\<close>: arguments that are not JSON become a marker; arguments that are JSON but
  no object are refused by the validation of \<^verbatim>\<open>ToolCall\<close>.
\<close>

definition parse_arguments :: "(string \<Rightarrow> string) \<Rightarrow> string option \<Rightarrow> json res" where
  "parse_arguments pf arguments =
     (case arguments of
        None \<Rightarrow> Inr (JObj [(''_parse_error'', JNull)])
      | Some s \<Rightarrow>
          (case json_loads pf s of
             Inr j \<Rightarrow> Inr j
           | Inl e \<Rightarrow> (if e = json_error then Inr (JObj [(''_parse_error'', JStr s)]) else Inl e)))"

definition validated_call :: "string \<Rightarrow> string \<Rightarrow> json \<Rightarrow> tool_call res" where
  "validated_call i n j =
     (case j of
        JObj kvs \<Rightarrow> Inr \<lparr>tc_id = i, tc_name = n, tc_arguments = kvs\<rparr>
      | _ \<Rightarrow> Inl (ValidationError ''arguments: Input should be a valid dictionary''))"

fun parse_each :: "(string \<Rightarrow> string) \<Rightarrow> raw_tool_call list \<Rightarrow> tool_call list res" where
  "parse_each pf [] = Inr []"
| "parse_each pf (tc # tcs) =
     (case rt_function tc of
        None \<Rightarrow> parse_each pf tcs
      | Some f \<Rightarrow>
          bind_res (parse_arguments pf (rf_arguments f)) (\<lambda>arguments.
            bind_res (validated_call (rt_id tc) (rf_name f) arguments) (\<lambda>c.
              bind_res (parse_each pf tcs) (\<lambda>cs. Inr (c # cs)))))"

definition parse_tool_calls ::
  "(string \<Rightarrow> string) \<Rightarrow> raw_tool_call list option \<Rightarrow> tool_call list option res" where
  "parse_tool_calls pf raw =
     (if \<not> truthy_list raw then Inr None
      else bind_res (parse_each pf (the raw)) (\<lambda>tcs. Inr (calls_or_none tcs)))"

definition openai_messages :: "llm_message list \<Rightarrow> string option \<Rightarrow> json" where
  "openai_messages messages system_prompt = JArr
     ((case system_prompt of None \<Rightarrow> [] | Some sp \<Rightarrow> [wire_message ''system'' (JStr sp)])
      @ to_openai_messages messages)"

definition openai_kwargs ::
  "'w openai_provider \<Rightarrow> llm_message list \<Rightarrow> string option \<Rightarrow> int \<Rightarrow> (string \<times> json) list" where
  "openai_kwargs p messages system_prompt max_tokens =
     [(''model'', JStr (op_model p)), (''messages'', openai_messages messages system_prompt),
      (''temperature'', JFloat ''0.7''), (''max_tokens'', JInt max_tokens)]"

definition openai_tool :: "tool_definition \<Rightarrow> json" where
  "openai_tool t = JObj [(''type'', JStr ''function''), (''function'', JObj
     [(''name'', JStr (td_name t)), (''description'', JStr (td_description t)),
      (''parameters'', td_parameters t)])]"

definition openai_response :: "(string \<Rightarrow> string) \<Rightarrow> openai_completion \<Rightarrow> llm_response res" where
  "openai_response pf m =
     bind_res (py_index (om_choices m) 0) (\<lambda>choice.
       bind_res (parse_tool_calls pf (oc_tool_calls choice)) (\<lambda>calls.
         Inr \<lparr>r_content = (case oc_content choice of None \<Rightarrow> [] | Some t \<Rightarrow> t),
              r_model = om_model m, r_input_tokens = map_option fst (om_usage m),
              r_output_tokens = map_option snd (om_usage m), r_tool_calls = calls\<rparr>))"

definition openai_generate ::
  "'w openai_provider \<Rightarrow> llm_message list \<Rightarrow> string option \<Rightarrow> int \<Rightarrow> tool_definition list option
   \<Rightarrow> ('w, llm_response) prog" where
  "openai_generate p messages system_prompt max_tokens tools =
     (let kwargs = JObj (openai_kwargs p messages system_prompt max_tokens
            @ (if truthy_list tools then [(''tools'', JArr (map openai_tool (the tools)))] else []))
      in bind_prog
           (try_prog (op_retry_create p (provider_policy (op_max_retries p) (op_retryable p))
                (op_create p kwargs))
              (\<lambda>e. raise (provider_error (op_api_error p) ''OpenAI-compatible API call failed: '' e)))
           (\<lambda>response. lift_res (openai_response (op_float_text p) response)))"

text \<open>Chunks without choices, and empty deltas, are skipped.\<close>

definition chunk_delta :: "openai_chunk \<Rightarrow> string list" where
  "chunk_delta ck = (case ck of Some t # _ \<Rightarrow> (if t = [] then [] else [t]) | _ \<Rightarrow> [])"

definition openai_stream ::
  "'w openai_provider \<Rightarrow> llm_message list \<Rightarrow> string option \<Rightarrow> 'w
   \<Rightarrow> (string list \<times> exc option) \<times> 'w" where
  "openai_stream p messages system_prompt w =
     (let failed = provider_error (op_api_error p) ''OpenAI-compatible streaming call failed: ''
      in case op_retry_open p (provider_policy (op_max_retries p) (op_retryable p))
             (op_open_stream p (JObj (openai_kwargs p messages system_prompt 1024
                @ [(''stream'', JBool True)]))) w of
           (Inl e, w1) \<Rightarrow> (([], Some (failed e)), w1)
         | (Inr (chunks, ended), w1) \<Rightarrow>
             ((concat (map chunk_delta chunks), map_option failed ended), w1))"

definition openai_llm :: "'w openai_provider \<Rightarrow> 'w llm_provider" where
  "openai_llm p = \<lparr>generate = openai_generate p, generate_stream = openai_stream p\<rparr>"

end
