(* ===== verification/LLM_Wire_Thms.thy ===== *)
theory LLM_Wire_Thms
  imports LLM_Wire Conversation_Thms
begin

text \<open>
  Every request of every reachable conversation is one that both services accept: pieces of a
  history whose requests are answered within the piece (\<open>closed_piece\<close>) are closed under
  concatenation, and the turns of \<open>Conversation_Props\<close> are such pieces.
\<close>

section \<open>Translating piece by piece\<close>

definition tool_free_start :: "llm_message list \<Rightarrow> bool" where
  "tool_free_start h \<longleftrightarrow> h = [] \<or> \<not> is_tool (hd h)"

lemma takeWhile_tool_free: "tool_free_start ys \<Longrightarrow> takeWhile is_tool (xs @ ys) = takeWhile is_tool xs"
  by (induction xs) (cases ys; auto simp: tool_free_start_def)+

lemma dropWhile_tool_free:
  "tool_free_start ys \<Longrightarrow> dropWhile is_tool (xs @ ys) = dropWhile is_tool xs @ ys"
  by (induction xs) (cases ys; auto simp: tool_free_start_def)+

lemma to_anthropic_append:
  "tool_free_start ys \<Longrightarrow>
   to_anthropic_messages (xs @ ys) = to_anthropic_messages xs @ to_anthropic_messages ys"
  by (induction xs rule: to_anthropic_messages.induct)
    (simp_all add: to_anthropic_messages.simps(2) takeWhile_tool_free dropWhile_tool_free)

lemma anthropic_paired_append:
  "anthropic_paired due xs \<Longrightarrow> anthropic_paired [] ys \<Longrightarrow> anthropic_paired due (xs @ ys)"
  by (induction due xs rule: anthropic_paired.induct) auto

lemma openai_paired_append:
  "openai_paired due xs \<Longrightarrow> openai_paired [] ys \<Longrightarrow> openai_paired due (xs @ ys)"
  by (induction due xs rule: openai_paired.induct) (auto split: list.splits)

definition closed_piece :: "llm_message list \<Rightarrow> bool" where
  "closed_piece h \<longleftrightarrow> tool_free_start h \<and> anthropic_paired [] (to_anthropic_messages h) \<and>
     openai_paired [] (to_openai_messages h)"

lemma closed_piece_Nil [simp]: "closed_piece []"
  by (simp add: closed_piece_def tool_free_start_def to_openai_messages_def)

lemma closed_piece_append:
  assumes "closed_piece xs" and "closed_piece ys"
  shows "closed_piece (xs @ ys)"
proof -
  have "anthropic_paired [] (to_anthropic_messages (xs @ ys))"
    using assms by (simp add: closed_piece_def to_anthropic_append anthropic_paired_append)
  moreover have "tool_free_start (xs @ ys)"
    using assms by (cases xs) (auto simp: closed_piece_def tool_free_start_def)
  ultimately show ?thesis
    using assms by (simp add: closed_piece_def to_openai_messages_def openai_paired_append)
qed

lemma closed_piece_concat: "\<forall>x \<in> set xs. closed_piece x \<Longrightarrow> closed_piece (concat xs)"
  by (induction xs) (simp_all add: closed_piece_append)

section \<open>The messages of a turn\<close>

lemma answered_results:
  "answered (wire_message ''user'' (JArr (map tool_result_block rs))) =
     map (\<lambda>r. Some (str_or_null (m_tool_call_id r))) rs"
  by (induction rs)
    (simp_all add: answered_def block_ids_def wire_message_def array_of_def tool_result_block_def)

lemma requested_results: "requested (wire_message r (JArr (map tool_result_block rs))) = []"
  by (induction rs)
    (simp_all add: requested_def block_ids_def wire_message_def array_of_def tool_result_block_def)

lemma requested_uses:
  "requested (wire_message r (JArr ((if t \<noteq> [] then [text_block t] else []) @ map tool_use_block tcs))) =
     map (\<lambda>tc. Some (JStr (tc_id tc))) tcs"
  by (induction tcs)
    (simp_all add: requested_def block_ids_def wire_message_def array_of_def tool_use_block_def
      text_block_def)

lemma answered_uses:
  "answered (wire_message r (JArr ((if t \<noteq> [] then [text_block t] else []) @ map tool_use_block tcs))) = []"
  by (induction tcs)
    (simp_all add: answered_def block_ids_def wire_message_def array_of_def tool_use_block_def
      text_block_def)

lemma text_wire [simp]:
  "requested (wire_message r (JStr t)) = []" "answered (wire_message r (JStr t)) = []"
  "openai_requested (wire_message r (JStr t)) = []"
  "member ''role'' (wire_message r (JStr t)) = Some (JStr r)"
  by (simp_all add: requested_def answered_def block_ids_def wire_message_def array_of_def
    openai_requested_def)

lemma plain_piece:
  assumes "m_role m \<noteq> TOOL" and "m_tool_calls m = None"
  shows "closed_piece [m]"
proof -
  have "to_anthropic_messages [m] = [wire_message (role_value (m_role m)) (JStr (m_content m))]"
    "to_openai_messages [m] = [wire_message (role_value (m_role m)) (JStr (m_content m))]"
    using assms by (simp_all add: to_anthropic_messages.simps(2) is_tool_def to_openai_messages_def
      openai_message_def)
  moreover have "role_value (m_role m) \<noteq> ''tool''" using assms(1) by (cases "m_role m") auto
  ultimately show ?thesis
    using assms(1) by (simp add: closed_piece_def tool_free_start_def is_tool_def)
qed

lemma openai_results:
  "list_all2 answers tcs rs \<Longrightarrow>
   openai_paired (map (\<lambda>tc. Some (JStr (tc_id tc))) tcs) (map openai_message rs)"
  by (induction rule: list_all2_induct)
    (simp_all add: openai_message_def answers_def str_or_null_def)

lemma answers_is_tool: "list_all2 answers tcs rs \<Longrightarrow> \<forall>r \<in> set rs. is_tool r"
  by (induction rule: list_all2_induct) (simp_all add: answers_def is_tool_def)

lemma answers_ids: "list_all2 answers tcs rs \<Longrightarrow>
    map (\<lambda>r. Some (str_or_null (m_tool_call_id r))) rs = map (\<lambda>tc. Some (JStr (tc_id tc))) tcs"
  by (induction rule: list_all2_induct) (simp_all add: answers_def str_or_null_def)

lemma round_piece:
  assumes "m_role a = ASSISTANT" and "m_tool_calls a = Some tcs" and "tcs \<noteq> []"
    and "list_all2 answers tcs rs"
  shows "closed_piece (a # rs)"
proof -
  have tools: "\<forall>r \<in> set rs. is_tool r" using assms(4) by (rule answers_is_tool)
  obtain r rs' where rs: "rs = r # rs'" using assms(3,4) by (cases rs) auto
  have "to_anthropic_messages rs = [wire_message ''user'' (JArr (map tool_result_block rs))]"
    using tools by (simp add: rs to_anthropic_messages.simps(2) takeWhile_eq_all_conv [THEN iffD2]
      dropWhile_eq_Nil_conv [THEN iffD2])
  moreover have "to_anthropic_messages (a # rs) =
      wire_message ''assistant'' (JArr ((if m_content a \<noteq> [] then [text_block (m_content a)] else [])
        @ map tool_use_block tcs)) # to_anthropic_messages rs"
    using assms(1-3) by (simp add: to_anthropic_messages.simps(2) is_tool_def)
  ultimately have "anthropic_paired [] (to_anthropic_messages (a # rs))"
    by (simp add: answered_uses requested_uses answered_results requested_results
      answers_ids [OF assms(4)] del: if_not_P)
  moreover have "openai_paired [] (to_openai_messages (a # rs))"
    using assms openai_results [OF assms(4)]
    by (simp add: to_openai_messages_def openai_message_def [of a] openai_requested_def array_of_def
      openai_tool_call_def comp_def)
  ultimately show ?thesis
    using assms(1) by (simp add: closed_piece_def tool_free_start_def is_tool_def)
qed

lemma tool_rounds_piece: "tool_rounds h \<Longrightarrow> closed_piece h"
  by (induction rule: tool_rounds.induct) (auto intro: closed_piece_append round_piece)

lemma open_turn_piece: "open_turn t \<Longrightarrow> closed_piece t"
  using closed_piece_append [OF plain_piece tool_rounds_piece] by (fastforce simp: open_turn_def)

lemma turn_piece: "is_turn t \<Longrightarrow> closed_piece t"
  using closed_piece_append [OF open_turn_piece plain_piece]
  by (fastforce simp: is_turn_def complete_turn_def final_reply_def open_turn_piece)


section \<open>Whole histories\<close>

lemma user_starts:
  "m_role u = USER \<Longrightarrow> starts_with_user (to_anthropic_messages (u # h))"
  "m_role u = USER \<Longrightarrow> starts_with_user (to_openai_messages (u # h))"
  by (simp_all add: to_anthropic_messages.simps(2) is_tool_def starts_with_user_def
    to_openai_messages_def openai_message_def)

text \<open>No message that goes out as a text is empty.\<close>

definition spoken_message :: "llm_message \<Rightarrow> bool" where
  "spoken_message m \<longleftrightarrow>
     is_tool m \<or> m_role m = ASSISTANT \<and> truthy_list (m_tool_calls m) \<or> m_content m \<noteq> []"

definition says_something :: "llm_message list \<Rightarrow> bool" where
  "says_something h \<longleftrightarrow> list_all spoken_message h"

lemma says_something_simps [simp]:
  "says_something []" "says_something (m # h) \<longleftrightarrow> spoken_message m \<and> says_something h"
  "says_something (h @ h') \<longleftrightarrow> says_something h \<and> says_something h'"
  by (simp_all add: says_something_def)

lemma results_given: "rs \<noteq> [] \<Longrightarrow> content_given (wire_message r (JArr (map tool_result_block rs)))"
  by (simp add: content_given_def wire_message_def list_all_iff block_given_def tool_result_block_def)

lemma uses_given:
  "tcs \<noteq> [] \<Longrightarrow>
   content_given (wire_message r (JArr ((if t \<noteq> [] then [text_block t] else []) @ map tool_use_block tcs)))"
  by (auto simp: content_given_def wire_message_def list_all_iff block_given_def tool_use_block_def text_block_def)

lemma anthropic_given: "says_something h \<Longrightarrow> list_all content_given (to_anthropic_messages h)"
proof (induction h rule: to_anthropic_messages.induct)
  case 1
  then show ?case by simp
next
  case (2 m ms)
  have rest: "says_something (dropWhile is_tool ms)"
    using "2.prems" by (auto simp: says_something_def list_all_iff dest: set_dropWhileD)
  consider "is_tool m" | "\<not> is_tool m" "m_role m = ASSISTANT \<and> truthy_list (m_tool_calls m)"
    | "\<not> is_tool m" "\<not> (m_role m = ASSISTANT \<and> truthy_list (m_tool_calls m))" by blast
  then show ?case
  proof cases
    case 1
    then show ?thesis
      using "2.IH"(1) rest results_given [of "m # takeWhile is_tool ms" "''user''"]
      by (simp add: to_anthropic_messages.simps(2))
  next
    case 2
    then obtain tcs where "m_tool_calls m = Some tcs" "tcs \<noteq> []" by (cases "m_tool_calls m") auto
    then show ?thesis
      using 2 "2.IH"(2) "2.prems" uses_given [of tcs "''assistant''" "m_content m"]
      by (simp add: to_anthropic_messages.simps(2))
  next
    case 3
    then show ?thesis
      using "2.IH"(3) "2.prems"
      by (auto simp: to_anthropic_messages.simps(2) spoken_message_def content_given_def wire_message_def)
  qed
qed

lemma openai_given: "list_all openai_content_given (to_openai_messages h)"
  by (auto simp: list_all_iff to_openai_messages_def openai_message_def openai_content_given_def wire_message_def
      openai_requested_def array_of_def truthy_list_def split: option.splits)

lemma history_wire_ok:
  assumes "history_ok h" and "h \<noteq> []" and "says_something h"
  shows "wire_ok h"
proof -
  from assms(1) obtain ts where h: "h = concat ts" and ts: "\<forall>t \<in> set ts. is_turn t"
    by (auto simp: history_ok_def turns_of_def)
  then have "closed_piece h" by (auto intro: closed_piece_concat turn_piece)
  moreover from assms(2) h obtain t ts' where "ts = t # ts'" by (cases ts) auto
  with ts h obtain u r where "h = u # r" "m_role u = USER" using turn_shape [of t] by auto
  ultimately show ?thesis
    using assms(3) by (simp add: wire_ok_def closed_piece_def user_starts anthropic_given openai_given)
qed

lemma results_spoken: "list_all2 answers tcs rs \<Longrightarrow> says_something rs"
  by (induction rule: list_all2_induct) (simp_all add: spoken_message_def answers_def is_tool_def)

lemma run_tools_spoken:
  assumes "says_something (cs_history s)"
  shows "says_something (cs_history (run_tools c tcs s))"
proof -
  obtain rs where "cs_history (run_tools c tcs s) = cs_history s @ rs" "list_all2 answers tcs rs"
    using run_tools_history by blast
  with assms show ?thesis by (simp add: results_spoken)
qed

lemma request_spoken: "truthy_list tcs \<Longrightarrow> spoken_message (tool_request_message text tcs)"
  by (simp add: spoken_message_def tool_request_message_def)

text \<open>
  A provider that rejects every history that does not meet \<open>P\<close>, with an exception that no handler
  of the conversation catches.
\<close>

definition strict :: "(llm_message list \<Rightarrow> bool) \<Rightarrow> 'w llm_provider \<Rightarrow> 'w llm_provider" where
  "strict P p =
     \<lparr>generate = (\<lambda>h sp mt tls w. if P h then generate p h sp mt tls w
        else (Inl (OtherError ''BadRequestError'' []), w)),
      generate_stream = (\<lambda>h sp w. if P h then generate_stream p h sp w
        else (([], Some (OtherError ''BadRequestError'' [])), w))\<rparr>"

abbreviation with_strict :: "(llm_message list \<Rightarrow> bool) \<Rightarrow> 'w conv_config \<Rightarrow> 'w conv_config" where
  "with_strict P c \<equiv> c\<lparr>cc_llm := strict P (cc_llm c)\<rparr>"

lemma strict_fields:
  "P h \<Longrightarrow> generate (strict P p) h = generate p h"
  "P h \<Longrightarrow> generate_stream (strict P p) h = generate_stream p h"
  by (simp_all add: strict_def)

lemma run_tools_strict [simp]: "run_tools (with_strict P c) tcs s = run_tools c tcs s"
  by (induction tcs arbitrary: s) (simp_all add: run_tools_Cons execute_tool_def)

lemma finish_turn_strict [simp]: "finish_turn (with_strict P c) = finish_turn c"
  by (simp add: finish_turn_def fun_eq_iff)

lemma call_limit_strict [simp]: "call_limit_reached (with_strict P c) = call_limit_reached c"
  by (simp add: call_limit_reached_def fun_eq_iff Let_def split: option.split)

lemma tool_loop_strict:
  assumes "\<And>t. open_turn t \<Longrightarrow> says_something (h @ t) \<Longrightarrow> P (h @ t)"
    and "open_turn t" and "cs_history s = h @ t" and "says_something (h @ t)"
  shows "tool_loop (with_strict P c) k n s = tool_loop c k n s"
  using assms(2-4)
proof (induction n arbitrary: s t)
  case 0
  then show ?case by simp
next
  case (Suc n)
  have g: "generate (strict P (cc_llm c)) (cs_history s) = generate (cc_llm c) (cs_history s)"
    using assms(1) Suc.prems by (simp add: strict_fields)
  have "tool_loop (with_strict P c) k n (run_tools c (the calls) (s\<lparr>cs_world := w,
      cs_history := cs_history s @ [tool_request_message said calls]\<rparr>)) =
    tool_loop c k n (run_tools c (the calls) (s\<lparr>cs_world := w,
      cs_history := cs_history s @ [tool_request_message said calls]\<rparr>))"
    if calls: "truthy_list calls" for calls said w
  proof -
    let ?s = "s\<lparr>cs_world := w, cs_history := cs_history s @ [tool_request_message said calls]\<rparr>"
    have "cs_history ?s = h @ t @ [tool_request_message said calls]" using Suc.prems by simp
    then obtain t' where t': "open_turn t'" "cs_history (run_tools c (the calls) ?s) = h @ t'"
      by (rule run_tools_open_turn [OF Suc.prems(1) calls])
    have "says_something (cs_history ?s)" using Suc.prems calls by (simp add: request_spoken)
    then have "says_something (h @ t')" unfolding t'(2) [symmetric] by (rule run_tools_spoken)
    with t' show ?thesis by (rule Suc.IH)
  qed
  then show ?case by (simp add: g split: prod.split sum.split exc.split)
qed

lemma reach_open_turn:
  assumes "history_ok h" and "open_turn t" and "says_something (h @ t)"
  shows "wire_ok (h @ t)"
proof -
  from assms(1) obtain ts where "turns_of h ts" by (auto simp: history_ok_def)
  from turns_of_append [OF this, of t] assms(2) have "history_ok (h @ t)"
    by (auto simp: history_ok_def is_turn_def)
  moreover have "t \<noteq> []" using assms(2) by (auto simp: open_turn_def)
  ultimately show ?thesis using assms(3) by (simp add: history_wire_ok)
qed

lemma user_spoken: "spoken_message (text_message USER x) \<longleftrightarrow> x \<noteq> []"
  by (simp add: spoken_message_def is_tool_def)

lemma handle_utterance_strict:
  assumes "history_ok (cs_history s)" and "says_something (cs_history s)" and "x \<noteq> []"
  shows "handle_utterance (with_strict wire_ok c) x s = handle_utterance c x s"
  using tool_loop_strict [of "cs_history s" wire_ok "[text_message USER x]" "begin_turn x s" c
      "length (cs_history s)" "nat (cc_max_tool_iterations c)", OF reach_open_turn [OF assms(1)] open_turn_user] assms(2,3)
  by (simp add: handle_utterance_def user_spoken)

text \<open>A turn leaves an empty message only if its reply is empty.\<close>

lemma trim_spoken:
  assumes "trim_history k h = Inr h'" and "says_something h"
  shows "says_something h'"
proof -
  have "set h' \<subseteq> set h"
    using assms(1) by (auto simp: trim_history_def Let_def bind_res_Inr split: if_splits dest: in_set_dropD)
  with assms(2) show ?thesis by (auto simp: says_something_def list_all_iff)
qed

lemma finish_turn_spoken:
  assumes "finish_turn c text i s = (Inr r, s')" and "says_something (cs_history s)" and "reply_text r \<noteq> []"
  shows "says_something (cs_history s')"
  using assms trim_spoken
  by (auto simp: finish_turn_def Let_def mk_reply_def spoken_message_def split: sum.splits)

lemma drop_turn_spoken: "says_something (cs_history s) \<Longrightarrow> says_something (take n (cs_history s))"
  by (auto simp: says_something_def list_all_iff dest: in_set_takeD)

lemma tool_loop_spoken:
  "tool_loop c k n s = (Inr r, s') \<Longrightarrow> says_something (cs_history s) \<Longrightarrow> reply_text r \<noteq> [] \<Longrightarrow>
   says_something (cs_history s')"
proof (induction n arbitrary: s)
  case 0
  then show ?case by (auto simp: drop_turn_def drop_turn_spoken)
next
  case (Suc n)
  obtain q w where g: "generate (cc_llm c) (cs_history s) (Some (cc_system_prompt c)) 1024
      (cc_tools c) (cs_world s) = (q, w)" by fastforce
  show ?case
  proof (cases q)
    case (Inl e)
    with g Suc.prems show ?thesis by (cases e) (auto simp: drop_turn_def drop_turn_spoken)
  next
    case (Inr resp)
    show ?thesis
    proof (cases "truthy_list (r_tool_calls resp)")
      case True
      have "says_something (cs_history (after_request resp w s))"
        using Suc.prems(2) True by (simp add: request_spoken)
      with Suc.IH [OF _ run_tools_spoken] g Inr True Suc.prems show ?thesis by simp
    next
      case False
      with g Inr Suc.prems show ?thesis by (auto split: prod.splits intro: finish_turn_spoken)
    qed
  qed
qed

lemma utterance_spoken:
  assumes "handle_utterance c x s = (Inr r, s')" and "says_something (cs_history s)" and "x \<noteq> []"
    and "reply_text r \<noteq> []"
  shows "says_something (cs_history s')"
  using assms tool_loop_spoken [of c _ _ "begin_turn x s" r s']
  by (auto simp: handle_utterance_def user_spoken split: if_splits)

section \<open>Properties\<close>

text \<open>
  (C19) Every request that a conversation makes, in every round of the tool loop and streamed or not,
  keeps the documented rules of both services for a list of messages: it begins with the caller, every
  tool request is answered by exactly its results where the service demands them, and no message is
  empty; a provider that rejects all other requests makes no difference to the turn. This holds in
  every state that the conversation reaches, as long as no tool was cut off while it was executing
  and the caller and the agent have never said the empty text; a turn leaves such a text only
  if its own reply is empty.
\<close>

theorem every_request_is_well_formed:
  assumes "conv_reach c False s" and "says_something (cs_history s)" and "x \<noteq> []"
  shows "handle_utterance (with_strict wire_ok c) x s = handle_utterance c x s \<and>
    handle_utterance_stream (with_strict wire_ok c) x s = handle_utterance_stream c x s \<and>
    (\<forall>r s'. handle_utterance c x s = (Inr r, s') \<and> reply_text r \<noteq> [] \<longrightarrow> says_something (cs_history s'))"
proof -
  have ok: "history_ok (cs_history s)" using assms(1) by (rule conv_reach_ok)
  have "wire_ok (cs_history s @ [text_message USER x])"
    using reach_open_turn [OF ok open_turn_user] assms(2,3) by (simp add: user_spoken)
  then have "handle_utterance_stream (with_strict wire_ok c) x s = handle_utterance_stream c x s"
    using handle_utterance_strict [OF ok assms(2,3), of c]
    unfolding handle_utterance_stream_def finish_turn_strict call_limit_strict
    by (simp add: strict_fields Let_def)
  then show ?thesis
    using handle_utterance_strict [OF ok assms(2,3)] utterance_spoken [OF _ assms(2,3)] by blast
qed

theorem every_request_is_well_formed_witness:
  "handle_utterance (with_strict wire_ok (script_config True 5)) ''hi''
     (script_state [script_response [] (Some [script_call]), script_response ''ok'' None]) =
   handle_utterance (script_config True 5) ''hi''
     (script_state [script_response [] (Some [script_call]), script_response ''ok'' None])"
  using every_request_is_well_formed [OF script_reach, of _ "''hi''"] by (simp add: script_state_def)

text \<open>
  The two provisos are needed. A cut-off tool breaks the pairing
  as \<open>Conversation_Thms\<close> shows, and a streamed completion that is only a marker
  leaves an empty reply, after which Anthropic takes no request.
\<close>

definition silent_state :: "llm_response list conv_state" where
  "silent_state = snd (handle_utterance_stream (script_config False 5) ''hi''
     (script_state [script_response (intent_marker @ ''general'') None]))"

lemma empty_reply_is_refused: "\<not> wire_ok (cs_history (begin_turn ''so'' silent_state))"
  by code_simp

end
