(* ===== verification/LLM_Providers_Thms.thy ===== *)
theory LLM_Providers_Thms
  imports LLM_Providers LLM_Wire_Thms
begin

text \<open>
  The providers against the interface that the conversation relies on: which exceptions leave
  them, how many requests they make, and that a tool call goes to the service and back unchanged.
\<close>

section \<open>What the libraries document\<close>

text \<open>The Anthropic SDK fails with its \<^verbatim>\<open>APIError\<close>s only, and leaving a stream does not fail.\<close>

definition anthropic_sdk_ok :: "'w anthropic_provider \<Rightarrow> bool" where
  "anthropic_sdk_ok p \<longleftrightarrow>
     (\<forall>kw. raises_only (ap_api_error p) (ap_create p kw)) \<and>
     (\<forall>kw. raises_only (ap_api_error p) (ap_enter p kw)) \<and>
     (\<forall>kw s texts e t. ap_enter p kw s = (Inr (texts, Some e), t) \<longrightarrow> ap_api_error p e) \<and>
     raises_only (\<lambda>_. False) (ap_exit p)"

lemma provider_error_shape: "api e \<Longrightarrow> \<exists>m. provider_error api said e = LLMProviderError m"
  by (simp add: provider_error_def)

lemma anthropic_generate_raises:
  assumes "anthropic_sdk_ok p" and "tenacity sleep (ap_retry_create p)"
    and "anthropic_generate p h sp mt tls w = (Inl e, w')"
  shows "\<exists>m. e = LLMProviderError m"
proof -
  have "\<exists>m. e = LLMProviderError m"
    if r: "ap_retry_create p pol (ap_create p kw) w = (Inl x, t)"
      and e: "e = provider_error (ap_api_error p) said x" for pol kw x t said
  proof -
    obtain s' where "ap_create p kw s' = (Inl x, t)" using tenacity_outcome [OF assms(2)] r by metis
    then have "ap_api_error p x"
      using assms(1) by (auto simp: anthropic_sdk_ok_def raises_only_def)
    with e show ?thesis by (simp add: provider_error_shape)
  qed
  then show ?thesis using assms(3)
    by (auto simp: anthropic_generate_def Let_def bind_prog_apply try_prog_apply
      split: prod.splits sum.splits)
qed

lemma anthropic_stream_raises:
  assumes "anthropic_sdk_ok p" and "tenacity sleep (ap_retry_enter p)"
    and "anthropic_stream p h sp w = ((ds, Some e), w')"
  shows "\<exists>m. e = LLMProviderError m"
proof -
  define kw where "kw = JObj (anthropic_kwargs p h sp 1024)"
  define pol where "pol = provider_policy (ap_max_retries p) (ap_retryable p)"
  obtain r w1 where r: "ap_retry_enter p pol (ap_enter p kw) w = (r, w1)" by fastforce
  obtain s' where s': "ap_enter p kw s' = (r, w1)" using tenacity_outcome [OF assms(2)] r by metis
  have exit: "ap_exit p w1 \<noteq> (Inl x, t)" for x t
    using assms(1) by (auto simp: anthropic_sdk_ok_def raises_only_def)
  show ?thesis
  proof (cases r)
    case (Inl x)
    then have "ap_api_error p x" using assms(1) s' unfolding anthropic_sdk_ok_def raises_only_def by blast
    then show ?thesis using assms(3) r Inl
      by (auto simp: anthropic_stream_def Let_def provider_error_shape simp flip: kw_def pol_def)
  next
    case (Inr y)
    obtain texts ended where y: "y = (texts, ended)" by fastforce
    obtain u w2 where "ap_exit p w1 = (Inr u, w2)" using exit by (metis prod.collapse sum.exhaust_sel)
    then have "map_option (provider_error (ap_api_error p) ''Anthropic streaming call failed: '') ended = Some e"
      using assms(3) r Inr y by (auto simp: anthropic_stream_def Let_def simp flip: kw_def pol_def)
    moreover have "ap_api_error p x" if "ended = Some x" for x
      using assms(1) s' unfolding Inr y that anthropic_sdk_ok_def by blast
    ultimately show ?thesis by (auto simp: provider_error_shape)
  qed
qed

section \<open>SDKs for the concrete runs\<close>

text \<open>The world is the list of outcomes still to come; an empty one is a service that is down.\<close>

definition down :: exc where "down = OtherError ''APIConnectionError'' ''Connection error.''"

definition scripted :: "json \<Rightarrow> ('a option list, 'a) prog" where
  "scripted kw s = (case s of Some x # t \<Rightarrow> (Inr x, t) | None # t \<Rightarrow> (Inl down, t) | [] \<Rightarrow> (Inl down, []))"

definition scripted_anthropic :: "anthropic_message option list anthropic_provider" where
  "scripted_anthropic =
     \<lparr>ap_create = scripted, ap_enter = (\<lambda>kw. raise down), ap_exit = ret (),
      ap_retry_create = policy_retrier, ap_retry_enter = policy_retrier,
      ap_api_error = (\<lambda>e. e = down), ap_retryable = (\<lambda>e. e = down),
      ap_model = ''m'', ap_max_retries = 3\<rparr>"

definition scripted_openai :: "openai_completion option list openai_provider" where
  "scripted_openai =
     \<lparr>op_create = scripted, op_open_stream = (\<lambda>kw. raise down),
      op_retry_create = policy_retrier, op_retry_open = policy_retrier,
      op_api_error = (\<lambda>e. e = down), op_retryable = (\<lambda>e. e = down),
      op_float_text = (\<lambda>t. t), op_model = ''m'', op_max_retries = 3\<rparr>"

lemma scripted_anthropic_ok: "anthropic_sdk_ok scripted_anthropic"
  by (auto simp: anthropic_sdk_ok_def raises_only_def scripted_anthropic_def scripted_def
    split: list.splits option.splits)

section \<open>Properties\<close>

text \<open>
  (C20) A call that is served by Claude never breaks: if the SDK fails only with its own errors and
  the retrier keeps its contract, every utterance gets a reply and no streamed reply raises,
  whatever the tools do.
\<close>

theorem anthropic_call_never_raises:
  assumes "cc_llm c = anthropic_llm p" and "anthropic_sdk_ok p"
    and "tenacity sleep (ap_retry_create p)" and "tenacity sleep (ap_retry_enter p)"
    and "0 \<le> cc_max_history_turns c"
  shows "(\<exists>r. fst (handle_utterance c x s) = Inr r) \<and> snd (fst (handle_utterance_stream c x s)) = None"
proof
  have g: "\<exists>m. e = LLMProviderError m" if "generate (cc_llm c) h sp mt tls w = (Inl e, w')"
    for h sp mt tls w e w'
    using that anthropic_generate_raises [OF assms(2,3)] by (simp add: assms(1) anthropic_llm_def)
  have st: "\<exists>m. e = LLMProviderError m" if "generate_stream (cc_llm c) h sp w = ((ds, Some e), w')"
    for h sp w ds e w'
    using that anthropic_stream_raises [OF assms(2,4)] by (simp add: assms(1) anthropic_llm_def)
  show "\<exists>r. fst (handle_utterance c x s) = Inr r"
    by (rule utterance_returns [OF _ assms(5)]) (rule g)
  show "snd (fst (handle_utterance_stream c x s)) = None"
    by (rule stream_returns [OF _ _ assms(5)]) (fact g, fact st)
qed

definition scripted_call :: "'w llm_provider \<Rightarrow> 'w conv_config" where
  "scripted_call llm =
     \<lparr>cc_llm = llm, cc_system_prompt = [], cc_call_id = ''c'', cc_max_history_turns = 5,
      cc_tools = None, cc_tool_executor = None, cc_max_tool_iterations = 4,
      cc_max_conversation_turns = None, cc_max_call_duration_seconds = None,
      cc_call_started_at = 0, cc_now = (\<lambda>_. 0)\<rparr>"

definition scripted_start :: "'w \<Rightarrow> 'w conv_state" where
  "scripted_start w = \<lparr>cs_turn_count = 0, cs_history = [], cs_last_reply = None,
     cs_llm_errors = 0, cs_tool_outcomes = [], cs_world = w\<rparr>"

theorem anthropic_call_never_raises_witness:
  "\<exists>r. fst (handle_utterance (scripted_call (anthropic_llm scripted_anthropic)) ''hi''
      (scripted_start [None, None])) = Inr r"
proof -
  have "tenacity (\<lambda>s. s) (ap_retry_create scripted_anthropic)"
    "tenacity (\<lambda>s. s) (ap_retry_enter scripted_anthropic)"
    by (simp_all add: scripted_anthropic_def policy_retrier_tenacity)
  from anthropic_call_never_raises [OF _ scripted_anthropic_ok this,
      of "scripted_call (anthropic_llm scripted_anthropic)"] show ?thesis
    by (simp add: scripted_call_def)
qed

text \<open>
  The interface asks for \<^verbatim>\<open>LLMProviderError\<close> and never another exception, and
  \<^verbatim>\<open>_parse_tool_calls\<close> promises that bad arguments do not crash the turn. Arguments that are JSON
  but no object (here \<^verbatim>\<open>[1]\<close>) do: the validation of \<^verbatim>\<open>ToolCall\<close> refuses them, the exception
  leaves the provider and the turn, and the caller's words stay in the history without a reply.
\<close>

theorem openai_leaks_validation_error:
  "(case handle_utterance (scripted_call (openai_llm scripted_openai)) ''hi''
       (scripted_start [Some \<lparr>om_choices = [\<lparr>oc_content = None,
          oc_tool_calls = Some [\<lparr>rt_id = ''1'', rt_function =
            Some \<lparr>rf_name = ''t'', rf_arguments = Some ''[1]''\<rparr>\<rparr>]\<rparr>],
          om_model = ''m'', om_usage = None\<rparr>]) of
     (r, s) \<Rightarrow> r = Inl (ValidationError ''arguments: Input should be a valid dictionary'') \<and>
       cs_history s = [text_message USER ''hi'']) \<and>
   parse_arguments (\<lambda>t. t) (Some ''[1'') = Inr (JObj [(''_parse_error'', JStr ''[1'')])"
  by code_simp

text \<open>
  One completion costs at most \<open>max 1 max_retries\<close> requests, with either provider.
\<close>

theorem provider_requests_are_bounded:
  assumes "tenacity sleep (ap_retry_create p)" and "tenacity sleep (op_retry_create q)"
    and "\<And>s. count (sleep s) = count s"
    and "\<And>kw s. count (snd (ap_create p kw s)) \<le> count s + 1"
    and "\<And>kw s. count (snd (op_create q kw s)) \<le> count s + (1 :: nat)"
  shows "count (snd (anthropic_generate p h sp mt tls w)) \<le> count w + nat (max 1 (ap_max_retries p)) \<and>
    count (snd (openai_generate q h sp mt tls w)) \<le> count w + nat (max 1 (op_max_retries q))"
proof
  have "count (snd (ap_retry_create p (provider_policy (ap_max_retries p) (ap_retryable p))
      (ap_create p kw) w)) \<le> count w + nat (max 1 (ap_max_retries p))" for kw
    using tenacity_count [OF assms(1) assms(4) assms(3), of "provider_policy (ap_max_retries p) (ap_retryable p)"]
    by (simp add: provider_policy_def)
  then show "count (snd (anthropic_generate p h sp mt tls w)) \<le> count w + nat (max 1 (ap_max_retries p))"
    by (auto simp: anthropic_generate_def Let_def bind_prog_apply try_prog_apply
      split: prod.split sum.split) (metis snd_conv)+
  have "count (snd (op_retry_create q (provider_policy (op_max_retries q) (op_retryable q))
      (op_create q kw) w)) \<le> count w + nat (max 1 (op_max_retries q))" for kw
    using tenacity_count [OF assms(2) assms(5) assms(3), of "provider_policy (op_max_retries q) (op_retryable q)"]
    by (simp add: provider_policy_def)
  then show "count (snd (openai_generate q h sp mt tls w)) \<le> count w + nat (max 1 (op_max_retries q))"
    by (auto simp: openai_generate_def Let_def bind_prog_apply try_prog_apply
      split: prod.split sum.split) (metis snd_conv)+
qed

text \<open>A provider whose world counts its requests, and that is always down.\<close>

definition counting :: "json \<Rightarrow> (nat, 'a) prog" where
  "counting kw n = (Inl down, Suc n)"

definition counting_anthropic :: "nat anthropic_provider" where
  "counting_anthropic = \<lparr>ap_create = counting, ap_enter = counting, ap_exit = ret (),
     ap_retry_create = policy_retrier, ap_retry_enter = policy_retrier,
     ap_api_error = (\<lambda>e. True), ap_retryable = (\<lambda>e. True), ap_model = ''m'', ap_max_retries = 3\<rparr>"

definition counting_openai :: "nat openai_provider" where
  "counting_openai = \<lparr>op_create = counting, op_open_stream = counting,
     op_retry_create = policy_retrier, op_retry_open = policy_retrier,
     op_api_error = (\<lambda>e. True), op_retryable = (\<lambda>e. True), op_float_text = (\<lambda>t. t),
     op_model = ''m'', op_max_retries = 0\<rparr>"

theorem provider_requests_are_bounded_witness:
  "snd (anthropic_generate counting_anthropic [] None 1024 None 0) \<le> 3 \<and>
   snd (openai_generate counting_openai [] None 1024 None 0) \<le> 1"
proof -
  have "tenacity (\<lambda>s. s) (ap_retry_create counting_anthropic)"
    "tenacity (\<lambda>s. s) (op_retry_create counting_openai)"
    by (simp_all add: counting_anthropic_def counting_openai_def policy_retrier_tenacity)
  from provider_requests_are_bounded [OF this, of "\<lambda>n. n" "[]" None 1024 None 0] show ?thesis
    by (simp add: counting_anthropic_def counting_openai_def counting_def)
qed

text \<open>How the SDK presents a tool call of the wire.\<close>

definition json_str :: "json option \<Rightarrow> string" where
  "json_str j = (case j of Some (JStr s) \<Rightarrow> s | _ \<Rightarrow> [])"

definition sdk_tool_call :: "json \<Rightarrow> raw_tool_call" where
  "sdk_tool_call j =
     \<lparr>rt_id = json_str (member ''id'' j),
      rt_function = map_option (\<lambda>f. \<lparr>rf_name = json_str (member ''name'' f),
        rf_arguments = Some (json_str (member ''arguments'' f))\<rparr>) (member ''function'' j)\<rparr>"

lemma parse_each_wire:
  "\<forall>tc \<in> set tcs. valid_json pf (JObj (tc_arguments tc)) \<Longrightarrow>
   parse_each pf (map (sdk_tool_call \<circ> openai_tool_call) tcs) = Inr tcs"
  by (induction tcs)
    (simp_all add: sdk_tool_call_def openai_tool_call_def json_str_def parse_arguments_def
      json_loads_dumps validated_call_def del: json_dumps.simps valid_json.simps)

text \<open>
  (C21) What a model asked for is shown to it again exactly as it asked: the tool calls of a request
  that is sent back in the history parse to the same calls, their JSON arguments included.
\<close>

theorem tool_calls_survive_the_wire:
  assumes "tcs \<noteq> []" and "\<forall>tc \<in> set tcs. valid_json pf (JObj (tc_arguments tc))"
  shows "parse_tool_calls pf (Some (map sdk_tool_call
      (array_of (member ''tool_calls'' (openai_message (tool_request_message said (Some tcs))))))) =
    Inr (Some tcs)"
  using assms parse_each_wire [OF assms(2)]
  by (simp add: parse_tool_calls_def openai_message_def array_of_def calls_or_none_def comp_def)

theorem tool_calls_survive_the_wire_witness:
  "parse_tool_calls (\<lambda>t. t) (Some (map sdk_tool_call (array_of (member ''tool_calls''
      (openai_message (tool_request_message [] (Some [\<lparr>tc_id = ''1'', tc_name = ''t'',
         tc_arguments = [(''a'', JArr [JBool True, JStr [CHR 0x22]])]\<rparr>]))))))) =
    Inr (Some [\<lparr>tc_id = ''1'', tc_name = ''t'', tc_arguments = [(''a'', JArr [JBool True, JStr [CHR 0x22]])]\<rparr>])"
  by (rule tool_calls_survive_the_wire) simp_all

end
