(* ===== verification/Config.thy ===== *)
theory Config
  imports Prelude Complex_Main
begin

text \<open>
  \<^verbatim>\<open>openvoice/config.py\<close> and the provider factories. The record is \<^verbatim>\<open>Settings\<close> after pydantic has
  parsed the environment; \<open>validated\<close> is what pydantic then checks: the length of the secret key
  and the two model validators, in their order. A factory returns the description of the provider
  it constructs, or raises.
\<close>

section \<open>Settings\<close>

datatype environment = Env_Local | Env_Test | Env_Staging | Env_Production

fun environment_value :: "environment \<Rightarrow> string" where
  "environment_value Env_Local = ''local''"
| "environment_value Env_Test = ''test''"
| "environment_value Env_Staging = ''staging''"
| "environment_value Env_Production = ''production''"

datatype llm_backend = ANTHROPIC | OPENAI | OPENAI_COMPATIBLE

datatype tts_backend = PIPER | COQUI | ELEVENLABS

datatype stt_backend = FASTER_WHISPER | DEEPGRAM

datatype calendar_backend = GOOGLE

datatype sms_backend = TWILIO

datatype email_backend = RESEND

record settings =
  environment :: environment
  debug :: bool
  api_host :: string
  api_port :: int
  secret_key :: string
  database_url :: string
  database_pool_size :: int
  database_echo :: bool
  redis_url :: string
  llm_provider :: llm_backend
  anthropic_api_key :: "string option"
  anthropic_model :: string
  openai_api_key :: "string option"
  openai_model :: string
  openai_compatible_base_url :: "string option"
  openai_compatible_model :: "string option"
  openai_compatible_api_key :: "string option"
  llm_request_timeout_seconds :: rat
  llm_max_retries :: int
  stt_provider :: stt_backend
  tts_provider :: tts_backend
  deepgram_api_key :: "string option"
  elevenlabs_api_key :: "string option"
  elevenlabs_voice_id :: string
  elevenlabs_model :: string
  faster_whisper_model_size :: string
  faster_whisper_device :: string
  faster_whisper_compute_type :: string
  piper_voice_model_path :: string
  agent_company_name :: string
  agent_system_prompt :: "string option"
  agent_max_history_turns :: int
  agent_human_transfer_number :: "string option"
  agent_max_conversation_turns :: "int option"
  agent_max_call_duration_seconds :: "rat option"
  vad_min_silence_duration_seconds :: rat
  calendar_provider :: calendar_backend
  google_calendar_id :: string
  google_service_account_json_path :: "string option"
  booking_business_hours_start :: int
  booking_business_hours_end :: int
  booking_default_duration_minutes :: int
  booking_search_days_ahead :: int
  booking_timezone :: string
  sms_provider :: sms_backend
  twilio_account_sid :: "string option"
  twilio_auth_token :: "string option"
  twilio_from_number :: "string option"
  email_provider :: email_backend
  resend_api_key :: "string option"
  resend_from_email :: "string option"
  notification_request_timeout_seconds :: rat
  notification_max_retries :: int
  sentry_dsn :: "string option"
  log_level :: string

text \<open>The defaults, with the two settings that have none.\<close>

definition default_settings :: "string \<Rightarrow> string \<Rightarrow> settings" where
  "default_settings secret db_url =
     \<lparr>environment = Env_Local, debug = False, api_host = ''0.0.0.0'', api_port = 8000,
      secret_key = secret, database_url = db_url, database_pool_size = 10, database_echo = False,
      redis_url = ''redis://localhost:6379/0'', llm_provider = ANTHROPIC,
      anthropic_api_key = None, anthropic_model = ''claude-sonnet-5'', openai_api_key = None,
      openai_model = ''gpt-4o'', openai_compatible_base_url = None,
      openai_compatible_model = None, openai_compatible_api_key = None,
      llm_request_timeout_seconds = 15, llm_max_retries = 3,
      stt_provider = FASTER_WHISPER, tts_provider = PIPER,
      deepgram_api_key = None, elevenlabs_api_key = None,
      elevenlabs_voice_id = ''21m00Tcm4TlvDq8ikWAM'', elevenlabs_model = ''eleven_turbo_v2_5'',
      faster_whisper_model_size = ''small'', faster_whisper_device = ''cpu'',
      faster_whisper_compute_type = ''int8'',
      piper_voice_model_path = ''models/piper/en_US-amy-medium.onnx'',
      agent_company_name = ''our company'', agent_system_prompt = None,
      agent_max_history_turns = 20, agent_human_transfer_number = None,
      agent_max_conversation_turns = Some 40, agent_max_call_duration_seconds = Some 900,
      vad_min_silence_duration_seconds = 4 / 10, calendar_provider = GOOGLE,
      google_calendar_id = ''primary'', google_service_account_json_path = None,
      booking_business_hours_start = 9, booking_business_hours_end = 17,
      booking_default_duration_minutes = 30, booking_search_days_ahead = 7,
      booking_timezone = ''UTC'', sms_provider = TWILIO, twilio_account_sid = None,
      twilio_auth_token = None, twilio_from_number = None, email_provider = RESEND,
      resend_api_key = None, resend_from_email = None,
      notification_request_timeout_seconds = 10, notification_max_retries = 3,
      sentry_dsn = None, log_level = ''INFO''\<rparr>"

definition validate_llm_provider_credentials :: "settings \<Rightarrow> settings res" where
  "validate_llm_provider_credentials s =
     (if llm_provider s = ANTHROPIC \<and> \<not> truthy_str (anthropic_api_key s)
      then Inl (ValueError ''ANTHROPIC_API_KEY is required when LLM_PROVIDER=anthropic'')
      else if llm_provider s = OPENAI \<and> \<not> truthy_str (openai_api_key s)
      then Inl (ValueError ''OPENAI_API_KEY is required when LLM_PROVIDER=openai'')
      else if llm_provider s = OPENAI_COMPATIBLE \<and>
        \<not> (truthy_str (openai_compatible_base_url s) \<and> truthy_str (openai_compatible_model s))
      then Inl (ValueError ''OPENAI_COMPATIBLE_BASE_URL and OPENAI_COMPATIBLE_MODEL are both required when LLM_PROVIDER=openai_compatible -- there's no universal default model across providers, so it must be set explicitly (e.g. base_url https://api.deepseek.com/v1 with model deepseek-chat, https://api.moonshot.ai/v1 with a kimi-* model, https://dashscope-intl.aliyuncs.com/compatible-mode/v1 with a qwen-* model, or a local vLLM/Ollama server with whatever model it's serving)'')
      else Inr s)"

definition validate_tts_provider_credentials :: "settings \<Rightarrow> settings res" where
  "validate_tts_provider_credentials s =
     (if tts_provider s = ELEVENLABS \<and> \<not> truthy_str (elevenlabs_api_key s)
      then Inl (ValueError ''ELEVENLABS_API_KEY is required when TTS_PROVIDER=elevenlabs'')
      else Inr s)"

text \<open>
  \<^verbatim>\<open>Settings()\<close> on parsed fields; pydantic reports whatever a validator raises as its
  \<^verbatim>\<open>ValidationError\<close>.
\<close>

definition validated :: "settings \<Rightarrow> settings res" where
  "validated s =
     (if length (secret_key s) < 16
      then Inl (ValidationError ''secret_key: String should have at least 16 characters'')
      else case bind_res (validate_llm_provider_credentials s) validate_tts_provider_credentials of
          Inl e \<Rightarrow> Inl (ValidationError (exc_str e))
        | Inr t \<Rightarrow> Inr t)"

section \<open>Factories\<close>

text \<open>
  The constructor calls of the factories. Each builds a client of a third party or loads a model or a
  key file.
\<close>

datatype llm_built =
    Anthropic_Provider string string rat int
  | OpenAI_Provider "string option" string rat int "string option"

datatype stt_built = Whisper_Provider string string string

datatype tts_built = Piper_Provider string | ElevenLabs_Provider string string string

datatype calendar_built = Google_Calendar_Provider string string

datatype sms_built = Twilio_Provider string string string rat int

datatype email_built = Resend_Provider string string rat int

text \<open>
  What the deployment has: the optional packages, of which a missing one is an \<^verbatim>\<open>ImportError\<close> at the
  first use, and what each construction raises there, if anything: a missing model, an unreadable key
  file, a base URL that no client can be built for.
\<close>

record extras =
  has_faster_whisper :: bool
  has_piper :: bool
  has_google_client :: bool
  open_llm :: "llm_built \<Rightarrow> exc option"
  load_whisper :: "stt_built \<Rightarrow> exc option"
  open_tts :: "tts_built \<Rightarrow> exc option"
  open_calendar :: "calendar_built \<Rightarrow> exc option"
  open_sms :: "sms_built \<Rightarrow> exc option"
  open_email :: "email_built \<Rightarrow> exc option"

definition construct :: "('a \<Rightarrow> exc option) \<Rightarrow> 'a \<Rightarrow> 'a res" where
  "construct opened b = (case opened b of None \<Rightarrow> Inr b | Some e \<Rightarrow> Inl e)"

definition get_llm_provider :: "extras \<Rightarrow> settings \<Rightarrow> llm_built res" where
  "get_llm_provider x s =
     (if llm_provider s = ANTHROPIC then
        (case anthropic_api_key s of
           None \<Rightarrow> Inl (RuntimeError ''ANTHROPIC_API_KEY missing despite LLM_PROVIDER=anthropic'')
         | Some key \<Rightarrow> construct (open_llm x) (Anthropic_Provider key (anthropic_model s)
             (llm_request_timeout_seconds s) (llm_max_retries s)))
      else if llm_provider s = OPENAI then
        (case openai_api_key s of
           None \<Rightarrow> Inl (RuntimeError ''OPENAI_API_KEY missing despite LLM_PROVIDER=openai'')
         | Some key \<Rightarrow> construct (open_llm x) (OpenAI_Provider (Some key) (openai_model s)
             (llm_request_timeout_seconds s) (llm_max_retries s) None))
      else if llm_provider s = OPENAI_COMPATIBLE then
        (case (openai_compatible_base_url s, openai_compatible_model s) of
           (None, _) \<Rightarrow> Inl (RuntimeError ''OPENAI_COMPATIBLE_BASE_URL missing despite LLM_PROVIDER=openai_compatible'')
         | (Some url, None) \<Rightarrow> Inl (RuntimeError ''OPENAI_COMPATIBLE_MODEL missing despite LLM_PROVIDER=openai_compatible'')
         | (Some url, Some model) \<Rightarrow> construct (open_llm x) (OpenAI_Provider (openai_compatible_api_key s) model
             (llm_request_timeout_seconds s) (llm_max_retries s) (Some url)))
      else Inl (ValueError ''Unsupported LLM provider''))"

definition get_stt_provider :: "extras \<Rightarrow> settings \<Rightarrow> stt_built res" where
  "get_stt_provider x s =
     (case stt_provider s of
        FASTER_WHISPER \<Rightarrow>
          (if has_faster_whisper x
           then construct (load_whisper x) (Whisper_Provider (faster_whisper_model_size s) (faster_whisper_device s)
             (faster_whisper_compute_type s))
           else Inl (STTError ''faster-whisper is not installed; run `uv sync --extra voice`''))
      | DEEPGRAM \<Rightarrow> Inl (NotImplementedErr ''The Deepgram STT provider is not implemented yet (see docs/ROADMAP.md). Set STT_PROVIDER=faster_whisper.''))"

definition get_tts_provider :: "extras \<Rightarrow> settings \<Rightarrow> tts_built res" where
  "get_tts_provider x s =
     (case tts_provider s of
        PIPER \<Rightarrow>
          (if has_piper x then construct (open_tts x) (Piper_Provider (piper_voice_model_path s))
           else Inl (TTSError ''piper-tts is not installed; run `uv sync --extra voice`''))
      | ELEVENLABS \<Rightarrow>
          (case elevenlabs_api_key s of
             None \<Rightarrow> Inl (RuntimeError ''ELEVENLABS_API_KEY missing despite TTS_PROVIDER=elevenlabs'')
           | Some key \<Rightarrow> construct (open_tts x) (ElevenLabs_Provider key (elevenlabs_voice_id s) (elevenlabs_model s)))
      | COQUI \<Rightarrow> Inl (NotImplementedErr ''The Coqui TTS provider is intentionally not implemented: coqui-ai/TTS is archived and its XTTS-v2 model is non-commercially licensed (see docs/ARCHITECTURE.md). Use TTS_PROVIDER=piper or elevenlabs.''))"

definition get_calendar_provider :: "extras \<Rightarrow> settings \<Rightarrow> calendar_built res" where
  "get_calendar_provider x s =
     (case calendar_provider s of
        GOOGLE \<Rightarrow>
          (case google_service_account_json_path s of
             None \<Rightarrow> Inl (CalendarError ''GOOGLE_SERVICE_ACCOUNT_JSON_PATH is required to build the Google Calendar provider'')
           | Some path \<Rightarrow>
               (if has_google_client x
                then construct (open_calendar x) (Google_Calendar_Provider path (google_calendar_id s))
                else Inl (CalendarError ''google-api-python-client is not installed; run `uv sync --extra calendar`''))))"

definition get_sms_provider :: "extras \<Rightarrow> settings \<Rightarrow> sms_built res" where
  "get_sms_provider x s =
     (case sms_provider s of
        TWILIO \<Rightarrow>
          (if \<not> (truthy_str (twilio_account_sid s) \<and> truthy_str (twilio_auth_token s))
           then Inl (RuntimeError ''TWILIO_ACCOUNT_SID and TWILIO_AUTH_TOKEN are required when SMS_PROVIDER=twilio'')
           else if \<not> truthy_str (twilio_from_number s)
           then Inl (RuntimeError ''TWILIO_FROM_NUMBER is required when SMS_PROVIDER=twilio'')
           else construct (open_sms x) (Twilio_Provider (the (twilio_account_sid s)) (the (twilio_auth_token s))
             (the (twilio_from_number s)) (notification_request_timeout_seconds s)
             (notification_max_retries s))))"

definition get_email_provider :: "extras \<Rightarrow> settings \<Rightarrow> email_built res" where
  "get_email_provider x s =
     (case email_provider s of
        RESEND \<Rightarrow>
          (if \<not> (truthy_str (resend_api_key s) \<and> truthy_str (resend_from_email s))
           then Inl (RuntimeError ''RESEND_API_KEY and RESEND_FROM_EMAIL are required when EMAIL_PROVIDER=resend'')
           else construct (open_email x) (Resend_Provider (the (resend_api_key s)) (the (resend_from_email s))
             (notification_request_timeout_seconds s) (notification_max_retries s))))"

text \<open>
  How the API's dependency and the telephony worker assemble a booking service: no calendar is an
  error for the first and no booking for the second; the messaging providers are optional.
\<close>

record booking_parts =
  bp_calendar :: calendar_built
  bp_sms :: "sms_built option"
  bp_email :: "email_built option"
  bp_hours_start :: int
  bp_hours_end :: int
  bp_default_minutes :: int

text \<open>\<^verbatim>\<open>try: x = f() except RuntimeError: x = None\<close>.\<close>

definition runtime_error_none :: "'a res \<Rightarrow> 'a option res" where
  "runtime_error_none r =
     (case r of Inr x \<Rightarrow> Inr (Some x) | Inl (RuntimeError m) \<Rightarrow> Inr None | Inl e \<Rightarrow> Inl e)"

definition build_booking_parts :: "extras \<Rightarrow> settings \<Rightarrow> calendar_built \<Rightarrow> booking_parts res" where
  "build_booking_parts x s calendar =
     bind_res (runtime_error_none (get_sms_provider x s)) (\<lambda>sms.
       bind_res (runtime_error_none (get_email_provider x s)) (\<lambda>email.
         Inr \<lparr>bp_calendar = calendar, bp_sms = sms, bp_email = email,
              bp_hours_start = booking_business_hours_start s,
              bp_hours_end = booking_business_hours_end s,
              bp_default_minutes = booking_default_duration_minutes s\<rparr>))"

definition get_booking_service :: "extras \<Rightarrow> settings \<Rightarrow> booking_parts res" where
  "get_booking_service x s = bind_res (get_calendar_provider x s) (build_booking_parts x s)"

definition build_booking_tools :: "extras \<Rightarrow> settings \<Rightarrow> booking_parts option res" where
  "build_booking_tools x s =
     (case get_calendar_provider x s of
        Inl (CalendarError m) \<Rightarrow> Inr None
      | Inl e \<Rightarrow> Inl e
      | Inr calendar \<Rightarrow> map_sum id Some (build_booking_parts x s calendar))"

end
