(* ===== verification/Config_Thms.thy ===== *)
theory Config_Thms
  imports Config
begin

text \<open>
  What the validation of the settings is worth: which factories cannot fail afterwards, and which
  still can.
\<close>

lemma truthy_str_Some: "truthy_str s \<Longrightarrow> \<exists>t. s = Some t \<and> t \<noteq> []"
  by (cases s) auto

lemma validated_Inr:
  "validated s = Inr t \<longleftrightarrow> t = s \<and> 16 \<le> length (secret_key s) \<and>
     (llm_provider s = ANTHROPIC \<longrightarrow> truthy_str (anthropic_api_key s)) \<and>
     (llm_provider s = OPENAI \<longrightarrow> truthy_str (openai_api_key s)) \<and>
     (llm_provider s = OPENAI_COMPATIBLE \<longrightarrow>
        truthy_str (openai_compatible_base_url s) \<and> truthy_str (openai_compatible_model s)) \<and>
     (tts_provider s = ELEVENLABS \<longrightarrow> truthy_str (elevenlabs_api_key s))"
  by (auto simp: validated_def validate_llm_provider_credentials_def
    validate_tts_provider_credentials_def split: if_splits)

lemma construct_result: "construct opened b = r \<Longrightarrow> (case r of Inr c \<Rightarrow> c = b \<and> opened b = None | Inl e \<Rightarrow> opened b = Some e)"
  by (auto simp: construct_def split: option.splits)

lemma construct_open [simp]: "opened b = None \<Longrightarrow> construct opened b = Inr b"
  by (simp add: construct_def)

text \<open>The messaging providers are optional: only what their construction raises gets out.\<close>

lemma runtime_error_none_sms:
  "runtime_error_none (get_sms_provider x s) = Inl e \<Longrightarrow> \<exists>b. open_sms x b = Some e"
  by (cases "sms_provider s"; cases e)
    (auto simp: runtime_error_none_def get_sms_provider_def construct_def split: if_splits option.splits exc.splits)

lemma runtime_error_none_email:
  "runtime_error_none (get_email_provider x s) = Inl e \<Longrightarrow> \<exists>b. open_email x b = Some e"
  by (cases "email_provider s"; cases e)
    (auto simp: runtime_error_none_def get_email_provider_def construct_def split: if_splits option.splits exc.splits)

lemma build_booking_parts_result:
  "case build_booking_parts x s calendar of
     Inr b \<Rightarrow> bp_calendar b = calendar
   | Inl e \<Rightarrow> (\<exists>b. open_sms x b = Some e) \<or> (\<exists>b. open_email x b = Some e)"
proof (cases "runtime_error_none (get_sms_provider x s)")
  case (Inl e)
  with runtime_error_none_sms [OF this] show ?thesis by (simp add: build_booking_parts_def)
next
  case (Inr sms)
  then show ?thesis
    using runtime_error_none_email [where x = x and s = s]
    by (cases "runtime_error_none (get_email_provider x s)") (auto simp: build_booking_parts_def)
qed

lemma calendar_result:
  "case get_calendar_provider x s of
     Inr b \<Rightarrow> has_google_client x \<and> open_calendar x b = None
   | Inl e \<Rightarrow> (\<exists>m. e = CalendarError m) \<or> (\<exists>b. open_calendar x b = Some e)"
  by (cases "calendar_provider s")
    (auto simp: get_calendar_provider_def construct_def split: option.splits)

section \<open>Properties\<close>

text \<open>The provider that the settings ask for, with the credentials they name.\<close>

definition llm_matches :: "settings \<Rightarrow> llm_built \<Rightarrow> bool" where
  "llm_matches s b \<longleftrightarrow>
     (case b of
        Anthropic_Provider key model timeout retries \<Rightarrow>
          llm_provider s = ANTHROPIC \<and> anthropic_api_key s = Some key \<and> key \<noteq> [] \<and>
          model = anthropic_model s
      | OpenAI_Provider key model timeout retries url \<Rightarrow>
          (if url = None
           then llm_provider s = OPENAI \<and> key = openai_api_key s \<and> truthy_str key \<and>
             model = openai_model s
           else llm_provider s = OPENAI_COMPATIBLE \<and> url = openai_compatible_base_url s \<and>
             truthy_str url \<and> openai_compatible_model s = Some model \<and> model \<noteq> [] \<and>
             key = openai_compatible_api_key s))"

lemma get_llm_provider_matches:
  assumes "validated s = Inr s"
  shows "\<exists>b. get_llm_provider x s = construct (open_llm x) b \<and> llm_matches s b"
proof (cases "llm_provider s")
  case ANTHROPIC
  then obtain key where "anthropic_api_key s = Some key" "key \<noteq> []"
    using assms by (auto simp: validated_Inr dest: truthy_str_Some)
  with ANTHROPIC show ?thesis
    by (intro exI [of _ "Anthropic_Provider key (anthropic_model s) (llm_request_timeout_seconds s) (llm_max_retries s)"])
      (simp add: get_llm_provider_def llm_matches_def)
next
  case OPENAI
  then obtain key where "openai_api_key s = Some key" "key \<noteq> []"
    using assms by (auto simp: validated_Inr dest: truthy_str_Some)
  with OPENAI show ?thesis
    by (intro exI [of _ "OpenAI_Provider (Some key) (openai_model s) (llm_request_timeout_seconds s) (llm_max_retries s) None"])
      (simp add: get_llm_provider_def llm_matches_def)
next
  case OPENAI_COMPATIBLE
  then obtain url model where "openai_compatible_base_url s = Some url" "url \<noteq> []"
    "openai_compatible_model s = Some model" "model \<noteq> []"
    using assms unfolding validated_Inr by (metis truthy_str_Some)
  with OPENAI_COMPATIBLE show ?thesis
    by (intro exI [of _ "OpenAI_Provider (openai_compatible_api_key s) model (llm_request_timeout_seconds s)
        (llm_max_retries s) (Some url)"]) (simp add: get_llm_provider_def llm_matches_def)
qed

lemma build_booking_tools_result:
  "case build_booking_tools x s of
     Inr None \<Rightarrow> \<exists>m. get_calendar_provider x s = Inl (CalendarError m)
   | Inr (Some p) \<Rightarrow> get_calendar_provider x s = Inr (bp_calendar p)
   | Inl e \<Rightarrow> (\<exists>b. open_calendar x b = Some e) \<or> (\<exists>b. open_sms x b = Some e) \<or> (\<exists>b. open_email x b = Some e)"
proof (cases "get_calendar_provider x s")
  case (Inl e)
  with calendar_result [where x = x and s = s] show ?thesis by (cases e) (auto simp: build_booking_tools_def)
next
  case (Inr c)
  then show ?thesis
    using build_booking_parts_result [where x = x and s = s and calendar = c]
    by (cases "build_booking_parts x s c") (auto simp: build_booking_tools_def)
qed

text \<open>Constructions that the booking tools of a call need all succeed.\<close>

definition booking_opens :: "extras \<Rightarrow> bool" where
  "booking_opens x \<longleftrightarrow> (\<forall>b. open_calendar x b = None) \<and> (\<forall>b. open_sms x b = None) \<and> (\<forall>b. open_email x b = None)"

lemma build_booking_tools_opens:
  assumes "booking_opens x"
  shows "\<exists>b. build_booking_tools x s = Inr b \<and>
    (b \<noteq> None \<longleftrightarrow> google_service_account_json_path s \<noteq> None \<and> has_google_client x)"
proof -
  have "get_calendar_provider x s = (case google_service_account_json_path s of
      None \<Rightarrow> Inl (CalendarError ''GOOGLE_SERVICE_ACCOUNT_JSON_PATH is required to build the Google Calendar provider'')
    | Some path \<Rightarrow> if has_google_client x then Inr (Google_Calendar_Provider path (google_calendar_id s))
        else Inl (CalendarError ''google-api-python-client is not installed; run `uv sync --extra calendar`''))"
    using assms by (cases "calendar_provider s")
      (simp add: get_calendar_provider_def booking_opens_def split: option.split)
  moreover from this show ?thesis
    using build_booking_tools_result [where x = x and s = s] assms
    by (cases "build_booking_tools x s") (auto simp: booking_opens_def split: option.splits if_splits)
qed


definition claude_settings :: settings where
  "claude_settings = (default_settings ''0123456789abcdef'' [])\<lparr>anthropic_api_key := Some ''k''\<rparr>"

text \<open>A deployment with every package, and one whose key file is missing.\<close>

definition all_extras :: extras where
  "all_extras = \<lparr>has_faster_whisper = True, has_piper = True, has_google_client = True, open_llm = (\<lambda>b. None),
     load_whisper = (\<lambda>b. None), open_tts = (\<lambda>b. None), open_calendar = (\<lambda>b. None), open_sms = (\<lambda>b. None),
     open_email = (\<lambda>b. None)\<rparr>"

definition no_key_file :: exc where
  "no_key_file = OtherError ''FileNotFoundError'' ''key.json''"


text \<open>
  The validation promises that a misconfigured app does not boot, but settings that select
  Deepgram or Coqui pass it, and so does a default duration of zero minutes, which makes the slot
  search run for ever; the first two raise when a call is already connected.
\<close>

theorem unusable_settings_pass_validation:
  "\<exists>s t. validated s = Inr s \<and> (\<exists>m. get_stt_provider x s = Inl (NotImplementedErr m)) \<and>
     validated t = Inr t \<and> (\<exists>m. get_tts_provider x t = Inl (NotImplementedErr m)) \<and>
     booking_default_duration_minutes t = 0"
proof -
  let ?s = "claude_settings\<lparr>stt_provider := DEEPGRAM\<rparr>"
  let ?t = "claude_settings\<lparr>tts_provider := COQUI, booking_default_duration_minutes := 0\<rparr>"
  have "validated ?s = Inr ?s" "validated ?t = Inr ?t"
    by (simp_all add: validated_Inr claude_settings_def default_settings_def)
  moreover have "stt_provider ?s = DEEPGRAM" "tts_provider ?t = COQUI"
    "booking_default_duration_minutes ?t = 0" by simp_all
  ultimately show ?thesis unfolding get_stt_provider_def get_tts_provider_def by fastforce
qed

end
