(* ===== verification/CRM.thy ===== *)
theory CRM
  imports DB Py_Text
begin

text \<open>
  \<^verbatim>\<open>openvoice/crm/service.py\<close>, the statements on the tables \<^verbatim>\<open>calls\<close> and \<^verbatim>\<open>call_transcripts\<close>, the end
  of a call (\<^verbatim>\<open>finalize_call\<close> of \<^verbatim>\<open>openvoice/telephony/worker.py\<close>) and the summary written after it
  (\<^verbatim>\<open>openvoice/tasks/summarize_call.py\<close>).
\<close>

section \<open>Clients\<close>

definition new_client :: "uuid \<Rightarrow> string \<Rightarrow> client" where
  "new_client i phone = \<lparr>cl_id = i, cl_phone_number = phone, cl_full_name = None, cl_email = None,
     cl_notes = None\<rparr>"

definition refresh_client :: "'w runtime \<Rightarrow> uuid \<Rightarrow> ('w world, client) prog" where
  "refresh_client rt i = bind_prog (get_client rt i) (\<lambda>r. case r of
       None \<Rightarrow> raise (OtherError ''InvalidRequestError'' ''Could not refresh instance'')
     | Some c \<Rightarrow> ret c)"

text \<open>\<^verbatim>\<open>scalar_one_or_none\<close>: the phone number is unique, so there is at most one row.\<close>

definition get_or_create_client :: "'w runtime \<Rightarrow> string \<Rightarrow> ('w world, client) prog" where
  "get_or_create_client rt phone =
     bind_prog (query rt (\<lambda>w. find (\<lambda>c. cl_phone_number c = phone) (w_clients w))) (\<lambda>r. case r of
         Some c \<Rightarrow> ret c
       | None \<Rightarrow>
           bind_prog (new_uuid rt) (\<lambda>i.
             bind_prog (insert_client rt (new_client i phone)) (\<lambda>_. refresh_client rt i)))"

section \<open>Calls\<close>

definition call_row_error :: "call \<Rightarrow> 'w world \<Rightarrow> exc option" where
  "call_row_error c w =
     (if 255 < length (ca_livekit_room_name c)
      then Some (db_error ''value too long for type character varying'')
      else if (case ca_client_id c of None \<Rightarrow> False | Some i \<Rightarrow> i \<notin> cl_id ` set (w_clients w))
      then Some (IntegrityError ''calls_client_id_fkey'')
      else None)"

definition insert_call :: "'w runtime \<Rightarrow> call \<Rightarrow> ('w world, unit) prog" where
  "insert_call rt c = db_op rt (\<lambda>w.
     if ca_id c \<in> ca_id ` set (w_calls w) then (Inl (IntegrityError ''calls_pkey''), w)
     else case call_row_error c w of
         Some e \<Rightarrow> (Inl e, w)
       | None \<Rightarrow> (Inr (), w\<lparr>w_calls := w_calls w @ [c]\<rparr>))"

definition get_call_history :: "'w runtime \<Rightarrow> uuid \<Rightarrow> int \<Rightarrow> ('w world, call list) prog" where
  "get_call_history rt client_id limit =
     (if limit < 0 then raise (db_error ''LIMIT must not be negative'')
      else query rt (\<lambda>w. take (nat limit) (sort_key (\<lambda>c. - dt_instant (ca_started_at c))
             (filter (\<lambda>c. ca_client_id c = Some client_id) (w_calls w)))))"

text \<open>A call with its transcripts, which the relationship orders by sequence.\<close>

definition call_transcripts :: "'w world \<Rightarrow> uuid \<Rightarrow> transcript list" where
  "call_transcripts w i = sort_key tr_sequence (filter (\<lambda>t. tr_call_id t = i) (w_transcripts w))"

definition get_call_with_transcript ::
  "'w runtime \<Rightarrow> uuid \<Rightarrow> ('w world, (call \<times> transcript list) option) prog" where
  "get_call_with_transcript rt i = query rt (\<lambda>w.
     map_option (\<lambda>c. (c, call_transcripts w i)) (find (\<lambda>c. ca_id c = i) (w_calls w)))"

text \<open>
  \<^verbatim>\<open>session.commit()\<close> of a changed call and the transcripts added with it: one transaction, so all
  rows are written or none.
\<close>

definition replace_call :: "call \<Rightarrow> 'w world \<Rightarrow> 'w world" where
  "replace_call c w = w\<lparr>w_calls := map (\<lambda>d. if ca_id d = ca_id c then c else d) (w_calls w)\<rparr>"

definition transcript_rows_error :: "transcript list \<Rightarrow> 'w world \<Rightarrow> exc option" where
  "transcript_rows_error ts w =
     (if \<not> distinct (map tr_id (w_transcripts w @ ts)) then Some (IntegrityError ''call_transcripts_pkey'')
      else if \<not> distinct (map (\<lambda>t. (tr_call_id t, tr_sequence t)) (w_transcripts w @ ts))
      then Some (IntegrityError ''uq_call_transcript_sequence'')
      else if \<exists>t \<in> set ts. tr_call_id t \<notin> ca_id ` set (w_calls w)
      then Some (IntegrityError ''call_transcripts_call_id_fkey'')
      else None)"

definition commit_call :: "'w runtime \<Rightarrow> call \<Rightarrow> transcript list \<Rightarrow> ('w world, unit) prog" where
  "commit_call rt c ts = db_op rt (\<lambda>w.
     if ca_id c \<notin> ca_id ` set (w_calls w)
     then (Inl (OtherError ''StaleDataError'' ''expected to update 1 row(s); 0 were matched''), w)
     else case call_row_error c w of
         Some e \<Rightarrow> (Inl e, w)
       | None \<Rightarrow>
           (case transcript_rows_error ts w of
              Some e \<Rightarrow> (Inl e, w)
            | None \<Rightarrow> (Inr (), (replace_call c w)\<lparr>w_transcripts := w_transcripts w @ ts\<rparr>)))"

section \<open>The end of a call\<close>

text \<open>
  The loop over \<^verbatim>\<open>enumerate(conversation.history)\<close>: the position, speaker and text of every message
  that was said; the sequence number is the position in the history.
\<close>

definition spoken_lines :: "llm_message list \<Rightarrow> (int \<times> speaker_role \<times> string) list" where
  "spoken_lines h = map (\<lambda>(i, m). (int i, if m_role m = USER then CALLER else AGENT, m_content m))
     (filter (\<lambda>(i, m). \<not> (m_role m = TOOL \<or> m_content m = [])) (enumerate 0 h))"

text \<open>The identifiers are drawn when the rows are flushed, in order.\<close>

fun transcript_rows ::
  "'w runtime \<Rightarrow> uuid \<Rightarrow> (int \<times> speaker_role \<times> string) list \<Rightarrow> ('w world, transcript list) prog" where
  "transcript_rows rt call_id [] = ret []"
| "transcript_rows rt call_id ((i, r, t) # ls) =
     bind_prog (new_uuid rt) (\<lambda>u.
       bind_prog (transcript_rows rt call_id ls) (\<lambda>ts.
         ret (\<lparr>tr_id = u, tr_call_id = call_id, tr_sequence = i, tr_role = r, tr_text = t\<rparr> # ts)))"

text \<open>
  \<open>enqueue\<close> is \<^verbatim>\<open>summarize_call_task.delay\<close>, whose failure is only logged. The result tells whether
  the call was found and written.
\<close>

definition finalize_call ::
  "'w runtime \<Rightarrow> (uuid \<Rightarrow> ('w, unit) prog) \<Rightarrow> uuid \<Rightarrow> llm_message list \<Rightarrow> ('w world, bool) prog" where
  "finalize_call rt enqueue call_id history =
     bind_prog (get_call rt call_id) (\<lambda>r. case r of
         None \<Rightarrow> ret False
       | Some c \<Rightarrow>
           bind_prog (\<lambda>w. (Inr (utc_now rt w), w)) (\<lambda>now.
             bind_prog (transcript_rows rt call_id (spoken_lines history)) (\<lambda>ts.
               bind_prog (commit_call rt (c\<lparr>ca_status := CALL_COMPLETED, ca_ended_at := Some now\<rparr>) ts)
                 (\<lambda>_. bind_prog (try_prog (lift_ext (enqueue call_id)) (\<lambda>e. ret ()))
                   (\<lambda>_. ret True)))))"

section \<open>The summary\<close>

definition summary_system_prompt :: string where
  "summary_system_prompt = ''Summarize the following phone call transcript in 2-3 sentences for a staff member who wasn't on the call. Focus on what the caller wanted and what was resolved or still needs follow-up.''"

fun speaker_role_value :: "speaker_role \<Rightarrow> string" where
  "speaker_role_value CALLER = ''caller''"
| "speaker_role_value AGENT = ''agent''"
| "speaker_role_value SYSTEM = ''system''"

definition transcript_text :: "transcript list \<Rightarrow> string" where
  "transcript_text ts = py_join [CHR 0x0A]
     (map (\<lambda>t. speaker_role_value (tr_role t) @ '': '' @ tr_text t) ts)"

text \<open>The provider is the process's own, so it acts on the external world only.\<close>

definition summarize_call ::
  "'w runtime \<Rightarrow> 'w llm_provider \<Rightarrow> uuid \<Rightarrow> ('w world, unit) prog" where
  "summarize_call rt llm call_id =
     bind_prog (get_call_with_transcript rt call_id) (\<lambda>r. case r of
         None \<Rightarrow> ret ()
       | Some (c, ts) \<Rightarrow>
           if transcript_text ts = [] then ret ()
           else bind_prog (lift_ext (generate llm [text_message USER (transcript_text ts)]
                  (Some summary_system_prompt) 200 None)) (\<lambda>response.
             commit_call rt (c\<lparr>ca_summary := Some (r_content response)\<rparr>) []))"

text \<open>
  The Celery task: an LLM failure asks for a retry, up to three of them, whatever else is raised
  fails the task.
\<close>

datatype task_outcome = Task_Done | Task_Retry exc | Task_Failed exc

definition summarize_call_task ::
  "'w runtime \<Rightarrow> 'w llm_provider \<Rightarrow> string \<Rightarrow> 'w world \<Rightarrow> task_outcome \<times> 'w world" where
  "summarize_call_task rt llm call_id w =
     (case uuid_of call_id of
        None \<Rightarrow> (Task_Failed (ValueError ''badly formed hexadecimal UUID string''), w)
      | Some i \<Rightarrow>
          (case summarize_call rt llm i w of
             (Inr _, t) \<Rightarrow> (Task_Done, t)
           | (Inl (LLMProviderError m), t) \<Rightarrow> (Task_Retry (LLMProviderError m), t)
           | (Inl e, t) \<Rightarrow> (Task_Failed e, t)))"

end
