(* ===== verification/Py_URL.thy ===== *)
theory Py_URL
  imports Py_ISO
begin

text \<open>
  \<^verbatim>\<open>urllib.parse.urlparse\<close> as far as the health check reads it: scheme, host name and port of a
  URL. A host in brackets is taken as it is (the validity of an IPv6 address is not checked).
\<close>

definition partition_at :: "char \<Rightarrow> string \<Rightarrow> string \<times> bool \<times> string" where
  "partition_at c s =
     (takeWhile (\<lambda>d. d \<noteq> c) s, c \<in> set s, drop (Suc (length (takeWhile (\<lambda>d. d \<noteq> c) s))) s)"

text \<open>The text after the last \<open>c\<close>, or all of it.\<close>

definition after_last :: "char \<Rightarrow> string \<Rightarrow> string" where
  "after_last c s = rev (takeWhile (\<lambda>d. d \<noteq> c) (rev s))"

definition is_alpha :: "char \<Rightarrow> bool" where
  "is_alpha c = (let n = (of_char c :: nat) in 65 \<le> n \<and> n \<le> 90 \<or> 97 \<le> n \<and> n \<le> 122)"

definition is_scheme_char :: "char \<Rightarrow> bool" where
  "is_scheme_char c \<longleftrightarrow> is_alpha c \<or> is_digit c \<or> c \<in> {CHR ''+'', CHR ''-'', CHR ''.''}"

text \<open>Leading control characters and spaces go, and tabs and line ends anywhere.\<close>

definition clean_url :: "string \<Rightarrow> string" where
  "clean_url s = filter (\<lambda>c. c \<notin> {CHR 0x09, CHR 0x0A, CHR 0x0D})
     (dropWhile (\<lambda>c. (of_char c :: nat) \<le> 32) s)"

definition split_scheme :: "string \<Rightarrow> string \<times> string" where
  "split_scheme s =
     (let (pre, colon, rest) = partition_at (CHR '':'') s
      in if colon \<and> pre \<noteq> [] \<and> is_alpha (hd pre) \<and> list_all is_scheme_char pre
         then (py_lower pre, rest) else ([], s))"

definition netloc_of :: "string \<Rightarrow> string" where
  "netloc_of s = (if take 2 s = ''//''
     then takeWhile (\<lambda>c. c \<notin> {CHR ''/'', CHR ''?'', CHR ''#''}) (drop 2 s) else [])"

text \<open>Host and port text of a network location; an empty port is none.\<close>

definition hostinfo :: "string \<Rightarrow> string \<times> string option" where
  "hostinfo netloc =
     (let info = after_last (CHR ''@'') netloc;
          (_, bracket, inside) = partition_at (CHR ''['') info;
          (host, port) =
            (if bracket
             then (let (h, _, p) = partition_at (CHR '']'') inside
                   in (h, snd (snd (partition_at (CHR '':'') p))))
             else (let (h, _, p) = partition_at (CHR '':'') info in (h, p)))
      in (host, if port = [] then None else Some port))"

record parsed_url =
  pu_scheme :: string
  pu_hostname :: "string option"
  pu_port :: "int option res"

definition url_hostname :: "string \<Rightarrow> string option" where
  "url_hostname host =
     (if host = [] then None
      else (let (name, percent, zone) = partition_at (CHR ''%'') host
            in Some (py_lower name @ (if percent then CHR ''%'' # zone else []))))"

definition url_port :: "string option \<Rightarrow> int option res" where
  "url_port port =
     (case port of
        None \<Rightarrow> Inr None
      | Some p \<Rightarrow>
          (if \<not> list_all is_digit p then Inl (ValueError ''Port could not be cast to integer value'')
           else (let n = foldl (\<lambda>n c. n * 10 + digit_value c) 0 p
                 in if n \<le> 65535 then Inr (Some n) else Inl (ValueError ''Port out of range 0-65535''))))"

definition urlparse :: "string \<Rightarrow> parsed_url res" where
  "urlparse url =
     (let (scheme, rest) = split_scheme (clean_url url);
          netloc = netloc_of rest;
          (host, port) = hostinfo netloc
      in if (CHR ''['' \<in> set netloc) \<noteq> (CHR '']'' \<in> set netloc)
         then Inl (ValueError ''Invalid IPv6 URL'')
         else Inr \<lparr>pu_scheme = scheme, pu_hostname = url_hostname host, pu_port = url_port port\<rparr>)"

end
