(* ===== verification/Api.thy ===== *)
theory Api
  imports CRM Booking_Service Config Py_URL
begin

text \<open>
  \<^verbatim>\<open>openvoice/api\<close> and the error handlers of \<^verbatim>\<open>openvoice/main.py\<close>: the endpoints as programs over the
  tables, and the response the application sends. Parsing of paths, queries and bodies is
  FastAPI's.
\<close>

section \<open>Responses\<close>

datatype 'a http = HTTP_Ok 'a | HTTP_Exception nat string

datatype 'a response = Response nat 'a | Failure nat string

text \<open>
  The three handlers \<^verbatim>\<open>create_app\<close> registers; what no handler takes becomes a plain 500.
\<close>

definition respond :: "nat \<Rightarrow> 'a http res \<Rightarrow> 'a response" where
  "respond status r =
     (case r of
        Inr (HTTP_Ok x) \<Rightarrow> Response status x
      | Inr (HTTP_Exception code detail) \<Rightarrow> Failure code detail
      | Inl (CalendarError m) \<Rightarrow> Failure 503 (''Calendar unavailable: '' @ m)
      | Inl (NotificationError m) \<Rightarrow> Failure 502 (''Notification delivery failed: '' @ m)
      | Inl (BookingError m) \<Rightarrow> Failure 409 m
      | Inl e \<Rightarrow> Failure 500 ''Internal Server Error'')"

definition serve :: "nat \<Rightarrow> ('w, 'a http) prog \<Rightarrow> 'w \<Rightarrow> 'a response \<times> 'w" where
  "serve status m w = (case m w of (r, w') \<Rightarrow> (respond status r, w'))"

definition found_or_404 :: "string \<Rightarrow> 'a option \<Rightarrow> ('a \<Rightarrow> ('w, 'b http) prog) \<Rightarrow> ('w, 'b http) prog" where
  "found_or_404 detail r f = (case r of None \<Rightarrow> ret (HTTP_Exception 404 detail) | Some x \<Rightarrow> f x)"

definition ok :: "('w, 'a) prog \<Rightarrow> ('w, 'a http) prog" where
  "ok m = bind_prog m (\<lambda>x. ret (HTTP_Ok x))"

section \<open>Response bodies\<close>

text \<open>The schemas; time stamps the database maintains are left out as in \<open>DB\<close>.\<close>

record client_out =
  co_id :: uuid
  co_phone_number :: string
  co_full_name :: "string option"
  co_email :: "string option"
  co_notes :: "string option"

definition client_out :: "client \<Rightarrow> client_out" where
  "client_out c = \<lparr>co_id = cl_id c, co_phone_number = cl_phone_number c, co_full_name = cl_full_name c,
     co_email = cl_email c, co_notes = cl_notes c\<rparr>"

record transcript_out =
  to_sequence :: int
  to_role :: speaker_role
  to_text :: string

definition transcript_out :: "transcript \<Rightarrow> transcript_out" where
  "transcript_out t = \<lparr>to_sequence = tr_sequence t, to_role = tr_role t, to_text = tr_text t\<rparr>"

record call_out =
  cao_id :: uuid
  cao_client_id :: "uuid option"
  cao_direction :: call_direction
  cao_status :: call_status
  cao_started_at :: datetime
  cao_ended_at :: "datetime option"
  cao_summary :: "string option"

definition call_out :: "call \<Rightarrow> call_out" where
  "call_out c = \<lparr>cao_id = ca_id c, cao_client_id = ca_client_id c, cao_direction = ca_direction c,
     cao_status = ca_status c, cao_started_at = ca_started_at c, cao_ended_at = ca_ended_at c,
     cao_summary = ca_summary c\<rparr>"

record call_with_transcript_out = call_out +
  cao_transcripts :: "transcript_out list"

definition call_with_transcript_out :: "call \<times> transcript list \<Rightarrow> call_with_transcript_out" where
  "call_with_transcript_out ct =
     call_out.extend (call_out (fst ct)) \<lparr>cao_transcripts = map transcript_out (snd ct)\<rparr>"

record appointment_out =
  ao_id :: uuid
  ao_client_id :: uuid
  ao_call_id :: "uuid option"
  ao_starts_at :: datetime
  ao_ends_at :: datetime
  ao_status :: appointment_status
  ao_calendar_event_id :: "string option"
  ao_notes :: "string option"

definition appointment_out :: "appointment \<Rightarrow> appointment_out" where
  "appointment_out a = \<lparr>ao_id = ap_id a, ao_client_id = ap_client_id a, ao_call_id = ap_call_id a,
     ao_starts_at = ap_starts_at a, ao_ends_at = ap_ends_at a, ao_status = ap_status a,
     ao_calendar_event_id = ap_calendar_event_id a, ao_notes = ap_notes a\<rparr>"

text \<open>
  The bodies of the requests. Their times are aware: the schemas also accept naive ones, and what the
  database's driver makes of these is not in the repository.
\<close>

record appointment_create_request =
  acr_phone_number :: string
  acr_starts_at :: datetime
  acr_ends_at :: datetime
  acr_notes :: "string option"

record appointment_reschedule_request =
  arr_starts_at :: datetime
  arr_ends_at :: datetime

section \<open>Endpoints\<close>

text \<open>
  \<open>GET /appointments/available-slots\<close>; a search that never returns has no result.
\<close>

definition api_available_slots ::
  "'w runtime \<Rightarrow> settings \<Rightarrow> 'w booking_service \<Rightarrow> int option \<Rightarrow> int option \<Rightarrow> 'w world
   \<Rightarrow> (time_slot list response \<times> 'w world) option" where
  "api_available_slots rt s bs duration_minutes search_days w =
     map_option (\<lambda>(r, x). (respond 200 (map_sum id HTTP_Ok r), w\<lparr>w_ext := x\<rparr>))
       (find_available_slots bs (utc_now rt w)
          (case search_days of
             Some n \<Rightarrow> (if n = 0 then booking_search_days_ahead s else n)
           | None \<Rightarrow> booking_search_days_ahead s)
          duration_minutes 5 (w_ext w))"

definition api_create_appointment ::
  "'w runtime \<Rightarrow> 'w booking_service \<Rightarrow> appointment_create_request \<Rightarrow> ('w world, appointment_out http) prog" where
  "api_create_appointment rt bs payload =
     bind_prog (get_or_create_client rt (acr_phone_number payload)) (\<lambda>c.
       ok (bind_prog (book_appointment rt bs c (acr_starts_at payload) (acr_ends_at payload) None
             (acr_notes payload)) (\<lambda>a. ret (appointment_out a))))"

definition api_cancel_appointment ::
  "'w runtime \<Rightarrow> 'w booking_service \<Rightarrow> uuid \<Rightarrow> ('w world, unit http) prog" where
  "api_cancel_appointment rt bs i =
     bind_prog (get_appointment rt i) (\<lambda>r. found_or_404 ''Appointment not found'' r
       (\<lambda>a. ok (cancel_appointment rt bs a)))"

definition api_reschedule_appointment ::
  "'w runtime \<Rightarrow> 'w booking_service \<Rightarrow> uuid \<Rightarrow> appointment_reschedule_request
   \<Rightarrow> ('w world, appointment_out http) prog" where
  "api_reschedule_appointment rt bs i payload =
     bind_prog (get_appointment rt i) (\<lambda>r. found_or_404 ''Appointment not found'' r (\<lambda>a.
       try_prog
         (ok (bind_prog (reschedule_appointment rt bs a (arr_starts_at payload) (arr_ends_at payload))
            (\<lambda>u. ret (appointment_out u))))
         (\<lambda>e. case e of BookingError m \<Rightarrow> ret (HTTP_Exception 409 m) | _ \<Rightarrow> raise e)))"

definition api_get_call ::
  "'w runtime \<Rightarrow> uuid \<Rightarrow> ('w world, call_with_transcript_out http) prog" where
  "api_get_call rt i =
     bind_prog (get_call_with_transcript rt i) (\<lambda>r. found_or_404 ''Call not found'' r
       (\<lambda>c. ret (HTTP_Ok (call_with_transcript_out c))))"

text \<open>Newest first is the reverse of the order in which the rows were created.\<close>

definition api_list_clients :: "'w runtime \<Rightarrow> int \<Rightarrow> int \<Rightarrow> ('w world, client_out list http) prog" where
  "api_list_clients rt limit offset =
     (if limit < 0 then raise (db_error ''LIMIT must not be negative'')
      else if offset < 0 then raise (db_error ''OFFSET must not be negative'')
      else ok (query rt (\<lambda>w. map client_out
             (take (nat limit) (drop (nat offset) (rev (w_clients w)))))))"

definition api_get_client :: "'w runtime \<Rightarrow> uuid \<Rightarrow> ('w world, client_out http) prog" where
  "api_get_client rt i =
     bind_prog (get_client rt i) (\<lambda>r. found_or_404 ''Client not found'' r
       (\<lambda>c. ret (HTTP_Ok (client_out c))))"

definition api_get_client_calls :: "'w runtime \<Rightarrow> uuid \<Rightarrow> ('w world, call_out list http) prog" where
  "api_get_client_calls rt i =
     bind_prog (get_client rt i) (\<lambda>r. found_or_404 ''Client not found'' r
       (\<lambda>c. ok (bind_prog (get_call_history rt i 50) (\<lambda>cs. ret (map call_out cs)))))"

section \<open>Health\<close>

record health_dependency =
  hd_name :: string
  hd_healthy :: bool
  hd_required :: bool
  hd_detail :: "string option"

record health_response =
  hr_status :: string
  hr_dependencies :: "health_dependency list"

definition healthy :: "string \<Rightarrow> bool \<Rightarrow> health_dependency" where
  "healthy n required = \<lparr>hd_name = n, hd_healthy = True, hd_required = required, hd_detail = None\<rparr>"

definition unhealthy :: "string \<Rightarrow> bool \<Rightarrow> string \<Rightarrow> health_dependency" where
  "unhealthy n required detail =
     \<lparr>hd_name = n, hd_healthy = False, hd_required = required, hd_detail = Some detail\<rparr>"

definition check_database :: "'w runtime \<Rightarrow> ('w world, health_dependency) prog" where
  "check_database rt =
     try_prog (bind_prog (query rt (\<lambda>w. ())) (\<lambda>_. ret (healthy ''database'' True)))
       (\<lambda>e. ret (unhealthy ''database'' True (exc_str e)))"

text \<open>
  \<^verbatim>\<open>redis.asyncio\<close> and \<^verbatim>\<open>asyncio.open_connection\<close> as the checks use them; \<^verbatim>\<open>from_url\<close> may refuse
  the URL.
\<close>

record 'w network =
  redis_from_url :: "string \<Rightarrow> ('w, unit) prog"
  redis_ping :: "('w, unit) prog"
  redis_aclose :: "('w, unit) prog"
  env_livekit_url :: "string option"
  open_connection :: "string \<Rightarrow> int \<Rightarrow> ('w, unit) prog"

text \<open>\<^verbatim>\<open>finally\<close>: the closing runs however the check ended, and its exception wins.\<close>

definition check_redis :: "settings \<Rightarrow> 'w network \<Rightarrow> ('w world, health_dependency) prog" where
  "check_redis s net =
     bind_prog (lift_ext (redis_from_url net (redis_url s))) (\<lambda>_.
       bind_prog
         (try_prog (bind_prog (lift_ext (redis_ping net)) (\<lambda>_. ret (healthy ''redis'' True)))
            (\<lambda>e. ret (unhealthy ''redis'' True (exc_str e))))
         (\<lambda>d. bind_prog (lift_ext (redis_aclose net)) (\<lambda>_. ret d)))"

definition check_livekit :: "'w network \<Rightarrow> ('w world, health_dependency) prog" where
  "check_livekit net =
     (if \<not> truthy_str (env_livekit_url net)
      then ret (\<lparr>hd_name = ''livekit'', hd_healthy = True, hd_required = False,
        hd_detail = Some ''not configured''\<rparr>)
      else
        (let url = the (env_livekit_url net)
         in bind_prog (lift_res (urlparse
                (py_replace ''wss://'' ''https://'' (py_replace ''ws://'' ''http://'' url)))) (\<lambda>parsed.
              bind_prog (lift_res (pu_port parsed)) (\<lambda>p.
                let port = (case p of
                      Some n \<Rightarrow> (if n = 0 then (if pu_scheme parsed = ''https'' then 443 else 80) else n)
                    | None \<Rightarrow> (if pu_scheme parsed = ''https'' then 443 else 80))
                in case pu_hostname parsed of
                     None \<Rightarrow> ret (unhealthy ''livekit'' False (''unparseable LIVEKIT_URL: '' @ url))
                   | Some host \<Rightarrow>
                       try_prog (bind_prog (lift_ext (open_connection net host port))
                           (\<lambda>_. ret (healthy ''livekit'' False)))
                         (\<lambda>e. ret (unhealthy ''livekit'' False (exc_str e)))))))"

definition overall_status :: "health_dependency list \<Rightarrow> string" where
  "overall_status ds =
     (if list_all hd_healthy (filter hd_required ds) then ''ok'' else ''degraded'')"

definition health :: "'w runtime \<Rightarrow> settings \<Rightarrow> 'w network \<Rightarrow> ('w world, health_response) prog" where
  "health rt s net =
     bind_prog (check_database rt) (\<lambda>d1.
       bind_prog (check_redis s net) (\<lambda>d2.
         bind_prog (check_livekit net) (\<lambda>d3.
           ret \<lparr>hr_status = overall_status [d1, d2, d3], hr_dependencies = [d1, d2, d3]\<rparr>)))"

end
