(* ===== verification/Booking_Ledger.thy ===== *)
theory Booking_Ledger
  imports Booking_Thms
begin

text \<open>
  What the booking service promises, without columns, events and sessions: a register of whom every
  identifier belongs to and which time it holds. Every operation of the service is one step of the
  register, or leaves it alone, however the calendar, the messaging services and the database connection
  behave.
\<close>

section \<open>The ledger\<close>

text \<open>
  Who holds which time: an entry is the client, the instant the appointment begins and the instant it
  ends. The ledger is the part of the register below that is held.
\<close>

type_synonym entry = "uuid \<times> int \<times> int"

definition entry :: "appointment \<Rightarrow> entry" where
  "entry a = (ap_client_id a, dt_instant (ap_starts_at a), dt_instant (ap_ends_at a))"

definition ledger :: "'w world \<Rightarrow> uuid \<Rightarrow> entry option" where
  "ledger w = map_of (map (\<lambda>a. (ap_id a, entry a)) (filter active (w_appointments w)))"

text \<open>
  The register: whom an identifier belongs to, and the time that it holds, \<open>None\<close> once it is released.
\<close>

type_synonym registered = "uuid \<times> (int \<times> int) option"

definition registered :: "appointment \<Rightarrow> registered" where
  "registered a = (ap_client_id a,
     if active a then Some (dt_instant (ap_starts_at a), dt_instant (ap_ends_at a)) else None)"

definition register :: "'w world \<Rightarrow> uuid \<Rightarrow> registered option" where
  "register w = map_of (map (\<lambda>a. (ap_id a, registered a)) (w_appointments w))"

text \<open>
  A new identifier gets a time only apart from every other time of its client. An identifier that exists
  may be released, and moved to any time: neither the other times of the client nor whether it has
  been released before matters to a move.
\<close>

inductive register_step :: "(uuid \<Rightarrow> registered option) \<Rightarrow> (uuid \<Rightarrow> registered option) \<Rightarrow> bool" where
  untouched: "register_step R R"
| reserved: "R i = None \<Longrightarrow> s < e \<Longrightarrow> \<forall>j s' e'. R j = Some (c, Some (s', e')) \<longrightarrow> e \<le> s' \<or> e' \<le> s
    \<Longrightarrow> register_step R (R(i \<mapsto> (c, Some (s, e))))"
| released: "R i = Some (c, t) \<Longrightarrow> register_step R (R(i \<mapsto> (c, None)))"
| moved_to: "R i = Some (c, t) \<Longrightarrow> s < e \<Longrightarrow> register_step R (R(i \<mapsto> (c, Some (s, e))))"

inductive_cases register_stepE: "register_step R R'"

text \<open>An identifier belongs to its client for good.\<close>

lemma register_step_owner:
  "register_step R R' \<Longrightarrow> R i = Some (c, t) \<Longrightarrow> \<exists>t'. R' i = Some (c, t')"
  by (erule register_stepE) auto

lemma register_run_owner:
  "register_step\<^sup>*\<^sup>* R R' \<Longrightarrow> R i = Some (c, t) \<Longrightarrow> \<exists>t'. R' i = Some (c, t')"
  by (induction rule: rtranclp_induct) (auto dest: register_step_owner)

section \<open>Rows and entries\<close>

lemma registered_stored [simp]: "registered (stored a) = registered a"
  by (simp add: registered_def active_def)

lemma register_cong: "w_appointments t = w_appointments s \<Longrightarrow> register t = register s"
  by (simp add: register_def)

lemma register_same: "tables_same s t \<Longrightarrow> register t = register s"
  by (rule register_cong) (rule tables_same_fields)

lemma db_ok_register:
  assumes "db_ok w" and "a \<in> set (w_appointments w)"
  shows "register w (ap_id a) = Some (registered a)"
  using assms unfolding register_def
  by (intro map_of_is_SomeI) (auto simp: comp_def db_ok_def)

lemma register_SomeE:
  assumes "register w i = Some x"
  obtains a where "a \<in> set (w_appointments w)" "ap_id a = i" "registered a = x"
  using map_of_SomeD [OF assms [unfolded register_def]] by auto

lemma db_ok_ledger:
  assumes "db_ok w" and "a \<in> set (w_appointments w)" and "active a"
  shows "ledger w (ap_id a) = Some (entry a)"
proof -
  have "distinct (map ap_id (filter active (w_appointments w)))"
    using assms(1) by (intro distinct_map_filter) (simp add: db_ok_def)
  then show ?thesis
    using assms(2,3) unfolding ledger_def
    by (intro map_of_is_SomeI) (auto simp: comp_def)
qed

text \<open>The two ways in which the service changes the table.\<close>

lemma map_of_append_fresh:
  "k \<notin> fst ` set xs \<Longrightarrow> [k \<mapsto> v] ++ map_of xs = (map_of xs)(k \<mapsto> v)"
  by (rule ext)
    (auto simp: map_add_def simp del: map_of_eq_None_iff dest: map_of_eq_None_iff [THEN iffD2]
      split: option.split)

lemma register_insert:
  assumes "ap_id a \<notin> ap_id ` set (w_appointments w)"
  shows "register (w\<lparr>w_appointments := w_appointments w @ [stored a]\<rparr>) = (register w)(ap_id a \<mapsto> registered a)"
proof -
  have "ap_id a \<notin> fst ` set (map (\<lambda>a. (ap_id a, registered a)) (w_appointments w))"
    using assms by auto
  from map_of_append_fresh [OF this] show ?thesis by (simp add: register_def)
qed

lemma map_of_replace:
  "map_of (map (\<lambda>b. (ap_id b, registered b)) (map (\<lambda>b. if ap_id b = ap_id a then stored a else b) xs)) i =
    (if i = ap_id a
     then (if i \<in> ap_id ` set xs then Some (registered a) else None)
     else map_of (map (\<lambda>b. (ap_id b, registered b)) xs) i)"
  by (induction xs) auto

lemma row_updated_register:
  assumes "row_updated a w w'"
  shows "register w' = (register w)(ap_id a \<mapsto> registered a)"
proof -
  from assms obtain t where t: "tables_same w t" and mem: "ap_id a \<in> ap_id ` set (w_appointments t)"
    and w': "w' = t\<lparr>w_appointments :=
       map (\<lambda>b. if ap_id b = ap_id a then stored a else b) (w_appointments t)\<rparr>"
    unfolding row_updated_def by blast
  have "register w' = (register t)(ap_id a \<mapsto> registered a)"
    by (rule ext) (use map_of_replace [of a] mem in \<open>simp add: register_def w'\<close>)
  then show ?thesis using register_same [OF t] by simp
qed

section \<open>One lemma for each operation\<close>

lemma booked_register:
  assumes b: "booked client start stop call_id notes w w'"
  shows "register_step (register w) (register w')"
proof -
  from b obtain i event t where t: "tables_same w t"
    and no: "\<forall>a \<in> set (w_appointments w). \<not> overlaps_window (cl_id client) start stop a"
    and row: "appointment_row_error (new_appointment i client start stop call_id notes event) t = None"
    and fresh: "i \<notin> ap_id ` set (w_appointments t)"
    and w': "tables_same (t\<lparr>w_appointments := w_appointments t @
       [stored (new_appointment i client start stop call_id notes event)]\<rparr>) w'"
    unfolding booked_def by blast
  let ?a = "new_appointment i client start stop call_id notes event"
  let ?x = "(cl_id client, Some (dt_instant start, dt_instant stop))"
  have a: "ap_id ?a = i" "registered ?a = ?x"
    by (simp_all add: new_appointment_def active_def registered_def)
  have "register w' = (register t)(i \<mapsto> ?x)"
    using register_same [OF w'] register_insert [of ?a t] fresh a by simp
  then have new: "register w' = (register w)(i \<mapsto> ?x)" using register_same [OF t] by simp
  have order: "dt_instant start < dt_instant stop"
    using row by (simp add: row_error_None new_appointment_def dt_less_def)
  have free: "register w i = None"
    using fresh tables_same_fields(1) [OF t] by (auto simp: register_def map_of_eq_None_iff)
  have "dt_instant stop \<le> s \<or> e \<le> dt_instant start" if y: "register w j = Some (cl_id client, Some (s, e))" for j s e
  proof -
    from y obtain b where "b \<in> set (w_appointments w)" "registered b = (cl_id client, Some (s, e))"
      by (rule register_SomeE)
    with no show ?thesis
      by (fastforce simp: registered_def overlaps_window_def dt_less_def split: if_splits)
  qed
  with new order free show ?thesis by (simp add: register_step.reserved)
qed

lemma cancelled_register:
  assumes "row_updated (a\<lparr>ap_status := CANCELLED\<rparr>) w w'" and "a \<in> set (w_appointments w)" and "db_ok w"
  shows "register w' = (register w)(ap_id a \<mapsto> (ap_client_id a, None)) \<and> register_step (register w) (register w')"
proof -
  have new: "register w' = (register w)(ap_id a \<mapsto> (ap_client_id a, None))"
    using row_updated_register [OF assms(1)] by (simp add: registered_def active_def)
  have "register w (ap_id a) = Some (registered a)" using assms(2,3) by (simp add: db_ok_register)
  then show ?thesis unfolding new by (simp add: registered_def register_step.released)
qed

lemma moved_register:
  assumes "row_updated (moved a start stop) w w'" and "a \<in> set (w_appointments w)" and "db_ok w"
  shows "register w' = (register w)(ap_id a \<mapsto> (ap_client_id a, Some (dt_instant start, dt_instant stop))) \<and>
    register_step (register w) (register w')"
proof -
  have a: "ap_id (moved a start stop) = ap_id a"
    "registered (moved a start stop) = (ap_client_id a, Some (dt_instant start, dt_instant stop))"
    by (simp_all add: moved_def active_def registered_def)
  then have new: "register w' = (register w)(ap_id a \<mapsto> (ap_client_id a, Some (dt_instant start, dt_instant stop)))"
    using row_updated_register [OF assms(1)] by simp
  have "register w (ap_id a) = Some (registered a)" using assms(2,3) by (simp add: db_ok_register)
  moreover from assms(1) have "dt_instant start < dt_instant stop"
    by (auto simp: row_updated_def row_error_None moved_def dt_less_def)
  ultimately show ?thesis unfolding new by (simp add: registered_def register_step.moved_to)
qed

section \<open>The service simulates the register\<close>

text \<open>
  Everything that the service is asked to do: it cancels and moves appointments that are in the table,
  whatever their status, as the REST API and the tools hand them out; between its operations clients are
  added and the world goes on.
\<close>

inductive service_step :: "'w runtime \<Rightarrow> 'w booking_service \<Rightarrow> 'w world \<Rightarrow> 'w world \<Rightarrow> bool"
  for rt bs where
  service_books: "service_step rt bs w (snd (book_appointment rt bs client start stop call_id notes w))"
| service_cancels: "a \<in> set (w_appointments w) \<Longrightarrow> service_step rt bs w (snd (cancel_appointment rt bs a w))"
| service_moves: "a \<in> set (w_appointments w)
    \<Longrightarrow> service_step rt bs w (snd (reschedule_appointment rt bs a start stop w))"
| service_client: "service_step rt bs w (snd (insert_client rt c w))"
| service_outside: "service_step rt bs w (w\<lparr>w_ext := e\<rparr>)"

lemma booking_step_db_ok: "booking_step rt bs w w' \<Longrightarrow> db_ok w \<Longrightarrow> db_ok w'"
proof (induction rule: booking_step.induct)
  case (books w client start stop call_id "notes")
  then show ?case
    using book_effect [of w rt bs client start stop call_id "notes"] booked_db_ok tables_same_inv
    by metis
next
  case (cancels w a)
  then show ?case using cancel_effect [of w rt bs a] row_updated_db_ok tables_same_inv by metis
qed (simp_all add: insert_client_ok)

interpretation service: simulation db_ok "service_step rt bs" register register_step
  for rt :: "'w runtime" and bs :: "'w booking_service"
proof
  fix w w' :: "'w world"
  assume ok: "db_ok w" and step: "service_step rt bs w w'"
  from step show "db_ok w'"
  proof (cases rule: service_step.cases)
    case (service_moves a start stop)
    then show ?thesis
      using ok reschedule_effect [of w rt bs a start stop] row_updated_db_ok tables_same_inv by metis
  next
    case (service_books client start stop call_id "notes")
    then show ?thesis using booking_step_db_ok [OF booking_step.books ok] by simp
  next
    case (service_cancels a)
    then show ?thesis using booking_step_db_ok [OF booking_step.cancels ok] by simp
  next
    case (service_client c)
    then show ?thesis using booking_step_db_ok [OF booking_step.client_added ok] by simp
  next
    case (service_outside e)
    then show ?thesis using booking_step_db_ok [OF booking_step.outside ok] by simp
  qed
  from step show "register_step (register w) (register w')"
  proof (cases rule: service_step.cases)
    case (service_books client start stop call_id "notes")
    then show ?thesis
      using book_effect [of w rt bs client start stop call_id "notes"] booked_register register_same
        register_step.untouched by metis
  next
    case (service_cancels a)
    then show ?thesis
      using ok cancel_effect [of w rt bs a] cancelled_register register_same register_step.untouched by metis
  next
    case (service_moves a start stop)
    then show ?thesis
      using ok reschedule_effect [of w rt bs a start stop] moved_register register_same
        register_step.untouched by metis
  next
    case (service_client c)
    have "register w' = register w" by (rule register_cong) (simp add: service_client)
    then show ?thesis by (simp add: register_step.untouched)
  next
    case (service_outside e)
    have "register w' = register w" by (rule register_cong) (simp add: service_outside)
    then show ?thesis by (simp add: register_step.untouched)
  qed
qed

section \<open>What a booking leaves\<close>

lemma refresh_result:
  assumes "refresh_appointment rt a w = (Inr b, w')"
  shows "b \<in> set (w_appointments w) \<and> ap_id b = ap_id a \<and> w' = w"
  using assms
  by (auto simp: refresh_appointment_def get_appointment_def query_def db_op_def bind_prog_apply
      split: option.splits dest: find_mem)

lemma find_overlapping_Some:
  assumes "find_overlapping_appointment rt cid start stop w = (Inr (Some a), w')"
  shows "a \<in> set (w_appointments w) \<and> overlaps_window cid start stop a \<and> w' = w"
  using assms
  by (auto simp: find_overlapping_appointment_def query_dt_def query_def db_op_def
      split: if_splits option.splits dest: find_mem)

lemma save_result:
  assumes "save_booking rt bs client a w = (Inr b, w')" and "ap_id a \<notin> ap_id ` set (w_appointments w)"
  shows "b = stored a \<and> b \<in> set (w_appointments w')"
proof -
  from assms(1) obtain u v t r where ins: "insert_appointment rt a w = (Inr u, v)"
    and ref: "refresh_appointment rt a v = (Inr b, t)"
    and sent: "send_confirmation bs client b t = (r, w')"
    unfolding save_booking_def by (elim bind_progE) auto
  have v: "w_appointments v = w_appointments w @ [stored a]"
    using ins by (auto simp: insert_appointment_def db_op_def split: option.splits if_splits)
  have b: "b \<in> set (w_appointments v)" "ap_id b = ap_id a" "t = v"
    using refresh_result [OF ref] by simp_all
  have "tables_same t w'" by (rule keeps_result [OF keeps_send_confirmation sent])
  then have "w_appointments w' = w_appointments w @ [stored a]"
    using b(3) v tables_same_fields(1) by metis
  with b(1,2) v assms(2) show ?thesis by (auto simp: image_iff)
qed

lemma create_result:
  assumes "create_booking rt bs client start stop call_id notes w = (Inr b, w')"
  shows "b \<in> set (w_appointments w') \<and> active b \<and>
    entry b = (cl_id client, dt_instant start, dt_instant stop)"
proof -
  from assms obtain event t i u where
    save: "save_booking rt bs client (new_appointment i client start stop call_id notes event) u
      = (Inr b, w')"
    unfolding create_booking_def by (elim bind_progE) blast
  let ?a = "new_appointment i client start stop call_id notes event"
  have "ap_id ?a \<notin> ap_id ` set (w_appointments u)"
    using save by (auto simp: save_booking_def insert_appointment_def db_op_def bind_prog_apply
        split: option.splits if_splits)
  from save_result [OF save this] show ?thesis
    by (auto simp: new_appointment_def active_def entry_def)
qed

lemma book_result:
  assumes "book_appointment rt bs client start stop call_id notes w = (Inr b, w')"
  shows "b \<in> set (w_appointments w') \<and> active b \<and>
    entry b = (cl_id client, dt_instant start, dt_instant stop)"
proof -
  from assms obtain r v where find: "find_overlapping_appointment rt (cl_id client) start stop w = (Inr r, v)"
    and next_step: "(case r of
         Some a \<Rightarrow> (if dt_eq (ap_starts_at a) start \<and> dt_eq (ap_ends_at a) stop then ret a
            else raise (BookingError (overlap_message a)))
       | None \<Rightarrow> create_booking rt bs client start stop call_id notes) v = (Inr b, w')"
    unfolding book_appointment_def by (elim bind_progE)
  show ?thesis
  proof (cases r)
    case None
    then show ?thesis using next_step create_result by simp
  next
    case (Some a)
    then show ?thesis using next_step find find_overlapping_Some [of rt "cl_id client" start stop w a v]
      by (auto simp: overlaps_window_def entry_def dt_eq_def split: if_splits)
  qed
qed

lemma reschedule_result:
  assumes "reschedule_appointment rt bs a start stop w = (Inr b, w')" and "a \<in> set (w_appointments w)"
    and "db_ok w"
  shows "register w' = (register w)(ap_id a \<mapsto> (ap_client_id a, Some (dt_instant start, dt_instant stop)))"
proof (cases "ap_calendar_event_id a")
  case None
  then show ?thesis using assms(1) by (simp add: reschedule_appointment_def)
next
  case (Some ev)
  let ?a = "moved a start stop"
  from assms(1) Some obtain x t u v where
    t: "lift_ext (reschedule_event (bs_calendar bs) ev start stop) w = (Inr x, t)"
    and up: "update_appointment rt ?a t = (Inr u, v)" and "refresh_appointment rt ?a v = (Inr b, w')"
    unfolding reschedule_appointment_def by (auto elim!: bind_progE)
  then have v: "w' = v" using refresh_result by blast
  have "tables_same w t" by (rule keeps_result [OF keeps_lift_ext t])
  moreover have "appointment_row_error ?a t = None" "ap_id ?a \<in> ap_id ` set (w_appointments t)"
    "v = t\<lparr>w_appointments := map (\<lambda>b. if ap_id b = ap_id ?a then stored ?a else b) (w_appointments t)\<rparr>"
    using up by (auto simp: update_appointment_def db_op_def split: option.splits if_splits)
  ultimately have "row_updated ?a w w'" unfolding row_updated_def v by blast
  from moved_register [OF this assms(2,3)] show ?thesis by blast
qed

lemma cancel_result:
  assumes "cancel_appointment rt bs a w = (Inr u, w')" and "a \<in> set (w_appointments w)" and "db_ok w"
  shows "register w' = (register w)(ap_id a \<mapsto> (ap_client_id a, None))"
proof -
  let ?a = "a\<lparr>ap_status := CANCELLED\<rparr>"
  let ?m = "case ap_calendar_event_id a of Some e \<Rightarrow> lift_ext (cancel_event (bs_calendar bs) e) | None \<Rightarrow> ret ()"
  have m: "keeps tables_same ?m" by (auto intro: keeps_intros split: option.split)
  from assms(1) obtain x t where t: "?m w = (Inr x, t)" and up: "update_appointment rt ?a t = (Inr u, w')"
    unfolding cancel_appointment_def by (elim bind_progE) blast
  have "tables_same w t" by (rule keeps_result [OF m t])
  moreover have "appointment_row_error ?a t = None" "ap_id ?a \<in> ap_id ` set (w_appointments t)"
    "w' = t\<lparr>w_appointments := map (\<lambda>b. if ap_id b = ap_id ?a then stored ?a else b) (w_appointments t)\<rparr>"
    using up by (auto simp: update_appointment_def db_op_def split: option.splits if_splits)
  ultimately have "row_updated ?a w w'" unfolding row_updated_def by blast
  from cancelled_register [OF this assms(2,3)] show ?thesis by blast
qed

section \<open>Properties\<close>

text \<open>
  (C23) The booking service implements the register: from a state that meets the constraints of the
  tables, any run of bookings, cancellations and moves, of appointments in whatever status, is a run of
  the register, in which an identifier belongs to its client for good. When an operation returns
  normally, it did what it says: a booking is registered for the client and the times that were asked
  for, a cancelled identifier holds no time, and a moved one holds exactly the new time, also when it had been
  cancelled. Only a booking is checked against the other times of the client; a move is not.
\<close>

theorem booking_service_refines_the_ledger:
  assumes "(service_step rt bs)\<^sup>*\<^sup>* w0 w" and "db_ok w0"
  shows "register_step\<^sup>*\<^sup>* (register w0) (register w) \<and>
    (\<forall>i c t. register w0 i = Some (c, t) \<longrightarrow> (\<exists>t'. register w i = Some (c, t'))) \<and>
    (\<forall>b w'. book_appointment rt bs client start stop call_id notes w = (Inr b, w') \<longrightarrow>
       register w' (ap_id b) = Some (cl_id client, Some (dt_instant start, dt_instant stop))) \<and>
    (\<forall>a u w'. a \<in> set (w_appointments w) \<and> cancel_appointment rt bs a w = (Inr u, w') \<longrightarrow>
       register w' = (register w)(ap_id a \<mapsto> (ap_client_id a, None))) \<and>
    (\<forall>a b w'. a \<in> set (w_appointments w) \<and>
       reschedule_appointment rt bs a start stop w = (Inr b, w') \<longrightarrow>
       register w' = (register w)(ap_id a \<mapsto> (ap_client_id a, Some (dt_instant start, dt_instant stop))))"
proof -
  have run: "db_ok w" "register_step\<^sup>*\<^sup>* (register w0) (register w)"
    using service.run_simulated [OF assms] by simp_all
  have "register w' (ap_id b) = Some (cl_id client, Some (dt_instant start, dt_instant stop))"
    if b: "book_appointment rt bs client start stop call_id notes w = (Inr b, w')" for b w'
  proof -
    have "db_ok w'"
      using booking_step_db_ok [OF booking_step.books] run b by (metis snd_conv)
    then show ?thesis using book_result [OF b] db_ok_register [of w' b] by (simp add: registered_def entry_def)
  qed
  then show ?thesis
    using run reschedule_result [OF _ _ run(1)] cancel_result [OF _ _ run(1)] register_run_owner [OF run(2)] by blast
qed

text \<open>Ann books at nine, cancels, and moves what she has cancelled to two o'clock.\<close>

theorem booking_service_refines_the_ledger_witness:
  "register_step\<^sup>*\<^sup>* (register (ann_world []))
     (register (snd (book_appointment log_runtime (log_service None) ann (hour_slot 9 0) (hour_slot 10 0)
       None None (ann_world [])))) \<and>
   register (snd (reschedule_appointment log_runtime (log_service None) (ann_appointment 5 CANCELLED 9)
       (hour_slot 14 0) (hour_slot 15 0) (ann_world [ann_appointment 5 CANCELLED 9]))) 5 =
     Some (cl_id ann, Some (dt_instant (hour_slot 14 0), dt_instant (hour_slot 15 0)))"
proof -
  let ?rt = log_runtime and ?bs = "log_service None" and ?a = "ann_appointment 5 CANCELLED 9"
  have ok: "db_ok (ann_world [])" "db_ok (ann_world [?a])" and mem: "?a \<in> set (w_appointments (ann_world [?a]))"
    by code_simp+
  have moved_back: "reschedule_appointment ?rt ?bs ?a (hour_slot 14 0) (hour_slot 15 0) (ann_world [?a]) =
      (Inr (ann_appointment 5 RESCHEDULED 14), snd (reschedule_appointment ?rt ?bs ?a (hour_slot 14 0)
        (hour_slot 15 0) (ann_world [?a])))"
    by code_simp
  have a: "ap_id ?a = 5" "ap_client_id ?a = cl_id ann" by code_simp+
  let ?w = "snd (book_appointment ?rt ?bs ann (hour_slot 9 0) (hour_slot 10 0) None None (ann_world []))"
  have "(service_step ?rt ?bs)\<^sup>*\<^sup>* (ann_world []) ?w"
    by (rule r_into_rtranclp) (rule service_step.service_books)
  then have "register_step\<^sup>*\<^sup>* (register (ann_world [])) (register ?w)"
    by (rule booking_service_refines_the_ledger [OF _ ok(1), THEN conjunct1])
  moreover have "register (snd (reschedule_appointment ?rt ?bs ?a (hour_slot 14 0) (hour_slot 15 0)
      (ann_world [?a]))) = (register (ann_world [?a]))(ap_id ?a \<mapsto>
        (ap_client_id ?a, Some (dt_instant (hour_slot 14 0), dt_instant (hour_slot 15 0))))"
    using mem moved_back
    by (intro booking_service_refines_the_ledger [OF rtranclp.rtrancl_refl ok(2), THEN conjunct2,
          THEN conjunct2, THEN conjunct2, THEN conjunct2, rule_format, OF conjI])
  ultimately show ?thesis using a by simp
qed

end
