(* ===== verification/CRM_Thms.thy ===== *)
theory CRM_Thms
  imports CRM Booking_Thms
begin

text \<open>
  What the CRM promises: a phone number is one client; the transcript of a finished call is what
  was said, in order, and its summary is asked for exactly that text.
\<close>

section \<open>Clients\<close>

lemma insert_client_result:
  "insert_client rt c w = (Inr u, w') \<longleftrightarrow>
     rt_db_fault rt w = None \<and> client_row_error c w = None \<and> w' = w\<lparr>w_clients := w_clients w @ [c]\<rparr>"
  by (auto simp: insert_client_def db_op_def split: option.splits)

lemma client_row_error_None:
  "client_row_error c w = None \<Longrightarrow>
     cl_id c \<notin> cl_id ` set (w_clients w) \<and> cl_phone_number c \<notin> cl_phone_number ` set (w_clients w)"
  by (auto simp: client_row_error_def split: if_splits)

lemma get_client_result:
  "get_client rt i w = (Inr r, w') \<longleftrightarrow>
     rt_db_fault rt w = None \<and> w' = w \<and> r = find (\<lambda>c. cl_id c = i) (w_clients w)"
  by (auto simp: get_client_def query_def db_op_def split: option.splits)

lemma get_or_create_found:
  assumes "rt_db_fault rt w = None" and "find (\<lambda>c. cl_phone_number c = phone) (w_clients w) = Some c"
  shows "get_or_create_client rt phone w = (Inr c, w)"
  using assms by (simp add: get_or_create_client_def query_def db_op_def bind_prog_apply)

lemma get_or_create_cases:
  assumes "get_or_create_client rt phone w = (Inr c, w')"
  shows "(w' = w \<and> find (\<lambda>c. cl_phone_number c = phone) (w_clients w) = Some c) \<or>
    (\<exists>i e. c = new_client i phone \<and> client_row_error c (w\<lparr>w_ext := e\<rparr>) = None \<and>
       w' = w\<lparr>w_ext := e, w_clients := w_clients w @ [c]\<rparr>)"
proof (cases "find (\<lambda>c. cl_phone_number c = phone) (w_clients w)")
  case (Some d)
  then show ?thesis using assms
    by (auto simp: get_or_create_client_def query_def db_op_def bind_prog_apply split: option.splits)
next
  case None
  then have "bind_prog (new_uuid rt) (\<lambda>i. bind_prog (insert_client rt (new_client i phone))
      (\<lambda>_. refresh_client rt i)) w = (Inr c, w')"
    using assms
    by (auto simp: get_or_create_client_def query_def db_op_def bind_prog_apply split: option.splits)
  then obtain i w1 w2 u where i: "new_uuid rt w = (Inr i, w1)"
    and ins: "insert_client rt (new_client i phone) w1 = (Inr u, w2)"
    and ref: "refresh_client rt i w2 = (Inr c, w')"
    by (elim bind_progE) blast
  obtain e where w1: "w1 = w\<lparr>w_ext := e\<rparr>" using new_uuid_result [OF i] by blast
  have w2: "w2 = w1\<lparr>w_clients := w_clients w1 @ [new_client i phone]\<rparr>"
    and row: "client_row_error (new_client i phone) w1 = None"
    using ins by (simp_all add: insert_client_result)
  have "find (\<lambda>c. cl_id c = i) (w_clients w1 @ [new_client i phone]) = Some (new_client i phone)"
    using client_row_error_None [OF row] by (subst find_fresh) (auto simp: new_client_def)
  then have "c = new_client i phone" "w' = w2"
    using ref w2 by (auto simp: refresh_client_def get_client_result elim!: bind_progE)
  then show ?thesis using row w1 w2 by auto
qed

section \<open>The end of a call\<close>

lemma transcript_rows_result:
  "transcript_rows rt i ls w = (Inr ts, w') \<Longrightarrow>
     tables_same w w' \<and> map (\<lambda>t. (tr_sequence t, tr_role t, tr_text t)) ts = ls \<and>
     (\<forall>t \<in> set ts. tr_call_id t = i)"
proof (induction ls arbitrary: ts w)
  case Nil
  then show ?case by simp
next
  case (Cons l ls)
  obtain n r x where l: "l = (n, r, x)" by (metis prod_cases3)
  from Cons.prems obtain u w1 us where u: "new_uuid rt w = (Inr u, w1)"
    and us: "transcript_rows rt i ls w1 = (Inr us, w')"
    and ts: "ts = \<lparr>tr_id = u, tr_call_id = i, tr_sequence = n, tr_role = r, tr_text = x\<rparr> # us"
    by (auto simp: l elim!: bind_progE)
  have "tables_same w w1" using new_uuid_result [OF u] by (auto simp: tables_same_def)
  then show ?case using Cons.IH [OF us] ts l ext_only.frame_trans by auto
qed

lemma commit_call_result:
  "commit_call rt c ts w = (Inr u, w') \<Longrightarrow>
     transcript_rows_error ts w = None \<and>
     w' = (replace_call c w)\<lparr>w_transcripts := w_transcripts w @ ts\<rparr>"
  by (auto simp: commit_call_def db_op_def split: option.splits if_splits)

lemma spoken_lines_sorted: "sorted_wrt (<) (map fst (spoken_lines h))"
proof -
  have "sorted_wrt (\<lambda>x y. fst x < fst y) (enumerate n h)" for n
    by (induction h arbitrary: n) (auto simp: in_set_enumerate_eq)
  then have "sorted_wrt (\<lambda>x y. fst x < fst y)
      (filter (\<lambda>(i, m). \<not> (m_role m = TOOL \<or> m_content m = [])) (enumerate 0 h))"
    by (rule sorted_wrt_filter)
  then show ?thesis
    by (simp add: spoken_lines_def sorted_wrt_map case_prod_beta' comp_def)
qed

lemma finalize_call_result:
  assumes "finalize_call rt enqueue i h w = (Inr True, w')"
  obtains c e e' ts where "find (\<lambda>c. ca_id c = i) (w_calls w) = Some c"
    and "map (\<lambda>t. (tr_sequence t, tr_role t, tr_text t)) ts = spoken_lines h"
    and "\<forall>t \<in> set ts. tr_call_id t = i" and "transcript_rows_error ts (w\<lparr>w_ext := e\<rparr>) = None"
    and "w' = (replace_call (c\<lparr>ca_status := CALL_COMPLETED, ca_ended_at := Some (utc_now rt w)\<rparr>) w)
      \<lparr>w_transcripts := w_transcripts w @ ts, w_ext := e'\<rparr>"
proof -
  from assms obtain r w1 where g: "get_call rt i w = (Inr r, w1)" and rest: "(case r of
        None \<Rightarrow> ret False
      | Some c \<Rightarrow> bind_prog (\<lambda>w. (Inr (utc_now rt w), w)) (\<lambda>now.
          bind_prog (transcript_rows rt i (spoken_lines h)) (\<lambda>ts.
            bind_prog (commit_call rt (c\<lparr>ca_status := CALL_COMPLETED, ca_ended_at := Some now\<rparr>) ts)
              (\<lambda>_. bind_prog (try_prog (lift_ext (enqueue i)) (\<lambda>e. ret ())) (\<lambda>_. ret True))))) w1
      = (Inr True, w')"
    unfolding finalize_call_def by (rule bind_progE)
  have w1: "w1 = w" and r: "r = find (\<lambda>c. ca_id c = i) (w_calls w)"
    using g by (auto simp: get_call_def query_def db_op_def split: option.splits)
  from rest obtain c where c: "r = Some c" by (cases r) auto
  from rest [unfolded c option.case] obtain ts w2 u w3 v w4 where
    ts: "transcript_rows rt i (spoken_lines h) w = (Inr ts, w2)"
    and com: "commit_call rt (c\<lparr>ca_status := CALL_COMPLETED, ca_ended_at := Some (utc_now rt w)\<rparr>) ts w2 = (Inr u, w3)"
    and enq: "try_prog (lift_ext (enqueue i)) (\<lambda>e. ret ()) w3 = (Inr v, w4)" and w': "w' = w4"
    unfolding w1 by (auto elim!: bind_progE)
  note t = transcript_rows_result [OF ts]
  from t obtain e where w2: "w2 = w\<lparr>w_ext := e\<rparr>" by (auto simp: tables_same_def)
  note k = commit_call_result [OF com]
  have "\<exists>e'. w4 = w3\<lparr>w_ext := e'\<rparr>"
    using enq by (auto simp: try_prog_apply lift_ext_def split: prod.splits sum.splits)
  then obtain e' where "w4 = w3\<lparr>w_ext := e'\<rparr>" ..
  then have res: "w' = (replace_call (c\<lparr>ca_status := CALL_COMPLETED, ca_ended_at := Some (utc_now rt w)\<rparr>) w)
      \<lparr>w_transcripts := w_transcripts w @ ts, w_ext := e'\<rparr>"
    using k w' by (simp add: w2 replace_call_def)
  have "find (\<lambda>c. ca_id c = i) (w_calls w) = Some c" using r c by simp
  from that [OF this _ _ _ res] t k show thesis unfolding w2 by blast
qed

lemma sort_key_sorted_wrt: "sorted_wrt (<) (map f xs) \<Longrightarrow> sort_key f xs = xs" for f :: "'a \<Rightarrow> int"
  by (metis sort_key_id_if_sorted strict_sorted_iff)

lemma new_transcripts:
  assumes "call_transcripts w i = []" and "sorted_wrt (<) (map tr_sequence ts)"
    and "\<forall>t \<in> set ts. tr_call_id t = i" and "w_transcripts w' = w_transcripts w @ ts"
  shows "call_transcripts w' i = ts"
proof -
  have "length (filter (\<lambda>t. tr_call_id t = i) (w_transcripts w)) = 0"
    using assms(1) by (metis call_transcripts_def length_sort list.size(3))
  then have "filter (\<lambda>t. tr_call_id t = i) (w_transcripts w') = ts"
    using assms(3,4) by simp
  then show ?thesis using assms(2) by (simp add: call_transcripts_def sort_key_sorted_wrt)
qed

definition say_line :: "int \<times> speaker_role \<times> string \<Rightarrow> string" where
  "say_line l = speaker_role_value (fst (snd l)) @ '': '' @ snd (snd l)"

lemma finalize_effect:
  assumes "finalize_call rt enqueue i h w = (Inr True, w')" and "call_transcripts w i = []"
  shows "map (\<lambda>t. (tr_sequence t, tr_role t, tr_text t)) (call_transcripts w' i) = spoken_lines h \<and>
    transcript_text (call_transcripts w' i) = py_join [CHR 0x0A] (map say_line (spoken_lines h)) \<and>
    (\<forall>c \<in> set (w_calls w'). ca_id c = i \<longrightarrow> ca_status c = CALL_COMPLETED) \<and>
    (\<forall>j. j \<noteq> i \<longrightarrow> call_transcripts w' j = call_transcripts w j) \<and>
    w_clients w' = w_clients w \<and> w_appointments w' = w_appointments w \<and>
    (\<exists>c. find (\<lambda>c. ca_id c = i) (w_calls w) = Some c \<and>
       w_calls w' = map (\<lambda>d. if ca_id d = i then c\<lparr>ca_status := CALL_COMPLETED,
         ca_ended_at := Some (utc_now rt w)\<rparr> else d) (w_calls w))"
proof -
  obtain c e e' ts where found: "find (\<lambda>c. ca_id c = i) (w_calls w) = Some c"
    and lines: "map (\<lambda>t. (tr_sequence t, tr_role t, tr_text t)) ts = spoken_lines h"
    and own: "\<forall>t \<in> set ts. tr_call_id t = i" and "transcript_rows_error ts (w\<lparr>w_ext := e\<rparr>) = None"
    and w': "w' = (replace_call (c\<lparr>ca_status := CALL_COMPLETED, ca_ended_at := Some (utc_now rt w)\<rparr>) w)
      \<lparr>w_transcripts := w_transcripts w @ ts, w_ext := e'\<rparr>"
    by (rule finalize_call_result [OF assms(1)])
  have c: "ca_id c = i" using find_mem [OF found] by simp
  have "sorted_wrt (<) (map tr_sequence ts)"
    using spoken_lines_sorted [of h] unfolding lines [symmetric] by (simp add: comp_def)
  moreover have "w_transcripts w' = w_transcripts w @ ts" by (simp add: w')
  ultimately have ts: "call_transcripts w' i = ts" by (rule new_transcripts [OF assms(2) _ own])
  moreover have "map say_line (spoken_lines h) =
      map (\<lambda>t. speaker_role_value (tr_role t) @ '': '' @ tr_text t) ts"
    by (simp add: say_line_def flip: lines)
  moreover have "call_transcripts w' j = call_transcripts w j" if "j \<noteq> i" for j
  proof -
    have "filter (\<lambda>t. tr_call_id t = j) ts = []" using own that by (auto simp: filter_empty_conv)
    then show ?thesis by (simp add: call_transcripts_def w')
  qed
  moreover have "\<forall>d \<in> set (w_calls w'). ca_id d = i \<longrightarrow> ca_status d = CALL_COMPLETED"
    by (auto simp: w' replace_call_def c)
  moreover have "w_clients w' = w_clients w \<and> w_appointments w' = w_appointments w \<and>
      w_calls w' = map (\<lambda>d. if ca_id d = i then c\<lparr>ca_status := CALL_COMPLETED,
         ca_ended_at := Some (utc_now rt w)\<rparr> else d) (w_calls w)"
    by (simp add: w' replace_call_def c)
  ultimately show ?thesis using found by (simp add: transcript_text_def lines)
qed

section \<open>A call for the concrete runs\<close>

definition ann_call :: "uuid \<Rightarrow> call" where
  "ann_call i = \<lparr>ca_id = i, ca_client_id = Some 1, ca_livekit_room_name = ''r'',
     ca_direction = INBOUND, ca_status = IN_PROGRESS, ca_started_at = hour_slot 9 0,
     ca_ended_at = None, ca_summary = None\<rparr>"

definition call_world :: "string list world" where
  "call_world = (ann_world [])\<lparr>w_calls := [ann_call 7]\<rparr>"

definition fresh_runtime :: "string list runtime" where
  "fresh_runtime = \<lparr>rt_db_fault = (\<lambda>w. None),
     rt_uuid = (\<lambda>log. (word_of_nat (length log), log @ [''uuid''])), rt_now = (\<lambda>log. 0)\<rparr>"

definition log_queue :: "uuid \<Rightarrow> (string list, unit) prog" where
  "log_queue i l = (Inr (), l @ [''summarize''])"

definition short_history :: "llm_message list" where
  "short_history = [text_message USER ''hi'', tool_request_message [] (Some [\<lparr>tc_id = ''1'', tc_name = ''t'', tc_arguments = []\<rparr>]),
     tool_result_message ''x'' ''1'' False, text_message ASSISTANT ''hello'']"

section \<open>Properties\<close>

text \<open>
  A caller's number is one client for ever: looking it up creates the client at most once, the
  second look-up finds the same row and changes nothing, and the constraints of the tables hold.
\<close>

theorem phone_number_is_one_client:
  assumes "get_or_create_client rt phone w = (Inr c, w')" and "rt_db_fault rt w' = None" and "db_ok w"
  shows "cl_phone_number c = phone \<and> get_or_create_client rt phone w' = (Inr c, w') \<and>
    filter (\<lambda>d. cl_phone_number d = phone) (w_clients w') = [c] \<and> db_ok w'"
proof -
  have one: "filter (\<lambda>d. cl_phone_number d = phone) cs = [c]"
    if "find (\<lambda>d. cl_phone_number d = phone) cs = Some c" "distinct (map cl_phone_number cs)" for cs
    using that
    by (induction cs) (auto simp: filter_empty_conv rev_image_eqI [of _ _ _ cl_phone_number] split: if_splits)
  have found: "find (\<lambda>d. cl_phone_number d = phone) (w_clients w') = Some c \<and> db_ok w'"
    using get_or_create_cases [OF assms(1)]
  proof (elim disjE exE conjE)
    fix i e
    assume c: "c = new_client i phone" and row: "client_row_error c (w\<lparr>w_ext := e\<rparr>) = None"
      and w': "w' = w\<lparr>w_ext := e, w_clients := w_clients w @ [c]\<rparr>"
    note fresh = client_row_error_None [OF row]
    then have "find (\<lambda>d. cl_phone_number d = phone) (w_clients w @ [c]) = Some c"
      by (subst find_fresh) (simp_all add: c new_client_def)
    then show ?thesis using fresh assms(3) by (auto simp: w' db_ok_def)
  qed (use assms(3) in auto)
  then have "cl_phone_number c = phone" by (auto simp: find_Some_iff)
  moreover have "filter (\<lambda>d. cl_phone_number d = phone) (w_clients w') = [c]"
    using found by (intro one) (auto simp: db_ok_def)
  ultimately show ?thesis using found get_or_create_found [OF assms(2)] by blast
qed

theorem phone_number_is_one_client_witness:
  "\<exists>w'. get_or_create_client fresh_runtime ''+2'' (ann_world []) = (Inr (new_client 0 ''+2''), w') \<and>
     get_or_create_client fresh_runtime ''+2'' w' = (Inr (new_client 0 ''+2''), w')"
proof -
  let ?w = "(ann_world [])\<lparr>w_clients := [ann, new_client 0 ''+2''], w_ext := [''uuid'']\<rparr>"
  have g: "get_or_create_client fresh_runtime ''+2'' (ann_world []) = (Inr (new_client 0 ''+2''), ?w)"
    by code_simp
  have "rt_db_fault fresh_runtime ?w = None" "db_ok (ann_world [])"
    by (simp add: fresh_runtime_def, simp add: db_ok_def ann_world_def)
  from phone_number_is_one_client [OF g this] g show ?thesis by blast
qed

text \<open>
  The transcript of a finished call is the conversation: exactly what caller and agent said,
  with the speaker, in order, nothing of the tools; the call is marked completed, the transcripts
  of other calls stay, and the summary will be asked for exactly these lines.
\<close>

theorem transcript_is_what_was_said:
  assumes "finalize_call rt enqueue i h w = (Inr True, w')" and "call_transcripts w i = []"
  shows "map (\<lambda>t. (tr_sequence t, tr_role t, tr_text t)) (call_transcripts w' i) = spoken_lines h \<and>
    transcript_text (call_transcripts w' i) = py_join [CHR 0x0A] (map say_line (spoken_lines h)) \<and>
    (\<forall>c \<in> set (w_calls w'). ca_id c = i \<longrightarrow> ca_status c = CALL_COMPLETED) \<and>
    (\<forall>j. j \<noteq> i \<longrightarrow> call_transcripts w' j = call_transcripts w j)"
  using finalize_effect [OF assms] by blast

theorem transcript_is_what_was_said_witness:
  "map (\<lambda>t. (tr_sequence t, tr_role t, tr_text t)) (call_transcripts
      (snd (finalize_call fresh_runtime log_queue 7 short_history call_world)) 7) =
    [(0, CALLER, ''hi''), (3, AGENT, ''hello'')]"
proof -
  have "fst (finalize_call fresh_runtime log_queue 7 short_history call_world) = Inr True" by code_simp
  then have f: "finalize_call fresh_runtime log_queue 7 short_history call_world =
      (Inr True, snd (finalize_call fresh_runtime log_queue 7 short_history call_world))"
    by (metis prod.collapse)
  have "call_transcripts call_world 7 = []" by (simp add: call_transcripts_def call_world_def ann_world_def)
  moreover have "spoken_lines short_history = [(0, CALLER, ''hi''), (3, AGENT, ''hello'')]" by code_simp
  ultimately show ?thesis using transcript_is_what_was_said [OF f] by simp
qed

end
