(* ===== verification/Api_Thms.thy ===== *)
theory Api_Thms
  imports Api Booking_Ledger CRM_Thms
begin

text \<open>
  What the REST API promises: its appointment endpoints do to the tables what the booking service
  does, an identifier that names nothing is a 404 that changes nothing, and the health report says
  \<open>ok\<close> exactly when the database and redis answered.
\<close>

section \<open>Endpoints as runs of the service\<close>

abbreviation booking_run :: "'w runtime \<Rightarrow> 'w booking_service \<Rightarrow> 'w world \<Rightarrow> 'w world \<Rightarrow> bool" where
  "booking_run rt bs \<equiv> (booking_step rt bs)\<^sup>*\<^sup>*"

interpretation run: frame "booking_run rt bs" for rt bs
  by unfold_locales (rule rtranclp.rtrancl_refl, rule rtranclp_trans)

lemma run_tables_same: "tables_same s t \<Longrightarrow> booking_run rt bs s t"
  unfolding tables_same_def by (metis booking_step.outside r_into_rtranclp)

lemma keeps_run_ext: "keeps tables_same m \<Longrightarrow> keeps (booking_run rt bs) m"
  by (simp add: keeps_def run_tables_same)

lemma keeps_run_reads:
  "keeps (booking_run rt bs) (query rt f)" "keeps (booking_run rt bs) (get_client rt i)"
  "keeps (booking_run rt bs) (get_appointment rt i)" "keeps (booking_run rt bs) (get_call rt i)"
  by (simp_all add: keeps_def)

lemma keeps_run_ops:
  "keeps (booking_run rt bs) (insert_client rt c)"
  "keeps (booking_run rt bs) (book_appointment rt bs c start stop call_id nts)"
  "keeps (booking_run rt bs) (cancel_appointment rt bs a)"
  by (simp_all add: keeps_def r_into_rtranclp booking_step.intros)

lemma keeps_found: "(\<And>x. r = Some x \<Longrightarrow> keeps (booking_run rt bs) (f x)) \<Longrightarrow>
   keeps (booking_run rt bs) (found_or_404 d r f)"
  by (auto simp: found_or_404_def intro: keeps_intros split: option.split)

lemma keeps_get_or_create: "keeps (booking_run rt bs) (get_or_create_client rt phone)"
proof -
  have "snd (refresh_client rt i v) = v" for i v
    by (simp add: refresh_client_def snd_bind_read split: sum.split option.split)
  then have "keeps (booking_run rt bs) (refresh_client rt i)" for i by (simp add: keeps_def)
  then show ?thesis
    unfolding get_or_create_client_def
    by (auto intro!: keeps_intros keeps_run_ops keeps_run_reads keeps_run_ext [OF keeps_new_uuid]
        split: option.split)
qed

lemma create_endpoint_run: "booking_run rt bs w (snd (api_create_appointment rt bs p w))"
  by (rule keepsD [where R = "booking_run rt bs"]) (auto simp: api_create_appointment_def ok_def
      intro!: keeps_intros keeps_get_or_create keeps_run_ops)

lemma cancel_endpoint_run: "booking_run rt bs w (snd (api_cancel_appointment rt bs i w))"
  by (rule keepsD [where R = "booking_run rt bs"]) (auto simp: api_cancel_appointment_def ok_def
      intro!: keeps_intros keeps_run_ops keeps_run_reads keeps_found)

lemma booking_run_db_ok: "booking_run rt bs w w' \<Longrightarrow> db_ok w \<Longrightarrow> db_ok w'"
  by (induction rule: rtranclp_induct) (use booking_step_db_ok in blast)+

lemma booking_run_safe:
  assumes "booking_run rt bs w w'" and "no_clash w \<and> db_ok w"
  shows "no_clash w' \<and> db_ok w'"
  using assms by (induction rule: rtranclp_induct) (use booking_step_safe in blast)+

lemma serve_state [simp]: "snd (serve st m w) = snd (m w)"
  by (simp add: serve_def split: prod.split)

lemma serve_response:
  "fst (serve st m w) = Response c x \<longleftrightarrow> fst (m w) = Inr (HTTP_Ok x) \<and> c = st"
  by (cases "m w") (auto simp: serve_def respond_def split: sum.splits http.splits exc.splits)

lemma bind_fst_Inr:
  "fst (bind_prog m f s) = Inr y \<Longrightarrow> \<exists>x t. m s = (Inr x, t) \<and> f x t = (Inr y, snd (bind_prog m f s))"
  by (cases "m s") (auto simp: bind_prog_apply split: sum.splits, metis prod.collapse)

lemma get_or_create_client_in:
  assumes "get_or_create_client rt phone w = (Inr c, w')"
  shows "c \<in> set (w_clients w') \<and> cl_phone_number c = phone"
  using get_or_create_cases [OF assms] by (auto simp: new_client_def dest: find_mem)

lemma create_endpoint_result:
  assumes "fst (api_create_appointment rt bs p w) = Inr (HTTP_Ok out)" and "db_ok w"
  shows "\<exists>c \<in> set (w_clients (snd (api_create_appointment rt bs p w))).
    cl_phone_number c = acr_phone_number p \<and>
    ledger (snd (api_create_appointment rt bs p w)) (ao_id out) =
      Some (cl_id c, dt_instant (acr_starts_at p), dt_instant (acr_ends_at p))"
proof -
  let ?w' = "snd (api_create_appointment rt bs p w)"
  have "api_create_appointment rt bs p w = (Inr (HTTP_Ok out), ?w')"
    using assms(1) by (metis prod.collapse)
  then obtain c t a where c: "get_or_create_client rt (acr_phone_number p) w = (Inr c, t)"
    and a: "book_appointment rt bs c (acr_starts_at p) (acr_ends_at p) None (acr_notes p) t = (Inr a, ?w')"
    and out: "out = appointment_out a"
    unfolding api_create_appointment_def ok_def by (auto elim!: bind_progE)
  have "db_ok ?w'" using create_endpoint_run assms(2) by (rule booking_run_db_ok)
  with book_result [OF a] have "ledger ?w' (ap_id a) =
      Some (cl_id c, dt_instant (acr_starts_at p), dt_instant (acr_ends_at p))"
    by (metis db_ok_ledger)
  moreover have "w_clients ?w' = w_clients t"
    using book_effect [of t rt bs c "acr_starts_at p" "acr_ends_at p" None "acr_notes p"] a
    by (auto simp: booked_def dest!: tables_same_fields(2))
  ultimately show ?thesis
    using get_or_create_client_in [OF c] out by (auto simp: appointment_out_def)
qed

section \<open>Health\<close>

lemma check_database_result:
  "check_database rt w = (Inr (case rt_db_fault rt w of None \<Rightarrow> healthy ''database'' True
     | Some e \<Rightarrow> unhealthy ''database'' True (exc_str e)), w)"
  by (simp add: check_database_def query_def db_op_def bind_prog_apply try_prog_apply split: option.split)

definition never_raises :: "('w, 'a) prog \<Rightarrow> bool" where
  "never_raises m \<longleftrightarrow> (\<forall>e. \<exists>x e'. m e = (Inr x, e'))"

lemma check_redis_result:
  assumes "never_raises (redis_from_url net (redis_url s))" and "never_raises (redis_aclose net)"
  shows "\<exists>d e. check_redis s net w = (Inr d, w\<lparr>w_ext := e\<rparr>) \<and> hd_name d = ''redis'' \<and> hd_required d \<and>
    (hd_healthy d \<longleftrightarrow>
       (\<exists>x. fst (redis_ping net (snd (redis_from_url net (redis_url s) (w_ext w)))) = Inr x))"
proof -
  obtain e1 where 1: "redis_from_url net (redis_url s) (w_ext w) = (Inr (), e1)"
    using assms(1) by (fastforce simp: never_raises_def)
  obtain r e2 where 2: "redis_ping net e1 = (r, e2)" by fastforce
  obtain e3 where 3: "redis_aclose net e2 = (Inr (), e3)"
    using assms(2) by (fastforce simp: never_raises_def)
  show ?thesis
    by (cases r) (simp_all add: check_redis_def bind_prog_apply try_prog_apply lift_ext_def 1 2 3
        healthy_def unhealthy_def, auto)
qed

text \<open>The URL parses and its port, if it has one, is a number below 65536.\<close>

definition livekit_url_ok :: "'w network \<Rightarrow> bool" where
  "livekit_url_ok net \<longleftrightarrow> (truthy_str (env_livekit_url net) \<longrightarrow>
     (\<exists>parsed p. urlparse (py_replace ''wss://'' ''https://''
        (py_replace ''ws://'' ''http://'' (the (env_livekit_url net)))) = Inr parsed \<and> pu_port parsed = Inr p))"

lemma check_livekit_result:
  assumes "livekit_url_ok net"
  shows "\<exists>d e. check_livekit net w = (Inr d, w\<lparr>w_ext := e\<rparr>) \<and> hd_name d = ''livekit'' \<and> \<not> hd_required d"
proof (cases "truthy_str (env_livekit_url net)")
  case False
  have "\<exists>e. w = w\<lparr>w_ext := e\<rparr>" by (rule exI [of _ "w_ext w"]) simp
  with False show ?thesis by (simp add: check_livekit_def)
next
  case True
  then obtain parsed p where url: "urlparse (py_replace ''wss://'' ''https://''
        (py_replace ''ws://'' ''http://'' (the (env_livekit_url net)))) = Inr parsed"
    and port: "pu_port parsed = Inr p"
    using assms by (auto simp: livekit_url_ok_def)
  have same: "\<exists>e. w = w\<lparr>w_ext := e\<rparr>" by (rule exI [of _ "w_ext w"]) simp
  have probe: "\<exists>d e. try_prog (bind_prog (lift_ext (open_connection net host n))
        (\<lambda>_. ret (healthy ''livekit'' False)))
      (\<lambda>e. ret (unhealthy ''livekit'' False (exc_str e))) w = (Inr d, w\<lparr>w_ext := e\<rparr>) \<and>
      hd_name d = ''livekit'' \<and> \<not> hd_required d" for host n
    by (cases "open_connection net host n (w_ext w)"; cases "fst (open_connection net host n (w_ext w))")
      (auto simp: try_prog_apply bind_prog_apply lift_ext_def healthy_def unhealthy_def)
  show ?thesis
    using True url port probe same
    by (cases "pu_hostname parsed")
      (auto simp: check_livekit_def Let_def bind_prog_apply unhealthy_def)
qed

section \<open>Properties\<close>

text \<open>
  (C24) Booking and cancelling through the REST API keeps what the service keeps: no client has two
  active appointments at once and the constraints of the tables hold, whatever the request and
  however the services behind it fail; and a 201 means that the client with that phone number has
  exactly the requested time in the ledger, under the identifier the response names.
\<close>

theorem api_bookings_are_kept:
  assumes "no_clash w \<and> db_ok w"
  shows "(let (answer, w') = serve 201 (api_create_appointment rt bs p) w
      in no_clash w' \<and> db_ok w' \<and>
         (\<forall>out. answer = Response 201 out \<longrightarrow> (\<exists>c \<in> set (w_clients w').
            cl_phone_number c = acr_phone_number p \<and>
            ledger w' (ao_id out) = Some (cl_id c, dt_instant (acr_starts_at p), dt_instant (acr_ends_at p)))))
    \<and> no_clash (snd (serve 204 (api_cancel_appointment rt bs i) w))
    \<and> db_ok (snd (serve 204 (api_cancel_appointment rt bs i) w))"
proof -
  have "no_clash (snd (api_create_appointment rt bs p w)) \<and> db_ok (snd (api_create_appointment rt bs p w))"
    using create_endpoint_run assms by (rule booking_run_safe)
  moreover have "no_clash (snd (api_cancel_appointment rt bs i w)) \<and>
      db_ok (snd (api_cancel_appointment rt bs i w))"
    using cancel_endpoint_run assms by (rule booking_run_safe)
  moreover have "\<exists>c \<in> set (w_clients (snd (api_create_appointment rt bs p w))).
      cl_phone_number c = acr_phone_number p \<and>
      ledger (snd (api_create_appointment rt bs p w)) (ao_id out) =
        Some (cl_id c, dt_instant (acr_starts_at p), dt_instant (acr_ends_at p))"
    if "fst (serve 201 (api_create_appointment rt bs p) w) = Response 201 out" for out
    using that create_endpoint_result [of rt bs p w out] assms by (simp only: serve_response)
  ultimately show ?thesis by (simp add: case_prod_beta)
qed

definition ann_request :: appointment_create_request where
  "ann_request = \<lparr>acr_phone_number = ''+1'', acr_starts_at = hour_slot 9 2, acr_ends_at = hour_slot 10 2,
     acr_notes = None\<rparr>"

theorem api_bookings_are_kept_witness:
  "no_clash (snd (serve 201 (api_create_appointment log_runtime (log_service None) ann_request)
     (ann_world [ann_appointment 5 CONFIRMED 9])))"
proof -
  have "no_clash (ann_world [ann_appointment 5 CONFIRMED 9]) \<and>
      db_ok (ann_world [ann_appointment 5 CONFIRMED 9])" by code_simp
  from api_bookings_are_kept [OF this, of log_runtime "log_service None" ann_request 5]
  show ?thesis by (simp add: case_prod_beta)
qed

text \<open>
  (C25) An identifier that names nothing is answered with 404 by every endpoint that takes one, and
  neither the tables nor any external service is touched.
\<close>

theorem unknown_identifiers_are_404:
  assumes "rt_db_fault rt w = None"
  shows "(i \<notin> ap_id ` set (w_appointments w) \<longrightarrow>
      serve 204 (api_cancel_appointment rt bs i) w = (Failure 404 ''Appointment not found'', w) \<and>
      serve 200 (api_reschedule_appointment rt bs i p) w = (Failure 404 ''Appointment not found'', w)) \<and>
    (i \<notin> ca_id ` set (w_calls w) \<longrightarrow>
      serve 200 (api_get_call rt i) w = (Failure 404 ''Call not found'', w)) \<and>
    (i \<notin> cl_id ` set (w_clients w) \<longrightarrow>
      serve 200 (api_get_client rt i) w = (Failure 404 ''Client not found'', w) \<and>
      serve 200 (api_get_client_calls rt i) w = (Failure 404 ''Client not found'', w))"
proof -
  show ?thesis
    using assms
    by (simp add: serve_def respond_def api_cancel_appointment_def api_reschedule_appointment_def
        api_get_call_def api_get_client_def api_get_client_calls_def get_call_with_transcript_def
        get_appointment_def get_client_def query_def db_op_def bind_prog_apply found_or_404_def
        find_unknown)
qed

theorem unknown_identifiers_are_404_witness:
  "serve 204 (api_cancel_appointment log_runtime (log_service None) 6) (ann_world []) =
    (Failure 404 ''Appointment not found'', ann_world [])"
proof -
  have "rt_db_fault log_runtime (ann_world []) = None" by code_simp
  from unknown_identifiers_are_404 [OF this, of 6 "log_service None"] show ?thesis
    by (simp add: ann_world_def)
qed

text \<open>
  (C26) The health report is honest: with a redis client that can be built and closed and a LiveKit
  URL that parses, it always answers, touches no table, lists the three dependencies, and its status
  is \<open>ok\<close> exactly when the database took the probe and redis answered the ping, whatever LiveKit does.
\<close>

theorem health_is_honest:
  assumes "never_raises (redis_from_url net (redis_url s))" and "never_raises (redis_aclose net)"
    and "livekit_url_ok net"
  shows "\<exists>h e. serve 200 (ok (health rt s net)) w = (Response 200 h, w\<lparr>w_ext := e\<rparr>) \<and>
    map hd_name (hr_dependencies h) = [''database'', ''redis'', ''livekit''] \<and>
    hr_status h = (if rt_db_fault rt w = None \<and>
        (\<exists>x. fst (redis_ping net (snd (redis_from_url net (redis_url s) (w_ext w)))) = Inr x)
      then ''ok'' else ''degraded'')"
proof -
  obtain d2 e2 where 2: "check_redis s net w = (Inr d2, w\<lparr>w_ext := e2\<rparr>)" "hd_name d2 = ''redis''"
    "hd_required d2" "hd_healthy d2 \<longleftrightarrow>
       (\<exists>x. fst (redis_ping net (snd (redis_from_url net (redis_url s) (w_ext w)))) = Inr x)"
    using check_redis_result [OF assms(1,2)] by blast
  obtain d3 e3 where 3: "check_livekit net (w\<lparr>w_ext := e2\<rparr>) = (Inr d3, w\<lparr>w_ext := e3\<rparr>)"
    "hd_name d3 = ''livekit''" "\<not> hd_required d3"
    using check_livekit_result [OF assms(3), of "w\<lparr>w_ext := e2\<rparr>"] by auto
  have "\<exists>e. w\<lparr>w_ext := e3\<rparr> = w\<lparr>w_ext := e\<rparr>" by blast
  then show ?thesis
    using 2 3 by (cases "rt_db_fault rt w")
      (simp_all add: serve_def respond_def ok_def health_def bind_prog_apply check_database_result
        overall_status_def healthy_def unhealthy_def)
qed

definition calm_network :: "string list network" where
  "calm_network = \<lparr>redis_from_url = (\<lambda>u. ret ()), redis_ping = raise (OtherError ''ConnectionError'' ''down''),
     redis_aclose = ret (), env_livekit_url = Some ''wss://voice.example:7880'',
     open_connection = (\<lambda>h p log. (Inr (), log @ [h]))\<rparr>"

theorem health_is_honest_witness:
  "\<exists>h e. serve 200 (ok (health log_runtime (default_settings ''s'' ''d'') calm_network)) (ann_world []) =
      (Response 200 h, (ann_world [])\<lparr>w_ext := e\<rparr>) \<and> hr_status h = ''degraded''"
proof -
  have "never_raises (redis_from_url calm_network (redis_url (default_settings ''s'' ''d'')))"
    "never_raises (redis_aclose calm_network)"
    by (simp_all add: never_raises_def calm_network_def)
  moreover have "livekit_url_ok calm_network"
  proof -
    have "the (env_livekit_url calm_network) = ''wss://voice.example:7880''" by (simp add: calm_network_def)
    moreover have "case urlparse (py_replace ''wss://'' ''https://''
        (py_replace ''ws://'' ''http://'' ''wss://voice.example:7880'')) of
        Inl e \<Rightarrow> False | Inr u \<Rightarrow> pu_port u = Inr (Some 7880)" by code_simp
    ultimately show ?thesis unfolding livekit_url_ok_def by (auto split: sum.splits)
  qed
  ultimately have "\<exists>h e. serve 200 (ok (health log_runtime (default_settings ''s'' ''d'') calm_network))
      (ann_world []) = (Response 200 h, (ann_world [])\<lparr>w_ext := e\<rparr>) \<and>
    map hd_name (hr_dependencies h) = [''database'', ''redis'', ''livekit''] \<and>
    hr_status h = (if rt_db_fault log_runtime (ann_world []) = None \<and>
        (\<exists>x. fst (redis_ping calm_network (snd (redis_from_url calm_network
          (redis_url (default_settings ''s'' ''d'')) (w_ext (ann_world []))))) = Inr x)
      then ''ok'' else ''degraded'')"
    by (rule health_is_honest)
  moreover have "fst (redis_ping calm_network e) \<noteq> Inr x" for e x by (simp add: calm_network_def)
  ultimately show ?thesis by auto
qed

text \<open>A port that is no number is outside the \<^verbatim>\<open>try\<close>: the endpoint fails instead of reporting.\<close>

theorem bad_livekit_port_breaks_health:
  "fst (serve 200 (ok (health log_runtime (default_settings ''s'' ''d'')
     (calm_network\<lparr>env_livekit_url := Some ''wss://voice.example:port''\<rparr>))) (ann_world [])) =
   Failure 500 ''Internal Server Error''"
  by code_simp

end
