(* ===== verification/Audio.thy ===== *)
theory Audio
  imports Prelude Complex_Main "HOL-Library.Word"
begin

text \<open>
  \<^verbatim>\<open>openvoice/audio.py\<close>: mono PCM16 audio and its resampling. The byte layout of the samples is
  modelled; \<^verbatim>\<open>numpy\<close>'s \<^verbatim>\<open>linspace\<close> and \<^verbatim>\<open>interp\<close> are parameters over rationals, which contain every
  finite float.
\<close>

type_synonym bytes = "8 word list"

section \<open>Samples\<close>

text \<open>\<^verbatim>\<open>np.int16\<close>, little endian.\<close>

definition sample_of :: "8 word \<Rightarrow> 8 word \<Rightarrow> int" where
  "sample_of lo hi = signed_take_bit 15 (uint lo + 256 * uint hi)"

definition sample_bytes :: "int \<Rightarrow> bytes" where
  "sample_bytes n = [word_of_int n, word_of_int (n div 256)]"

definition int16 :: "int \<Rightarrow> bool" where
  "int16 n \<longleftrightarrow> - 32768 \<le> n \<and> n < 32768"

text \<open>\<^verbatim>\<open>np.frombuffer(pcm, dtype=np.int16)\<close> and \<^verbatim>\<open>tobytes\<close>.\<close>

fun frombuffer_int16 :: "bytes \<Rightarrow> int list res" where
  "frombuffer_int16 [] = Inr []"
| "frombuffer_int16 [b] = Inl (ValueError ''buffer size must be a multiple of element size'')"
| "frombuffer_int16 (lo # hi # bs) = bind_res (frombuffer_int16 bs) (\<lambda>ns. Inr (sample_of lo hi # ns))"

definition tobytes_int16 :: "int list \<Rightarrow> bytes" where
  "tobytes_int16 ns = concat (map sample_bytes ns)"

text \<open>\<^verbatim>\<open>astype(np.int16)\<close> of a float truncates towards zero, and wraps.\<close>

definition astype_int16 :: "rat \<Rightarrow> int" where
  "astype_int16 r = signed_take_bit 15 (if 0 \<le> r then \<lfloor>r\<rfloor> else \<lceil>r\<rceil>)"

section \<open>Resampling\<close>

record numpy =
  np_linspace :: "rat \<Rightarrow> rat \<Rightarrow> nat \<Rightarrow> rat list"
  np_interp :: "rat list \<Rightarrow> rat list \<Rightarrow> rat list \<Rightarrow> rat list"

text \<open>
  \<^verbatim>\<open>round(a / b)\<close> for integers: the nearest integer, ties to even. The float division is exact
  enough for that while \<open>a\<close> is below \<open>2 ^ 52\<close>.
\<close>

definition py_round_div :: "int \<Rightarrow> int \<Rightarrow> int" where
  "py_round_div a b =
     (let r = (of_int a / of_int b :: rat); f = \<lfloor>r\<rfloor>; d = r - of_int f
      in if d < 1 / 2 then f else if 1 / 2 < d then f + 1 else if even f then f else f + 1)"

definition target_count :: "nat \<Rightarrow> int \<Rightarrow> int \<Rightarrow> nat" where
  "target_count n_in from_rate to_rate = nat (max 1 (py_round_div (int n_in * to_rate) from_rate))"

definition resample_pcm16 :: "numpy \<Rightarrow> bytes \<Rightarrow> int \<Rightarrow> int \<Rightarrow> bytes res" where
  "resample_pcm16 np pcm from_rate to_rate =
     (if from_rate = to_rate \<or> pcm = [] then Inr pcm
      else bind_res (frombuffer_int16 pcm) (\<lambda>samples.
        if from_rate = 0 then Inl (OtherError ''ZeroDivisionError'' ''division by zero'')
        else
          (let n_in = length samples;
               points = np_linspace np 0 (of_nat (n_in - 1)) (target_count n_in from_rate to_rate);
               resampled = np_interp np points (map of_nat [0..<n_in]) (map of_int samples)
           in Inr (tobytes_int16 (map astype_int16 resampled)))))"

section \<open>The byte layout\<close>

lemma sample_of_int16: "int16 (sample_of lo hi)"
  using signed_take_bit_int_less_exp [of 15 "uint lo + 256 * uint hi"]
    signed_take_bit_int_greater_eq_minus_exp [of 15 "uint lo + 256 * uint hi"]
  by (simp add: sample_of_def int16_def)

lemma signed_id: "int16 n \<Longrightarrow> signed_take_bit 15 n = n"
  by (simp add: int16_def signed_take_bit_int_eq_self)

lemma sample_roundtrip: "int16 n \<Longrightarrow> sample_of (word_of_int n) (word_of_int (n div 256)) = n"
proof -
  assume n: "int16 n"
  have "n mod 256 + 256 * (n div 256 mod 256) = n mod 65536"
    using zmod_zmult2_eq [of 256 n 256] by simp
  then have "sample_of (word_of_int n) (word_of_int (n div 256)) = signed_take_bit 15 (n mod 65536)"
    by (simp add: sample_of_def uint_word_of_int)
  also have "\<dots> = signed_take_bit 15 (take_bit 16 n)" by (simp add: take_bit_eq_mod)
  also have "\<dots> = n" using signed_id [OF n] by (simp add: signed_take_bit_take_bit)
  finally show ?thesis .
qed

lemma frombuffer_tobytes: "list_all int16 ns \<Longrightarrow> frombuffer_int16 (tobytes_int16 ns) = Inr ns"
  by (induction ns) (simp_all add: tobytes_int16_def sample_bytes_def sample_roundtrip)

lemma frombuffer_even: "even (length bs) \<Longrightarrow> \<exists>ns. frombuffer_int16 bs = Inr ns \<and>
   length ns = length bs div 2 \<and> list_all int16 ns"
  by (induction bs rule: frombuffer_int16.induct) (auto simp: sample_of_int16)

lemma tobytes_length: "length (tobytes_int16 ns) = 2 * length ns"
  by (induction ns) (simp_all add: tobytes_int16_def sample_bytes_def)

end
