(* ===== verification/HTTP_Client.thy ===== *)
theory HTTP_Client
  imports Retry Py_Text Audio
begin

text \<open>
  The request that the Twilio, the Resend and the ElevenLabs provider share: one \<^verbatim>\<open>httpx\<close> POST under
  the retries, with some statuses retried. The client is a parameter.
\<close>

datatype http_body = Form_Body "(string \<times> string) list" | JSON_Body json

record http_request =
  hq_path :: string
  hq_params :: "(string \<times> string) list"
  hq_body :: http_body

record http_response =
  hs_status_code :: int
  hs_content :: bytes

text \<open>
  \<open>hc_http_error\<close> and \<open>hc_transport_error\<close> tell which exceptions are \<^verbatim>\<open>httpx.HTTPError\<close>s and
  \<^verbatim>\<open>httpx.TransportError\<close>s; \<open>hc_raise_for_status\<close> is what that method raises, if anything.
\<close>

record 'w http_client =
  hc_post :: "http_request \<Rightarrow> ('w, http_response) prog"
  hc_raise_for_status :: "http_response \<Rightarrow> exc option"
  hc_http_error :: "exc \<Rightarrow> bool"
  hc_transport_error :: "exc \<Rightarrow> bool"
  hc_retry :: "('w, http_response) retrier"

definition retryable_status_codes :: "int set" where
  "retryable_status_codes = {429, 500, 502, 503, 504}"

text \<open>The private exception \<^verbatim>\<open>_RetryableStatusError\<close>.\<close>

definition retryable_status_error :: "http_response \<Rightarrow> exc" where
  "retryable_status_error r =
     OtherError ''_RetryableStatusError'' (''Retryable status '' @ int_str (hs_status_code r))"

definition is_retryable_status :: "exc \<Rightarrow> bool" where
  "is_retryable_status e = (case e of OtherError c m \<Rightarrow> c = ''_RetryableStatusError'' | _ \<Rightarrow> False)"

definition checked_post :: "'w http_client \<Rightarrow> http_request \<Rightarrow> ('w, http_response) prog" where
  "checked_post hc req =
     bind_prog (hc_post hc req) (\<lambda>response.
       if hs_status_code response \<in> retryable_status_codes then raise (retryable_status_error response)
       else (case hc_raise_for_status hc response of Some e \<Rightarrow> raise e | None \<Rightarrow> ret response))"

definition declared :: "'w http_client \<Rightarrow> exc \<Rightarrow> bool" where
  "declared hc e \<longleftrightarrow> hc_http_error hc e \<or> is_retryable_status e"

text \<open>\<open>failed\<close> makes the provider's own exception of what the \<^verbatim>\<open>except\<close> clause takes.\<close>

definition retried_post ::
  "'w http_client \<Rightarrow> int \<Rightarrow> (exc \<Rightarrow> exc) \<Rightarrow> http_request \<Rightarrow> ('w, http_response) prog" where
  "retried_post hc max_retries failed req =
     try_prog
       (hc_retry hc (provider_policy max_retries (\<lambda>e. hc_transport_error hc e \<or> is_retryable_status e))
          (checked_post hc req))
       (\<lambda>e. raise (if declared hc e then failed e else e))"

section \<open>What leaves a request\<close>

text \<open>A client that fails with \<^verbatim>\<open>HTTPError\<close>s only, as \<^verbatim>\<open>httpx\<close> documents for sending requests.\<close>

definition httpx_ok :: "'w http_client \<Rightarrow> bool" where
  "httpx_ok hc \<longleftrightarrow>
     (\<forall>req. raises_only (hc_http_error hc) (hc_post hc req)) \<and>
     (\<forall>r e. hc_raise_for_status hc r = Some e \<longrightarrow> hc_http_error hc e)"

lemma checked_post_raises: "httpx_ok hc \<Longrightarrow> raises_only (declared hc) (checked_post hc req)"
  by (auto simp: raises_only_def httpx_ok_def checked_post_def declared_def is_retryable_status_def
      retryable_status_error_def bind_prog_apply split: prod.splits sum.splits if_splits option.splits)

lemma retried_post_raises:
  assumes "httpx_ok hc" and "tenacity sleep (hc_retry hc)"
  shows "raises_only (\<lambda>e. \<exists>e'. e = failed e') (retried_post hc max_retries failed req)"
proof -
  have "raises_only (declared hc) (hc_retry hc pol (checked_post hc req))" for pol
    by (rule tenacity_raises [OF assms(2) checked_post_raises [OF assms(1)]])
  then show ?thesis
    by (fastforce simp: raises_only_def retried_post_def try_prog_apply split: prod.splits sum.splits)
qed

text \<open>Each attempt is one request, so one call makes at most \<open>max 1 max_retries\<close> of them.\<close>

lemma checked_post_state: "snd (checked_post hc req s) = snd (hc_post hc req s)"
  by (simp add: checked_post_def bind_prog_apply split: prod.split sum.split option.split)

lemma retried_post_count:
  assumes "tenacity sleep (hc_retry hc)" and "\<And>s. count (snd (hc_post hc req s)) \<le> count s + (1 :: nat)"
    and "\<And>s. count (sleep s) = count s"
  shows "count (snd (retried_post hc max_retries failed req s)) \<le> count s + nat (max 1 max_retries)"
proof -
  have snd_try: "snd (try_prog m (\<lambda>e. raise (g e)) s) = snd (m s)" for m :: "('a, http_response) prog" and g
    by (simp add: try_prog_apply split: prod.split sum.split)
  show ?thesis
    using tenacity_count [of sleep "hc_retry hc" count "checked_post hc req"
        "provider_policy max_retries (\<lambda>e. hc_transport_error hc e \<or> is_retryable_status e)" s]
      assms by (simp add: retried_post_def snd_try checked_post_state provider_policy_def)
qed

end
