(* ===== verification/Notifications.thy ===== *)
theory Notifications
  imports HTTP_Client Booking_Service
begin

text \<open>
  \<^verbatim>\<open>openvoice/notifications/providers\<close>: SMS through Twilio and email through Resend.
\<close>

section \<open>Twilio\<close>

record 'w twilio =
  tw_client :: "'w http_client"
  tw_account_sid :: string
  tw_from_number :: string
  tw_max_retries :: int

definition twilio_request :: "'w twilio \<Rightarrow> string \<Rightarrow> string \<Rightarrow> http_request" where
  "twilio_request p to body =
     \<lparr>hq_path = ''/Accounts/'' @ tw_account_sid p @ ''/Messages.json'', hq_params = [],
      hq_body = Form_Body [(''To'', to), (''From'', tw_from_number p), (''Body'', body)]\<rparr>"

definition twilio_send_sms :: "'w twilio \<Rightarrow> 'w sms_provider" where
  "twilio_send_sms p to body =
     bind_prog (retried_post (tw_client p) (tw_max_retries p)
         (\<lambda>e. NotificationError (''Twilio SMS send failed: '' @ exc_str e)) (twilio_request p to body))
       (\<lambda>_. ret ())"

section \<open>Resend\<close>

record 'w resend =
  re_client :: "'w http_client"
  re_from_email :: string
  re_max_retries :: int

definition resend_request :: "'w resend \<Rightarrow> string \<Rightarrow> string \<Rightarrow> string \<Rightarrow> http_request" where
  "resend_request p to subject body =
     \<lparr>hq_path = ''/emails'', hq_params = [],
      hq_body = JSON_Body (JObj [(''from'', JStr (re_from_email p)), (''to'', JArr [JStr to]),
        (''subject'', JStr subject), (''text'', JStr body)])\<rparr>"

definition resend_send_email :: "'w resend \<Rightarrow> 'w email_provider" where
  "resend_send_email p to subject body =
     bind_prog (retried_post (re_client p) (re_max_retries p)
         (\<lambda>e. NotificationError (''Resend email send failed: '' @ exc_str e))
         (resend_request p to subject body))
       (\<lambda>_. ret ())"

end
