(* ===== verification/Google_Calendar.thy ===== *)
theory Google_Calendar
  imports Calendar_Base Py_ISO LLM_Base
begin

text \<open>
  \<^verbatim>\<open>openvoice/calendar/providers/google_calendar.py\<close>: the calendar provider over the Google API
  client, which is a parameter (\<open>google_service\<close>): one program for each request it executes.
\<close>

record 'w google_service =
  gs_freebusy_query :: "json \<Rightarrow> ('w, json) prog"
  gs_events_insert :: "string \<Rightarrow> json \<Rightarrow> ('w, json) prog"
  gs_events_delete :: "string \<Rightarrow> string \<Rightarrow> ('w, unit) prog"
  gs_events_patch :: "string \<Rightarrow> string \<Rightarrow> json \<Rightarrow> ('w, json) prog"

record 'w google_calendar =
  gc_service :: "'w google_service"
  gc_calendar_id :: string

text \<open>\<^verbatim>\<open>except Exception as exc: raise CalendarError(f"...{exc}")\<close>.\<close>

definition calendar_failure :: "string \<Rightarrow> ('w, 'a) prog \<Rightarrow> ('w, 'a) prog" where
  "calendar_failure said m = try_prog m (\<lambda>e. raise (CalendarError (said @ exc_str e)))"

text \<open>\<^verbatim>\<open>value[key]\<close>, a string value where the code needs one, and \<^verbatim>\<open>for x in value\<close>.\<close>

definition json_item :: "string \<Rightarrow> json \<Rightarrow> json res" where
  "json_item key v = (case v of
     JObj members \<Rightarrow> (case map_of members key of Some x \<Rightarrow> Inr x | None \<Rightarrow> Inl (OtherError ''KeyError'' key))
   | _ \<Rightarrow> Inl (OtherError ''TypeError'' ''indices must be integers or slices''))"

definition string_item :: "exc \<Rightarrow> json \<Rightarrow> string res" where
  "string_item e v = (case v of JStr s \<Rightarrow> Inr s | _ \<Rightarrow> Inl e)"

fun map_res :: "('a \<Rightarrow> 'b res) \<Rightarrow> 'a list \<Rightarrow> 'b list res" where
  "map_res f [] = Inr []"
| "map_res f (x # xs) = bind_res (f x) (\<lambda>y. bind_res (map_res f xs) (\<lambda>ys. Inr (y # ys)))"

text \<open>
  \<^verbatim>\<open>datetime.fromisoformat\<close> of a time stamp. A time without an offset would make a naive datetime,
  which fails at its first comparison with an aware one; the model lets it fail here.
\<close>

definition event_time :: "json \<Rightarrow> datetime res" where
  "event_time v =
     bind_res (string_item (OtherError ''TypeError'' ''fromisoformat: argument must be str'') v) (\<lambda>s.
       case fromisoformat s of
         Some (t, Some off) \<Rightarrow> Inr \<lparr>dt_wall = t, dt_off = off\<rparr>
       | Some (t, None) \<Rightarrow> Inl (OtherError ''TypeError'' ''can't compare offset-naive and offset-aware datetimes'')
       | None \<Rightarrow> Inl (ValueError ''Invalid isoformat string''))"

definition busy_slot :: "json \<Rightarrow> time_slot res" where
  "busy_slot slot =
     bind_res (bind_res (json_item ''start'' slot) event_time) (\<lambda>a.
       bind_res (bind_res (json_item ''end'' slot) event_time) (\<lambda>b.
         Inr \<lparr>sl_start = a, sl_end = b\<rparr>))"

definition busy_items :: "json \<Rightarrow> json list res" where
  "busy_items v = (case v of
     JArr xs \<Rightarrow> Inr xs | _ \<Rightarrow> Inl (OtherError ''TypeError'' ''object is not iterable''))"

definition busy_slots :: "string \<Rightarrow> json \<Rightarrow> time_slot list res" where
  "busy_slots calendar_id response =
     bind_res (json_item ''calendars'' response) (\<lambda>cs.
       bind_res (json_item calendar_id cs) (\<lambda>c.
         bind_res (bind_res (json_item ''busy'' c) busy_items) (map_res busy_slot)))"

definition google_list_busy_slots ::
  "'w google_calendar \<Rightarrow> datetime \<Rightarrow> datetime \<Rightarrow> ('w, time_slot list) prog" where
  "google_list_busy_slots g start stop =
     bind_prog
       (calendar_failure ''Google Calendar freebusy query failed: ''
          (gs_freebusy_query (gc_service g) (JObj
             [(''timeMin'', JStr (isoformat start)), (''timeMax'', JStr (isoformat stop)),
              (''items'', JArr [JObj [(''id'', JStr (gc_calendar_id g))]])])))
       (\<lambda>response. lift_res (busy_slots (gc_calendar_id g) response))"

definition when_json :: "datetime \<Rightarrow> json" where
  "when_json d = JObj [(''dateTime'', JStr (isoformat d))]"

definition event_error :: exc where
  "event_error = ValidationError ''CalendarEvent: Input should be a valid string''"

definition google_create_event ::
  "'w google_calendar \<Rightarrow> datetime \<Rightarrow> datetime \<Rightarrow> string \<Rightarrow> string option \<Rightarrow> ('w, calendar_event) prog" where
  "google_create_event g start stop summary description =
     bind_prog
       (calendar_failure ''Google Calendar event creation failed: ''
          (gs_events_insert (gc_service g) (gc_calendar_id g) (JObj
             [(''summary'', JStr summary),
              (''description'', (case description of Some d \<Rightarrow> JStr d | None \<Rightarrow> JNull)),
              (''start'', when_json start), (''end'', when_json stop)])))
       (\<lambda>event. lift_res (bind_res (bind_res (json_item ''id'' event) (string_item event_error))
          (\<lambda>i. Inr \<lparr>ev_event_id = i, ev_start = start, ev_end = stop, ev_summary = summary\<rparr>)))"

definition google_cancel_event :: "'w google_calendar \<Rightarrow> string \<Rightarrow> ('w, unit) prog" where
  "google_cancel_event g event_id =
     calendar_failure ''Google Calendar event cancellation failed: ''
       (gs_events_delete (gc_service g) (gc_calendar_id g) event_id)"

text \<open>\<^verbatim>\<open>event.get("summary", "")\<close>.\<close>

definition summary_or_empty :: "json \<Rightarrow> string res" where
  "summary_or_empty event = (case event of
     JObj members \<Rightarrow> (case map_of members ''summary'' of Some x \<Rightarrow> string_item event_error x | None \<Rightarrow> Inr [])
   | _ \<Rightarrow> Inl (OtherError ''AttributeError'' ''get''))"

definition google_reschedule_event ::
  "'w google_calendar \<Rightarrow> string \<Rightarrow> datetime \<Rightarrow> datetime \<Rightarrow> ('w, calendar_event) prog" where
  "google_reschedule_event g event_id start stop =
     bind_prog
       (calendar_failure ''Google Calendar event reschedule failed: ''
          (gs_events_patch (gc_service g) (gc_calendar_id g) event_id
             (JObj [(''start'', when_json start), (''end'', when_json stop)])))
       (\<lambda>event. lift_res (bind_res (bind_res (json_item ''id'' event) (string_item event_error)) (\<lambda>i.
          bind_res (summary_or_empty event) (\<lambda>s.
            Inr \<lparr>ev_event_id = i, ev_start = start, ev_end = stop, ev_summary = s\<rparr>))))"

definition google_provider :: "'w google_calendar \<Rightarrow> 'w calendar" where
  "google_provider g =
     \<lparr>list_busy_slots = google_list_busy_slots g, create_event = google_create_event g,
      cancel_event = google_cancel_event g, reschedule_event = google_reschedule_event g\<rparr>"

end
