(* ===== verification/Providers_Thms.thy ===== *)
theory Providers_Thms
  imports Notifications Google_Calendar Booking_Tools_Thms
begin

text \<open>
  The providers of the repository against the interfaces that the booking service relies on: which
  exceptions leave them, and that what Google reports as busy is what the slot search works with.
\<close>

section \<open>Messages\<close>

lemma twilio_quiet:
  assumes "httpx_ok (tw_client p)" and "tenacity sleep (hc_retry (tw_client p))"
  shows "quiet (twilio_send_sms p)"
  using retried_post_raises [OF assms]
  by (fastforce simp: quiet_def twilio_send_sms_def raises_only_def bind_prog_apply
      split: prod.splits sum.splits)

lemma resend_quiet:
  assumes "httpx_ok (re_client p)" and "tenacity sleep (hc_retry (re_client p))"
  shows "quiet (\<lambda>to. resend_send_email p to subject)"
  using retried_post_raises [OF assms]
  by (fastforce simp: quiet_def resend_send_email_def raises_only_def bind_prog_apply
      split: prod.splits sum.splits)

section \<open>The calendar\<close>

lemma calendar_failure_raises: "calendar_failure said m s = (Inl e, t) \<Longrightarrow> \<exists>msg. e = CalendarError msg"
  by (auto simp: calendar_failure_def try_prog_apply split: prod.splits sum.splits)

text \<open>
  The answer of a freebusy query as Google documents it: an object that has, beside its kind and the
  bounds of the query, the queried calendar under \<^verbatim>\<open>calendars\<close>, with the intervals in which it is busy
  (\<open>busy\<close>) beside anything else. The times are RFC 3339 texts, to the second or the microsecond, with \<^verbatim>\<open>Z\<close>
  or an offset.
\<close>

definition rfc3339 :: "string \<Rightarrow> datetime \<Rightarrow> bool" where
  "rfc3339 s d \<longleftrightarrow> dt_ok d \<and> (s = isoformat d \<or>
     dt_off d = 0 \<and> s = iso_date (dt_wall d div day_us) @ ''T'' @ iso_clock (dt_wall d mod day_us) @ ''Z'')"

definition json_member :: "json \<Rightarrow> string \<Rightarrow> json option" where
  "json_member v key = (case v of JObj members \<Rightarrow> map_of members key | _ \<Rightarrow> None)"

definition interval_json :: "json \<Rightarrow> time_slot \<Rightarrow> bool" where
  "interval_json v s \<longleftrightarrow> (\<exists>a b. json_member v ''start'' = Some (JStr a) \<and> rfc3339 a (sl_start s) \<and>
     json_member v ''end'' = Some (JStr b) \<and> rfc3339 b (sl_end s))"

definition freebusy_answer :: "string \<Rightarrow> json \<Rightarrow> time_slot list \<Rightarrow> bool" where
  "freebusy_answer calendar_id v busy \<longleftrightarrow>
     (\<exists>cs c xs. json_member v ''calendars'' = Some cs \<and> json_member cs calendar_id = Some c \<and>
        json_member c ''busy'' = Some (JArr xs) \<and> list_all2 interval_json xs busy)"

text \<open>
  What the intervals mean: within the bounds of the query they cover the time of every event, however
  they are merged or cut.
\<close>

definition within_slot :: "int \<Rightarrow> time_slot \<Rightarrow> bool" where
  "within_slot t s \<longleftrightarrow> dt_instant (sl_start s) \<le> t \<and> t < dt_instant (sl_end s)"

definition covers :: "time_slot list \<Rightarrow> datetime \<Rightarrow> datetime \<Rightarrow> time_slot list \<Rightarrow> bool" where
  "covers busy start stop events \<longleftrightarrow>
     (\<forall>e \<in> set events. \<forall>t. within_slot t e \<and> dt_instant start \<le> t \<and> t < dt_instant stop \<longrightarrow>
        (\<exists>b \<in> set busy. within_slot t b))"

lemma rfc3339_read: "rfc3339 s d \<Longrightarrow> event_time (JStr s) = Inr d"
  using fromisoformat_zone [of "dt_wall d" "''Z''" "Some 0"]
  by (auto simp: rfc3339_def event_time_def string_item_def fromisoformat_isoformat dt_ok_def is_zone_char_def
      read_zone_def)

lemma json_item_member: "json_member v key = Some x \<Longrightarrow> json_item key v = Inr x"
  by (simp add: json_member_def json_item_def split: json.splits)

lemma interval_read: "interval_json v s \<Longrightarrow> busy_slot v = Inr s"
  by (auto simp: interval_json_def busy_slot_def json_item_member rfc3339_read)

lemma intervals_read: "list_all2 interval_json xs busy \<Longrightarrow> map_res busy_slot xs = Inr busy"
  by (induction rule: list_all2_induct) (simp_all add: interval_read)

lemma busy_slots_read: "freebusy_answer i v busy \<Longrightarrow> busy_slots i v = Inr busy"
  by (auto simp: freebusy_answer_def busy_slots_def busy_items_def intervals_read dest!: json_item_member)

lemma covered_events_avoided:
  fixes s e :: time_slot
  assumes "covers busy f u events" and "\<not> overlaps_any (sl_start s) (sl_end s) busy"
    and "dt_le f (sl_start s)" and "dt_less (sl_start s) (sl_end s)" and "dt_le (sl_end s) u"
    and "e \<in> set events" and "dt_less (sl_start e) (sl_end e)"
  shows "\<not> (dt_less (sl_start s) (sl_end e) \<and> dt_less (sl_start e) (sl_end s))"
proof
  assume clash: "dt_less (sl_start s) (sl_end e) \<and> dt_less (sl_start e) (sl_end s)"
  let ?t = "max (dt_instant (sl_start s)) (dt_instant (sl_start e))"
  have "within_slot ?t e" "dt_instant f \<le> ?t" "?t < dt_instant u" and s: "within_slot ?t s"
    using clash assms(3-5,7) by (auto simp: within_slot_def dt_order_defs)
  with assms(1,6) obtain b where "b \<in> set busy" "within_slot ?t b" unfolding covers_def by blast
  with s assms(2) show False
    by (auto simp: within_slot_def overlaps_any_def list_ex_iff dt_order_defs)
qed

text \<open>
  A calendar that Google cannot read is answered with an error and no intervals, and counts as free.
\<close>

theorem unreadable_calendar_looks_free:
  "busy_slots i (JObj [(''calendars'', JObj [(i, JObj [(''errors'', JArr [JObj [(''domain'', JStr ''global''),
     (''reason'', JStr ''notFound'')]]), (''busy'', JArr [])])])]) = Inr []"
  by (simp add: busy_slots_def json_item_def busy_items_def)

section \<open>Properties\<close>

definition freebusy_request :: "'w google_calendar \<Rightarrow> datetime \<Rightarrow> datetime \<Rightarrow> json" where
  "freebusy_request g start stop = JObj
     [(''timeMin'', JStr (isoformat start)), (''timeMax'', JStr (isoformat stop)),
      (''items'', JArr [JObj [(''id'', JStr (gc_calendar_id g))]])]"

text \<open>
  (C27) With Google's calendar the search keeps clear of the events: if the freebusy query for the
  searched window is answered as Google documents, with intervals that cover the time of the events
  within the window, merged or not, then no proposed slot that ends within the window clashes with any
  event that takes time.
\<close>

theorem google_events_are_avoided:
  assumes "bs_calendar bs = google_provider g" and "search_ok bs f days minutes"
    and "gs_freebusy_query (gc_service g) (freebusy_request g f (until_of f days)) w = (Inr answer, w')"
    and "freebusy_answer (gc_calendar_id g) answer busy" and "covers busy f (until_of f days) events"
    and "\<forall>e \<in> set events. dt_less (sl_start e) (sl_end e)"
    and "find_available_slots bs f days minutes m w = Some (Inr slots, w'')"
    and "s \<in> set slots" and "dt_le (sl_end s) (until_of f days)"
  shows "\<not> overlaps_any (sl_start s) (sl_end s) events"
proof -
  have "list_busy_slots (bs_calendar bs) f (until_of f days) w = (Inr busy, w')"
    using assms(1,3,4)
    by (simp add: google_provider_def google_list_busy_slots_def freebusy_request_def
        calendar_failure_def bind_prog_apply try_prog_apply busy_slots_read)
  from find_slots_spec [OF assms(2) this, of m] assms(7,8)
  have "s \<in> set (expected_slots bs f days minutes)" "free_slot busy s" by (auto dest: in_set_takeD)
  moreover have "dt_le f (sl_start s)" "dt_less (sl_start s) (sl_end s)"
    using expected_slot [OF assms(2)] calculation(1) assms(2)
    by (auto simp: search_ok_def dt_order_defs dt_instant_def unit_defs)
  ultimately show ?thesis
    using covered_events_avoided [OF assms(5) _ _ _ assms(9)] assms(6)
    unfolding free_slot_def overlaps_any_def [of _ _ events] list_ex_iff by blast
qed

text \<open>
  (C28) An outage of the messaging services costs no booking: with Twilio and Resend over an HTTP
  client that fails only with its documented errors, under the documented retries, a booking whose
  event and row are accepted returns its appointment and leaves its row, whatever the two answer.
\<close>

theorem messaging_outage_costs_no_booking:
  assumes "bs_sms bs = Some (twilio_send_sms p)" and "bs_email bs = Some (resend_send_email q)"
    and "httpx_ok (tw_client p)" and "tenacity sleep (hc_retry (tw_client p))"
    and "httpx_ok (re_client q)" and "tenacity sleep (hc_retry (re_client q))"
    and "rt_db_fault rt = (\<lambda>_. None)" and "storable start" and "storable stop"
    and "\<forall>a \<in> set (w_appointments w). \<not> overlaps_window (cl_id client) start stop a"
    and "create_event (bs_calendar bs) start stop (event_summary client) None (w_ext w) = (Inr event, e1)"
    and "rt_uuid rt e1 = (i, e2)" and "i \<notin> ap_id ` set (w_appointments w)"
    and "appointment_row_error (new_appointment i client start stop call_id notes event) w = None"
  shows "\<exists>e. book_appointment rt bs client start stop call_id notes w =
    (Inr (stored (new_appointment i client start stop call_id notes event)),
     w\<lparr>w_appointments := w_appointments w
         @ [stored (new_appointment i client start stop call_id notes event)], w_ext := e\<rparr>)"
  using assms(1,2) twilio_quiet [OF assms(3,4)] resend_quiet [OF assms(5,6)]
  by (intro booking_stands [OF assms(7-14)]) simp_all

section \<open>Concrete runs\<close>

text \<open>Two events of the afternoon, which Google reports as one interval.\<close>

definition demo_answer :: json where
  "demo_answer = JObj
     [(''kind'', JStr ''calendar#freeBusy''), (''timeMin'', JStr (isoformat (at_hour 0 9))),
      (''timeMax'', JStr (isoformat (at_hour 1 9))),
      (''calendars'', JObj [(''primary'', JObj [(''busy'', JArr [JObj
         [(''start'', JStr (iso_date (dt_wall (at_hour 0 14) div day_us) @ ''T14:00:00Z'')),
          (''end'', JStr (iso_date (dt_wall (at_hour 0 16) div day_us) @ ''T16:00:00Z''))]])])])]"

definition google_demo :: "unit google_calendar" where
  "google_demo = \<lparr>gc_service =
     \<lparr>gs_freebusy_query = (\<lambda>body. ret demo_answer),
      gs_events_insert = (\<lambda>i body. ret (JObj [(''id'', JStr ''ev'')])),
      gs_events_delete = (\<lambda>i e. ret ()), gs_events_patch = (\<lambda>i e body. ret (JObj [(''id'', JStr e)]))\<rparr>,
     gc_calendar_id = ''primary''\<rparr>"

definition google_booking :: "unit booking_service" where
  "google_booking = \<lparr>bs_calendar = google_provider google_demo, bs_sms = None, bs_email = None,
     bs_hours_start = 9, bs_hours_end = 17, bs_default_minutes = 240\<rparr>"

lemma demo_is_documented:
  "freebusy_answer ''primary'' demo_answer [\<lparr>sl_start = at_hour 0 14, sl_end = at_hour 0 16\<rparr>]"
proof -
  have "rfc3339 (iso_date (dt_wall (at_hour 0 14) div day_us) @ ''T14:00:00Z'') (at_hour 0 14)"
    "rfc3339 (iso_date (dt_wall (at_hour 0 16) div day_us) @ ''T16:00:00Z'') (at_hour 0 16)" by code_simp+
  then show ?thesis
    by (simp add: freebusy_answer_def demo_answer_def json_member_def interval_json_def)
qed

theorem google_events_are_avoided_witness:
  "\<not> overlaps_any (at_hour 0 9) (at_hour 0 13) [\<lparr>sl_start = at_hour 0 14, sl_end = at_hour 0 15\<rparr>,
     \<lparr>sl_start = at_hour 0 15, sl_end = at_hour 0 16\<rparr>]"
proof -
  let ?ev = "[\<lparr>sl_start = at_hour 0 14, sl_end = at_hour 0 15\<rparr>, \<lparr>sl_start = at_hour 0 15, sl_end = at_hour 0 16\<rparr>]"
  let ?f = "at_hour 0 9" and ?busy = "[\<lparr>sl_start = at_hour 0 14, sl_end = at_hour 0 16\<rparr>]"
  let ?s = "\<lparr>sl_start = at_hour 0 9, sl_end = at_hour 0 13\<rparr>"
  have cal: "bs_calendar google_booking = google_provider google_demo" by (simp add: google_booking_def)
  have ok: "search_ok google_booking ?f 1 None"
    by (simp add: search_ok_def google_booking_def at_hour_def minutes_or_default_def max_wall_def unit_defs)
  have query: "gs_freebusy_query (gc_service google_demo) body () = (Inr demo_answer, ())" for body
    by (simp add: google_demo_def)
  have answer: "freebusy_answer (gc_calendar_id google_demo) demo_answer ?busy"
    using demo_is_documented by (simp add: google_demo_def)
  have cover: "covers ?busy ?f (until_of ?f 1) ?ev" and time: "\<forall>e \<in> set ?ev. dt_less (sl_start e) (sl_end e)"
    by (auto simp: covers_def within_slot_def at_hour_def dt_order_defs dt_instant_def unit_defs)
  have list: "list_busy_slots (bs_calendar google_booking) ?f (until_of ?f 1) () = (Inr ?busy, ())"
    using busy_slots_read [OF answer] query
    by (simp add: cal google_provider_def google_list_busy_slots_def calendar_failure_def bind_prog_apply
        try_prog_apply)
  have mem: "?s \<in> set (take (nat 5) (filter (free_slot ?busy) (expected_slots google_booking ?f 1 None)))" by code_simp
  have within: "dt_le (sl_end ?s) (until_of ?f 1)" by code_simp
  from google_events_are_avoided [OF cal ok query answer cover time find_slots_spec [OF ok list, where m = 5] mem within]
  show ?thesis by simp
qed

text \<open>A network that is down: every request is logged and fails.\<close>

definition unreachable :: exc where
  "unreachable = OtherError ''ConnectError'' ''All connection attempts failed''"

definition dead_http :: "string list http_client" where
  "dead_http = \<lparr>hc_post = (\<lambda>req log. (Inl unreachable, log @ [hq_path req])),
     hc_raise_for_status = (\<lambda>r. None), hc_http_error = (\<lambda>e. e = unreachable),
     hc_transport_error = (\<lambda>e. e = unreachable), hc_retry = policy_retrier\<rparr>"

lemma dead_http_ok: "httpx_ok dead_http" "tenacity (\<lambda>s. s) (hc_retry dead_http)"
  by (simp_all add: httpx_ok_def raises_only_def dead_http_def policy_retrier_tenacity)

definition dead_twilio :: "string list twilio" where
  "dead_twilio = \<lparr>tw_client = dead_http, tw_account_sid = ''AC1'', tw_from_number = ''+1'', tw_max_retries = 3\<rparr>"

definition dead_resend :: "string list resend" where
  "dead_resend = \<lparr>re_client = dead_http, re_from_email = ''a@b'', re_max_retries = 3\<rparr>"

definition dead_service :: "string list booking_service" where
  "dead_service = (log_service (Some (twilio_send_sms dead_twilio)))
     \<lparr>bs_email := Some (resend_send_email dead_resend)\<rparr>"

theorem messaging_outage_costs_no_booking_witness:
  "\<exists>e. book_appointment log_runtime dead_service ann (hour_slot 9 0) (hour_slot 10 0) None None
      (ann_world []) =
    (Inr (ann_appointment 1 CONFIRMED 9), ann_world [ann_appointment 1 CONFIRMED 9]\<lparr>w_ext := e\<rparr>)"
proof -
  let ?ev = "\<lparr>ev_event_id = ''ev'', ev_start = hour_slot 9 0, ev_end = hour_slot 10 0,
    ev_summary = event_summary ann\<rparr>"
  let ?a = "new_appointment 1 ann (hour_slot 9 0) (hour_slot 10 0) None None ?ev"
  have row: "appointment_row_error ?a (ann_world []) = None" "1 \<notin> ap_id ` set (w_appointments (ann_world []))"
    "\<forall>a \<in> set (w_appointments (ann_world [])).
       \<not> overlaps_window (cl_id ann) (hour_slot 9 0) (hour_slot 10 0) a" by code_simp+
  have ok: "storable (hour_slot 9 0)" "storable (hour_slot 10 0)" by code_simp+
  have a: "stored ?a = ann_appointment 1 CONFIRMED 9" by code_simp
  have tw: "tw_client dead_twilio = dead_http" and re: "re_client dead_resend = dead_http"
    by (simp_all add: dead_twilio_def dead_resend_def)
  have sms: "bs_sms dead_service = Some (twilio_send_sms dead_twilio)"
    "bs_email dead_service = Some (resend_send_email dead_resend)"
    by (simp_all add: dead_service_def log_service_def)
  have run: "rt_db_fault log_runtime = (\<lambda>_. None)"
    "create_event (bs_calendar dead_service) (hour_slot 9 0) (hour_slot 10 0) (event_summary ann) None
       (w_ext (ann_world [])) = (Inr ?ev, [''create''])"
    "rt_uuid log_runtime [''create''] = (1, [''create''])"
    by (simp_all add: log_runtime_def dead_service_def log_service_def log_calendar_def ann_world_def)
  from messaging_outage_costs_no_booking [OF sms, unfolded tw re, OF dead_http_ok dead_http_ok run(1) ok
      row(3) run(2,3) row(2,1)]
  show ?thesis unfolding a by (simp add: ann_world_def)
qed

end
