(* ===== verification/Voice_Providers.thy ===== *)
theory Voice_Providers
  imports HTTP_Client Audio
begin

text \<open>
  \<^verbatim>\<open>openvoice/stt\<close> and \<^verbatim>\<open>openvoice/tts\<close>: the speech interfaces and the faster-whisper, the Piper and
  the ElevenLabs provider. The models and the HTTP client are parameters. A stream is what it
  yielded, followed by the exception that ended it, if one did.
\<close>

section \<open>Interfaces\<close>

record transcript_segment =
  ts_text :: string
  ts_is_final :: bool
  ts_language :: "string option"

type_synonym ('w, 'a) stream = "'w \<Rightarrow> ('a list \<times> exc option) \<times> 'w"

text \<open>\<^verbatim>\<open>transcribe_stream(frames, sample_rate)\<close> and \<^verbatim>\<open>synthesize(text, voice, sample_rate)\<close>.\<close>

type_synonym 'w stt = "bytes list \<Rightarrow> int \<Rightarrow> ('w, transcript_segment) stream"
type_synonym 'w tts = "string \<Rightarrow> string option \<Rightarrow> int \<Rightarrow> ('w, bytes) stream"

section \<open>faster-whisper\<close>

text \<open>\<open>wh_transcribe\<close> runs the decoding of the samples to its end and gives the segments' texts.\<close>

record 'w whisper =
  wh_transcribe :: "rat list \<Rightarrow> string option \<Rightarrow> ('w, string list) prog"
  wh_language :: "string option"
  wh_numpy :: numpy

definition whisper_sample_rate :: int where
  "whisper_sample_rate = 16000"

definition whisper_samples :: "'w whisper \<Rightarrow> bytes \<Rightarrow> int \<Rightarrow> rat list res" where
  "whisper_samples p raw sample_rate =
     bind_res (if sample_rate \<noteq> whisper_sample_rate
         then resample_pcm16 (wh_numpy p) raw sample_rate whisper_sample_rate else Inr raw)
       (\<lambda>pcm. bind_res (frombuffer_int16 pcm) (\<lambda>ns. Inr (map (\<lambda>n. of_int n / 32768) ns)))"

definition whisper_transcribe_stream :: "'w whisper \<Rightarrow> 'w stt" where
  "whisper_transcribe_stream p frames sample_rate w =
     (let raw = concat frames
      in if raw = [] then (([], None), w)
         else case whisper_samples p raw sample_rate of
             Inl e \<Rightarrow> (([], Some e), w)
           | Inr audio \<Rightarrow>
               (case wh_transcribe p audio (wh_language p) w of
                  (Inl e, t) \<Rightarrow> (([], Some (STTError (''faster-whisper transcription failed: '' @ exc_str e))), t)
                | (Inr texts, t) \<Rightarrow>
                    (([\<lparr>ts_text = py_strip (concat texts), ts_is_final = True,
                        ts_language = wh_language p\<rparr>], None), t)))"

section \<open>Piper\<close>

text \<open>\<open>pi_synthesize\<close> runs the voice to its end: the PCM16 chunks at the voice's own rate.\<close>

record 'w piper =
  pi_synthesize :: "string \<Rightarrow> ('w, bytes list) prog"
  pi_sample_rate :: int
  pi_numpy :: numpy

fun resample_chunks :: "numpy \<Rightarrow> int \<Rightarrow> int \<Rightarrow> bytes list \<Rightarrow> bytes list \<times> exc option" where
  "resample_chunks np from_rate to_rate [] = ([], None)"
| "resample_chunks np from_rate to_rate (c # cs) =
     (case resample_pcm16 np c from_rate to_rate of
        Inl e \<Rightarrow> ([], Some e)
      | Inr out \<Rightarrow> (let (outs, failure) = resample_chunks np from_rate to_rate cs in (out # outs, failure)))"

definition piper_synthesize :: "'w piper \<Rightarrow> 'w tts" where
  "piper_synthesize p text_in voice sample_rate w =
     (case pi_synthesize p text_in w of
        (Inl e, t) \<Rightarrow> (([], Some (TTSError (''Piper synthesis failed: '' @ exc_str e))), t)
      | (Inr chunks, t) \<Rightarrow> (resample_chunks (pi_numpy p) (pi_sample_rate p) sample_rate chunks, t))"

section \<open>ElevenLabs\<close>

record 'w elevenlabs =
  el_client :: "'w http_client"
  el_voice_id :: string
  el_model_id :: string
  el_max_retries :: int

definition elevenlabs_request :: "'w elevenlabs \<Rightarrow> string \<Rightarrow> string \<Rightarrow> int \<Rightarrow> http_request" where
  "elevenlabs_request p voice_id text_in sample_rate =
     \<lparr>hq_path = ''/text-to-speech/'' @ voice_id,
      hq_params = [(''output_format'', ''pcm_'' @ int_str sample_rate)],
      hq_body = JSON_Body (JObj [(''text'', JStr text_in), (''model_id'', JStr (el_model_id p))])\<rparr>"

definition elevenlabs_synthesize :: "'w elevenlabs \<Rightarrow> 'w tts" where
  "elevenlabs_synthesize p text_in voice sample_rate w =
     (let voice_id = (if truthy_str voice then the voice else el_voice_id p)
      in case retried_post (el_client p) (el_max_retries p)
             (\<lambda>e. TTSError (''ElevenLabs synthesis failed: '' @ exc_str e))
             (elevenlabs_request p voice_id text_in sample_rate) w of
           (Inl e, t) \<Rightarrow> (([], Some e), t)
         | (Inr response, t) \<Rightarrow> (([hs_content response], None), t))"

end
