(* ===== verification/Voice_Agent.thy ===== *)
theory Voice_Agent
  imports Voice_Providers Conversation
begin

text \<open>
  \<^verbatim>\<open>openvoice/telephony/livekit_agent.py\<close>: the three pipeline nodes of \<^verbatim>\<open>OpenVoiceAgent\<close>, and
  \<^verbatim>\<open>openvoice/telephony/pipeline.py\<close>. LiveKit's events, frames and chat context are data.
\<close>

section \<open>Speaking\<close>

text \<open>
  \<^verbatim>\<open>_find_sentence_end\<close>: one past the first mark that is followed by a space or a line end.
\<close>

fun find_sentence_end :: "string \<Rightarrow> nat option" where
  "find_sentence_end (c # d # s) =
     (if c \<in> {CHR ''.'', CHR ''!'', CHR ''?'', CHR 0x0A} \<and> d \<in> {CHR '' '', CHR 0x0A} then Some 1
      else map_option Suc (find_sentence_end (d # s)))"
| "find_sentence_end [c] = None"
| "find_sentence_end [] = None"

lemma find_sentence_end_bound: "find_sentence_end s = Some n \<Longrightarrow> 0 < n \<and> n < length s"
  by (induction s arbitrary: n rule: find_sentence_end.induct) (auto split: if_splits)

record audio_frame =
  af_data :: bytes
  af_sample_rate :: int
  af_num_channels :: int
  af_samples_per_channel :: nat

text \<open>A stray last byte is cut off; a chunk without a sample makes no frame.\<close>

definition chunk_frames :: "bytes \<Rightarrow> audio_frame list" where
  "chunk_frames chunk =
     (let pcm = (if odd (length chunk) then butlast chunk else chunk); n = length pcm div 2
      in if n = 0 then []
         else [\<lparr>af_data = pcm, af_sample_rate = 16000, af_num_channels = 1, af_samples_per_channel = n\<rparr>])"

definition synthesize_to_frames :: "'w tts \<Rightarrow> string \<Rightarrow> ('w, audio_frame) stream" where
  "synthesize_to_frames tts sentence w =
     (case tts sentence None 16000 w of
        ((chunks, failure), t) \<Rightarrow> ((concat (map chunk_frames chunks), failure), t))"

text \<open>One stream after another; a failure ends both.\<close>

definition then_stream :: "('w, 'a) stream \<Rightarrow> ('w, 'a) stream \<Rightarrow> ('w, 'a) stream" where
  "then_stream f g w =
     (case f w of
        ((xs, Some e), t) \<Rightarrow> ((xs, Some e), t)
      | ((xs, None), t) \<Rightarrow> (case g t of ((ys, failure), u) \<Rightarrow> ((xs @ ys, failure), u)))"

definition no_stream :: "('w, 'a) stream" where
  "no_stream w = (([], None), w)"

text \<open>
  The \<^verbatim>\<open>while\<close> loop over the complete sentences of the buffer: the speech they make, and the
  buffer that is left.
\<close>

function speak_sentences :: "'w tts \<Rightarrow> string \<Rightarrow> ('w, audio_frame) stream \<times> string" where
  "speak_sentences tts buffer =
     (case find_sentence_end buffer of
        None \<Rightarrow> (no_stream, buffer)
      | Some k \<Rightarrow>
          (let sentence = py_strip (take k buffer);
               (speech, rest) = speak_sentences tts (drop k buffer)
           in if sentence = [] then (speech, rest)
              else (then_stream (synthesize_to_frames tts sentence) speech, rest)))"
  by pat_completeness auto
termination
  by (relation "measure (\<lambda>(tts, buffer). length buffer)") (auto dest: find_sentence_end_bound)

declare speak_sentences.simps [simp del]

text \<open>\<^verbatim>\<open>tts_node\<close>: the chunks in turn, then what is left in the buffer.\<close>

fun speak_chunks :: "'w tts \<Rightarrow> string list \<Rightarrow> string \<Rightarrow> ('w, audio_frame) stream" where
  "speak_chunks tts [] buffer =
     (if py_strip buffer \<noteq> [] then synthesize_to_frames tts (py_strip buffer) else no_stream)"
| "speak_chunks tts (chunk # chunks) buffer =
     (let (speech, rest) = speak_sentences tts (buffer @ chunk)
      in then_stream speech (speak_chunks tts chunks rest))"

definition tts_node :: "'w tts \<Rightarrow> string list \<Rightarrow> ('w, audio_frame) stream" where
  "tts_node tts chunks = speak_chunks tts chunks []"

section \<open>Listening\<close>

record captured_frame =
  cf_data :: bytes
  cf_sample_rate :: int

record vad_event =
  ve_end_of_speech :: bool
  ve_frames :: "captured_frame list"

text \<open>A final transcript: its language and its text.\<close>

record speech_event =
  se_language :: string
  se_text :: string

definition final_events :: "transcript_segment list \<Rightarrow> speech_event list" where
  "final_events segments =
     map (\<lambda>seg. \<lparr>se_language = (if truthy_str (ts_language seg) then the (ts_language seg) else ''en''),
         se_text = ts_text seg\<rparr>)
       (filter (\<lambda>seg. ts_is_final seg \<and> ts_text seg \<noteq> []) segments)"

definition hear_utterance :: "'w stt \<Rightarrow> captured_frame list \<Rightarrow> ('w, speech_event) stream" where
  "hear_utterance stt frames w =
     (case stt (map cf_data frames) (cf_sample_rate (hd frames)) w of
        ((segments, failure), t) \<Rightarrow> ((final_events segments, failure), t))"

fun stt_node :: "'w stt \<Rightarrow> vad_event list \<Rightarrow> ('w, speech_event) stream" where
  "stt_node stt [] = no_stream"
| "stt_node stt (ev # evs) =
     (if \<not> ve_end_of_speech ev \<or> ve_frames ev = [] then stt_node stt evs
      else then_stream (hear_utterance stt (ve_frames ev)) (stt_node stt evs))"

section \<open>Replying\<close>

record chat_item =
  ci_role :: string
  ci_text_content :: "string option"

record chat_chunk =
  cch_id :: string
  cch_content :: string

text \<open>
  \<^verbatim>\<open>llm_node\<close>: the chunks, the exception that ended them, and whether the transfer task was
  started. \<open>on_transfer\<close> tells whether a transfer callback was given.
\<close>

definition llm_node ::
  "'w conv_config \<Rightarrow> bool \<Rightarrow> chat_item list \<Rightarrow> 'w conv_state
   \<Rightarrow> ((chat_chunk list \<times> exc option) \<times> bool) \<times> 'w conv_state" where
  "llm_node c on_transfer messages s =
     (let user_messages = filter (\<lambda>m. ci_role m = ''user'') messages
      in if user_messages = [] then ((([], None), False), s)
         else
           (let caller_text = (case ci_text_content (last user_messages) of Some t \<Rightarrow> t | None \<Rightarrow> []);
                chunk_id = ''openvoice-'' @ int_str (int (length messages));
                ((deltas, failure), t) = handle_utterance_stream c caller_text s
            in (((map (\<lambda>d. \<lparr>cch_id = chunk_id, cch_content = d\<rparr>) deltas, failure),
                 failure = None \<and> on_transfer \<and>
                 (case cs_last_reply t of None \<Rightarrow> False | Some r \<Rightarrow> transfer_to_human r)), t)))"

section \<open>The pipeline of one utterance\<close>

definition last_transcript :: "transcript_segment list \<Rightarrow> string" where
  "last_transcript segments =
     foldl (\<lambda>transcript seg. if ts_is_final seg \<and> ts_text seg \<noteq> [] then ts_text seg else transcript)
       [] segments"

text \<open>The audio of the reply is a stream that the caller of the pipeline runs.\<close>

definition handle_utterance_audio ::
  "'w stt \<Rightarrow> 'w tts \<Rightarrow> 'w conv_config \<Rightarrow> bytes list \<Rightarrow> int \<Rightarrow> 'w conv_state
   \<Rightarrow> (agent_reply \<times> ('w, bytes) stream) option res \<times> 'w conv_state" where
  "handle_utterance_audio stt tts c audio_frames sample_rate s =
     (case stt audio_frames sample_rate (cs_world s) of
        ((segments, Some e), w) \<Rightarrow> (Inl e, s\<lparr>cs_world := w\<rparr>)
      | ((segments, None), w) \<Rightarrow>
          (let transcript = last_transcript segments; s1 = s\<lparr>cs_world := w\<rparr>
           in if transcript = [] then (Inr None, s1)
              else case handle_utterance c transcript s1 of
                  (Inl e, t) \<Rightarrow> (Inl e, t)
                | (Inr reply, t) \<Rightarrow> (Inr (Some (reply, tts (reply_text reply) None sample_rate)), t)))"

end
