(* ===== verification/Audio_Thms.thy ===== *)
theory Audio_Thms
  imports Audio
begin

text \<open>
  Resampling keeps the sound: the right number of samples, none outside the range of the original
  ones (so the conversion back to 16 bits never wraps), the first and the last where they were.
\<close>

section \<open>What numpy documents\<close>

text \<open>
  \<^verbatim>\<open>linspace\<close>: as many points as asked for, from the first bound to the last; \<^verbatim>\<open>interp\<close>: one value for
  each point, the given one at a knot, and between the given ones everywhere. The knots here are
  \<^verbatim>\<open>arange\<close>.
\<close>

definition knots :: "rat list \<Rightarrow> rat list" where
  "knots fp = map of_nat [0..<length fp]"

definition numpy_ok :: "numpy \<Rightarrow> bool" where
  "numpy_ok np \<longleftrightarrow>
     (\<forall>a b n. length (np_linspace np a b n) = n \<and> (0 < n \<longrightarrow> hd (np_linspace np a b n) = a) \<and>
        (2 \<le> n \<longrightarrow> last (np_linspace np a b n) = b)) \<and>
     (\<forall>points fp. fp \<noteq> [] \<longrightarrow>
        length (np_interp np points (knots fp) fp) = length points \<and>
        (\<forall>i < length points. \<forall>j < length fp. points ! i = of_nat j \<longrightarrow>
           np_interp np points (knots fp) fp ! i = fp ! j) \<and>
        (\<forall>v \<in> set (np_interp np points (knots fp) fp). Min (set fp) \<le> v \<and> v \<le> Max (set fp)))"

text \<open>Exact arithmetic does so.\<close>

definition interp_at :: "rat list \<Rightarrow> rat \<Rightarrow> rat" where
  "interp_at fp x =
     (if x \<le> 0 then hd fp
      else if of_nat (length fp - 1) \<le> x then last fp
      else (let j = nat \<lfloor>x\<rfloor> in fp ! j + (x - of_nat j) * (fp ! Suc j - fp ! j)))"

definition exact_numpy :: numpy where
  "exact_numpy =
     \<lparr>np_linspace = (\<lambda>a b n. map (\<lambda>i. a + of_nat i * (b - a) / of_nat (n - 1)) [0..<n]),
      np_interp = (\<lambda>points xp fp. map (interp_at fp) points)\<rparr>"

lemma convex_between:
  fixes a b t :: rat
  assumes "0 \<le> t" and "t \<le> 1"
  shows "min a b \<le> a + t * (b - a)" and "a + t * (b - a) \<le> max a b"
proof -
  have eq: "a + t * (b - a) = (1 - t) * a + t * b" by (simp add: algebra_simps)
  have "(1 - t) * min a b + t * min a b \<le> (1 - t) * a + t * b"
    using assms by (intro add_mono mult_left_mono) simp_all
  then show "min a b \<le> a + t * (b - a)" unfolding eq by (simp add: algebra_simps)
  have "(1 - t) * a + t * b \<le> (1 - t) * max a b + t * max a b"
    using assms by (intro add_mono mult_left_mono) simp_all
  then show "a + t * (b - a) \<le> max a b" unfolding eq by (simp add: algebra_simps)
qed

lemma interp_at_between:
  assumes "fp \<noteq> []"
  shows "Min (set fp) \<le> interp_at fp x \<and> interp_at fp x \<le> Max (set fp)"
proof -
  have mem: "Min (set fp) \<le> v \<and> v \<le> Max (set fp)" if "v \<in> set fp" for v using that by simp
  show ?thesis
  proof (cases "x \<le> 0 \<or> of_nat (length fp - 1) \<le> x")
    case True
    then have "interp_at fp x = hd fp \<or> interp_at fp x = last fp" by (auto simp: interp_at_def)
    then show ?thesis using assms mem by (metis hd_in_set last_in_set)
  next
    case False
    define j where "j = nat \<lfloor>x\<rfloor>"
    have j: "of_nat j \<le> x" "x \<le> of_nat j + 1"
      using False by (simp_all add: j_def, linarith)
    have "rat_of_nat j < of_nat (length fp - 1)" using False j by linarith
    then have len: "Suc j < length fp" by simp
    have "interp_at fp x = fp ! j + (x - of_nat j) * (fp ! Suc j - fp ! j)"
      using False by (simp add: interp_at_def j_def Let_def)
    moreover have t: "0 \<le> x - of_nat j" "x - of_nat j \<le> 1" using j by linarith+
    moreover note convex_between [OF t, of "fp ! j" "fp ! Suc j"]
    moreover have "Min (set fp) \<le> min (fp ! j) (fp ! Suc j)" "max (fp ! j) (fp ! Suc j) \<le> Max (set fp)"
      using mem [of "fp ! j"] mem [of "fp ! Suc j"] len by simp_all
    ultimately show ?thesis by (metis order_trans)
  qed
qed

lemma interp_at_knot: "j < length fp \<Longrightarrow> interp_at fp (of_nat j) = fp ! j"
proof -
  assume j: "j < length fp"
  then have ne: "fp \<noteq> []" by auto
  show ?thesis
  proof (cases "j = 0 \<or> j = length fp - 1")
    case True
    then show ?thesis using ne by (auto simp: interp_at_def hd_conv_nth last_conv_nth)
  next
    case False
    then have "rat_of_nat j < of_nat (length fp - 1)" using j by (simp only: of_nat_less_iff) linarith
    then have "\<not> of_nat (length fp - 1) \<le> rat_of_nat j" by (simp only: not_le)
    then show ?thesis using False by (simp add: interp_at_def Let_def del: of_nat_diff)
  qed
qed

lemma exact_numpy_ok: "numpy_ok exact_numpy"
  unfolding numpy_ok_def
  by (auto simp: exact_numpy_def interp_at_between interp_at_knot hd_map last_map)

section \<open>Resampling\<close>

lemma truncation_between:
  assumes "of_int m \<le> v" and "v \<le> of_int k" and "int16 m" and "int16 k"
  shows "m \<le> astype_int16 v \<and> astype_int16 v \<le> k"
proof -
  have "m \<le> \<lfloor>v\<rfloor>" "\<lceil>v\<rceil> \<le> k" "\<lfloor>v\<rfloor> \<le> \<lceil>v\<rceil>"
    using assms by (simp_all add: le_floor_iff ceiling_le_iff floor_le_ceiling)
  then have "m \<le> (if 0 \<le> v then \<lfloor>v\<rfloor> else \<lceil>v\<rceil>)" "(if 0 \<le> v then \<lfloor>v\<rfloor> else \<lceil>v\<rceil>) \<le> k"
    by (smt (verit) order_trans)+
  moreover from this have "int16 (if 0 \<le> v then \<lfloor>v\<rfloor> else \<lceil>v\<rceil>)"
    using assms(3,4) unfolding int16_def by linarith
  ultimately show ?thesis by (simp add: astype_int16_def signed_id)
qed

lemma truncation_exact: "int16 n \<Longrightarrow> astype_int16 (of_int n) = n"
  by (simp add: astype_int16_def signed_id)

lemma py_round_div_close:
  assumes "0 < b"
  shows "2 * \<bar>py_round_div a b * b - a\<bar> \<le> b"
proof -
  define r where "r = (of_int a / of_int b :: rat)"
  have "\<bar>of_int (py_round_div a b) - r\<bar> \<le> 1 / 2"
    unfolding py_round_div_def r_def [symmetric] Let_def
    using of_int_floor_le [of r] floor_less_iff [of r "\<lfloor>r\<rfloor> + 1"]
    by (simp split: if_split add: abs_le_iff field_simps)
  then have "\<bar>of_int (py_round_div a b) - r\<bar> * of_int b \<le> 1 / 2 * of_int b"
    using assms by (intro mult_right_mono) simp_all
  moreover have "\<bar>of_int (py_round_div a b) - r\<bar> * of_int b = \<bar>(of_int (py_round_div a b) - r) * of_int b\<bar>"
    using assms by (simp add: abs_mult)
  moreover have "(of_int (py_round_div a b) - r) * of_int b = of_int (py_round_div a b * b - a)"
    using assms by (simp add: r_def left_diff_distrib)
  ultimately have "\<bar>rat_of_int (py_round_div a b * b - a)\<bar> \<le> of_int b / 2" by simp
  then have "rat_of_int (2 * \<bar>py_round_div a b * b - a\<bar>) \<le> of_int b" by simp
  then show ?thesis by (simp only: of_int_le_iff)
qed

lemma interp_facts:
  assumes "numpy_ok np" and "old \<noteq> []"
  defines "vs points \<equiv> np_interp np points (knots (map rat_of_int old)) (map rat_of_int old)"
  shows "length (vs points) = length points"
    and "i < length points \<Longrightarrow> j < length old \<Longrightarrow> points ! i = of_nat j \<Longrightarrow> vs points ! i = of_int (old ! j)"
    and "v \<in> set (vs points) \<Longrightarrow> of_int (Min (set old)) \<le> v \<and> v \<le> of_int (Max (set old))"
proof -
  let ?fp = "map rat_of_int old"
  have "?fp \<noteq> []" using assms(2) by simp
  then have ok: "length (vs points) = length points \<and>
      (\<forall>i < length points. \<forall>j < length ?fp. points ! i = of_nat j \<longrightarrow> vs points ! i = ?fp ! j) \<and>
      (\<forall>v \<in> set (vs points). Min (set ?fp) \<le> v \<and> v \<le> Max (set ?fp))" for points
    using assms(1) unfolding numpy_ok_def vs_def by blast
  have "of_int (Min (set old)) = Min (set ?fp)" "of_int (Max (set old)) = Max (set ?fp)"
    using mono_Min_commute [of rat_of_int "set old"] mono_Max_commute [of rat_of_int "set old"] assms(2)
    by (simp_all add: monoI)
  then show "v \<in> set (vs points) \<Longrightarrow> of_int (Min (set old)) \<le> v \<and> v \<le> of_int (Max (set old))"
    using ok by simp
  show "length (vs points) = length points" using ok by blast
  show "i < length points \<Longrightarrow> j < length old \<Longrightarrow> points ! i = of_nat j \<Longrightarrow> vs points ! i = of_int (old ! j)"
    using ok by simp
qed

lemma target_count_close:
  assumes "0 < from_rate" and "0 < to_rate"
  shows "\<bar>int (target_count n from_rate to_rate) * from_rate - int n * to_rate\<bar> \<le> from_rate"
proof -
  let ?k = "py_round_div (int n * to_rate) from_rate"
  have close: "2 * \<bar>?k * from_rate - int n * to_rate\<bar> \<le> from_rate" by (rule py_round_div_close) fact
  show ?thesis
  proof (cases "1 \<le> ?k")
    case True
    then have "int (target_count n from_rate to_rate) = ?k" by (simp add: target_count_def)
    moreover have "\<bar>x\<bar> \<le> from_rate" if "2 * \<bar>x\<bar> \<le> from_rate" for x :: int using that by linarith
    ultimately show ?thesis using close by simp
  next
    case False
    then have "?k * from_rate \<le> 0" using assms(1) by (simp add: mult_le_0_iff)
    moreover have "0 \<le> int n * to_rate" using assms(2) by simp
    ultimately show ?thesis using close False by (simp add: target_count_def)
  qed
qed

text \<open>
  (C29) Resampling keeps the sound. For whole samples and a positive rate the result is whole 16-bit
  samples again; it lasts as long as the original up to one sample of the new rate; no sample leaves the
  range of the original ones; and the first sample (and, of several, the last) is where it was.
\<close>

theorem resampled_audio_is_faithful:
  assumes "numpy_ok np" and "even (length pcm)" and "pcm \<noteq> []" and "0 < from_rate" and "0 < to_rate"
  shows "\<exists>pcm' old new. resample_pcm16 np pcm from_rate to_rate = Inr pcm' \<and>
    frombuffer_int16 pcm = Inr old \<and> frombuffer_int16 pcm' = Inr new \<and>
    \<bar>int (length new) * from_rate - int (length old) * to_rate\<bar> \<le> from_rate \<and>
    (\<forall>n \<in> set new. Min (set old) \<le> n \<and> n \<le> Max (set old)) \<and>
    hd new = hd old \<and> (2 \<le> length new \<longrightarrow> last new = last old)"
proof -
  obtain old where old: "frombuffer_int16 pcm = Inr old" "length old = length pcm div 2" "list_all int16 old"
    using frombuffer_even [OF assms(2)] by blast
  have ne: "old \<noteq> []" using old(2) assms(2,3) by (cases pcm rule: frombuffer_int16.cases) auto
  show ?thesis
  proof (cases "from_rate = to_rate")
    case True
    then have "resample_pcm16 np pcm from_rate to_rate = Inr pcm" by (simp add: resample_pcm16_def)
    then show ?thesis using old(1) assms(4) True by (intro exI) (auto intro: conjI)
  next
    case False
    define points where "points = np_linspace np 0 (of_nat (length old - 1)) (target_count (length old) from_rate to_rate)"
    define vs where "vs = np_interp np points (knots (map rat_of_int old)) (map rat_of_int old)"
    define new where "new = map astype_int16 vs"
    have n: "0 < length points" and lin: "hd points = 0" "2 \<le> length points \<longrightarrow> last points = of_nat (length old - 1)"
      and count: "length points = target_count (length old) from_rate to_rate"
      using assms(1) by (simp_all add: numpy_ok_def target_count_def points_def)
    note facts = interp_facts [OF assms(1) ne, folded vs_def]
    have len: "length vs = length points" unfolding vs_def by (rule facts)
    have ends: "int16 (Min (set old))" "int16 (Max (set old))"
      using old(3) ne by (simp_all add: list_all_iff)
    have range: "Min (set old) \<le> astype_int16 v \<and> astype_int16 v \<le> Max (set old)" if "v \<in> set vs" for v
      using that truncation_between ends facts(3) unfolding vs_def by blast
    have knot: "new ! i = old ! j" if "i < length points" "j < length old" "points ! i = of_nat j" for i j
      using that facts(2) [OF that] len old(3)
      by (simp add: new_def vs_def list_all_length truncation_exact)
    have "new \<noteq> []" using n len by (auto simp: new_def)
    then have "hd new = hd old"
      using knot [of 0 0] n lin(1) ne by (simp add: hd_conv_nth)
    moreover have "last new = last old" if "2 \<le> length new"
    proof -
      have "2 \<le> length points" using that len by (simp add: new_def)
      then have "points ! (length points - 1) = of_nat (length old - 1)"
        using lin(2) n by (simp add: last_conv_nth)
      from knot [OF _ _ this] show ?thesis
        using n ne \<open>new \<noteq> []\<close> len by (simp add: last_conv_nth new_def)
    qed
    moreover have "list_all int16 new"
      using range ends by (force simp: new_def list_all_iff int16_def)
    then have "frombuffer_int16 (tobytes_int16 new) = Inr new" by (rule frombuffer_tobytes)
    moreover have "resample_pcm16 np pcm from_rate to_rate = Inr (tobytes_int16 new)"
      using False assms(3,4) old(1)
      by (simp add: resample_pcm16_def Let_def new_def vs_def knots_def points_def comp_def)
    moreover have "\<bar>int (length new) * from_rate - int (length old) * to_rate\<bar> \<le> from_rate"
      using target_count_close [OF assms(4,5)] len count by (simp add: new_def)
    ultimately show ?thesis using old(1) range by (auto simp: new_def)
  qed
qed

theorem resampled_audio_is_faithful_witness:
  "\<exists>pcm' new. resample_pcm16 exact_numpy [0, 1, 0, 2, 0, 255] 16000 8000 = Inr pcm' \<and>
    frombuffer_int16 pcm' = Inr new \<and> hd new = 256 \<and> (\<forall>n \<in> set new. - 256 \<le> n \<and> n \<le> 512)"
proof -
  have "frombuffer_int16 [0, 1, 0, 2, 0, 255] = Inr [256, 512, - 256]" by code_simp
  with resampled_audio_is_faithful [OF exact_numpy_ok, of "[0, 1, 0, 2, 0, 255]" 16000 8000]
  show ?thesis by auto
qed

end
