(* ===== verification/Voice_Thms.thy ===== *)
theory Voice_Thms
  imports Voice_Agent Audio_Thms
begin

text \<open>
  The speaking side of the agent: however the reply is cut into chunks, the same sentences are
  synthesized, they are the whole reply in order, and every frame that is played is whole samples.
\<close>

section \<open>The sentences of a text\<close>

function split_sentences :: "string \<Rightarrow> string list \<times> string" where
  "split_sentences t =
     (case find_sentence_end t of
        None \<Rightarrow> ([], t)
      | Some k \<Rightarrow> (let (ss, rest) = split_sentences (drop k t) in (take k t # ss, rest)))"
  by pat_completeness auto
termination
  by (relation "measure length") (auto dest: find_sentence_end_bound)

declare split_sentences.simps [simp del]

definition stripped :: "string list \<Rightarrow> string list" where
  "stripped ss = filter (\<lambda>s. s \<noteq> []) (map py_strip ss)"

text \<open>The sentences that can be spoken before the text goes on, and all of them at its end.\<close>

definition complete_sentences :: "string \<Rightarrow> string list" where
  "complete_sentences t = stripped (fst (split_sentences t))"

definition sentences :: "string \<Rightarrow> string list" where
  "sentences t = (case split_sentences t of (ss, rest) \<Rightarrow> stripped (ss @ [rest]))"

lemma stripped_append [simp]: "stripped (xs @ ys) = stripped xs @ stripped ys"
  by (simp add: stripped_def)

lemma split_sentences_text: "split_sentences t = (ss, rest) \<Longrightarrow> concat ss @ rest = t"
proof (induction t arbitrary: ss rest rule: split_sentences.induct)
  case (1 t)
  show ?case
  proof (cases "find_sentence_end t")
    case None
    then show ?thesis using 1(2) by (simp add: split_sentences.simps)
  next
    case (Some k)
    obtain ss' where "split_sentences (drop k t) = (ss', rest)" "ss = take k t # ss'"
      using 1(2) Some by (auto simp: split_sentences.simps [of t] split: prod.splits)
    with 1(1) [OF Some] show ?thesis by simp
  qed
qed

lemma split_rest: "split_sentences t = (ss, rest) \<Longrightarrow> split_sentences rest = ([], rest)"
proof (induction t arbitrary: ss rest rule: split_sentences.induct)
  case (1 t)
  show ?case
  proof (cases "find_sentence_end t")
    case None
    then show ?thesis using 1(2) by (simp add: split_sentences.simps)
  next
    case (Some k)
    obtain ss' where "split_sentences (drop k t) = (ss', rest)"
      using 1(2) Some by (auto simp: split_sentences.simps [of t] split: prod.splits)
    with 1(1) [OF Some] show ?thesis by simp
  qed
qed

lemma find_sentence_end_append: "find_sentence_end s = Some n \<Longrightarrow> find_sentence_end (s @ t) = Some n"
  by (induction s arbitrary: n rule: find_sentence_end.induct) (auto split: if_splits)

text \<open>More text never changes a sentence that is complete.\<close>

lemma split_append:
  "split_sentences t = (ss, rest) \<Longrightarrow>
   split_sentences (t @ u) = (let (ss', rest') = split_sentences (rest @ u) in (ss @ ss', rest'))"
proof (induction t arbitrary: ss rest rule: split_sentences.induct)
  case (1 t)
  show ?case
  proof (cases "find_sentence_end t")
    case None
    then show ?thesis using 1(2) by (simp add: split_sentences.simps [of t])
  next
    case (Some k)
    obtain ss' where d: "split_sentences (drop k t) = (ss', rest)" "ss = take k t # ss'"
      using 1(2) Some by (auto simp: split_sentences.simps [of t] split: prod.splits)
    have "k < length t" using find_sentence_end_bound [OF Some] by simp
    then show ?thesis
      using 1(1) [OF Some d(1)] find_sentence_end_append [OF Some, of u] d(2)
      by (subst split_sentences.simps) (simp add: Let_def split: prod.split)
  qed
qed

lemma sentences_append:
  assumes "split_sentences t = (ss, rest)"
  shows "sentences (t @ u) = stripped ss @ sentences (rest @ u)"
  using split_append [OF assms, of u] by (simp add: sentences_def Let_def split: prod.split)

section \<open>Streams\<close>

lemma then_no_stream [simp]: "then_stream no_stream f = f" "then_stream f no_stream = f"
  by (auto simp: then_stream_def no_stream_def fun_eq_iff split: prod.split option.split)

lemma then_stream_assoc: "then_stream (then_stream f g) h = then_stream f (then_stream g h)"
  by (auto simp: then_stream_def fun_eq_iff split: prod.splits option.splits)

primrec speak_all :: "'w tts \<Rightarrow> string list \<Rightarrow> ('w, audio_frame) stream" where
  "speak_all tts [] = no_stream"
| "speak_all tts (s # ss) = then_stream (synthesize_to_frames tts s) (speak_all tts ss)"

lemma speak_all_append: "speak_all tts (xs @ ys) = then_stream (speak_all tts xs) (speak_all tts ys)"
  by (induction xs) (simp_all add: then_stream_assoc)

lemma speak_sentences_all:
  "split_sentences t = (ss, rest) \<Longrightarrow> speak_sentences tts t = (speak_all tts (stripped ss), rest)"
proof (induction t arbitrary: ss rest rule: split_sentences.induct)
  case (1 t)
  show ?case
  proof (cases "find_sentence_end t")
    case None
    then have "ss = []" "rest = t" using 1(2) by (simp_all add: split_sentences.simps [of t])
    then show ?thesis using None by (simp add: speak_sentences.simps [of tts t] stripped_def)
  next
    case (Some k)
    obtain ss' where d: "split_sentences (drop k t) = (ss', rest)" "ss = take k t # ss'"
      using 1(2) Some by (auto simp: split_sentences.simps [of t] split: prod.splits)
    with 1(1) [OF Some d(1)] Some show ?thesis
      by (simp add: speak_sentences.simps [of tts t] stripped_def)
  qed
qed

lemma speak_chunks_all:
  "split_sentences buffer = ([], buffer) \<Longrightarrow>
   speak_chunks tts chunks buffer = speak_all tts (sentences (buffer @ concat chunks))"
proof (induction chunks arbitrary: buffer)
  case Nil
  then show ?case by (simp add: sentences_def stripped_def)
next
  case (Cons c cs)
  obtain ss rest where s: "split_sentences (buffer @ c) = (ss, rest)" by fastforce
  show ?case
    using Cons.IH [OF split_rest [OF s]] sentences_append [OF s, of "concat cs"]
    by (simp add: speak_sentences_all [OF s] speak_all_append)
qed

lemma tts_node_all: "tts_node tts chunks = speak_all tts (sentences (concat chunks))"
  using speak_chunks_all [of "[]" tts chunks] by (simp add: tts_node_def split_sentences.simps)

section \<open>Nothing is lost\<close>

abbreviation letters :: "string \<Rightarrow> string" where
  "letters \<equiv> filter (\<lambda>c. \<not> is_space c)"

lemma letters_strip [simp]: "letters (py_strip s) = letters s"
proof -
  have "letters (py_lstrip s) = letters s" for s by (induction s) (simp_all add: py_lstrip_Cons)
  moreover have "letters (py_rstrip s) = letters s" for s by (induction s rule: rev_induct) simp_all
  ultimately show ?thesis by (simp add: py_strip_def)
qed

lemma letters_stripped: "letters (concat (stripped ss)) = letters (concat ss)"
  by (induction ss) (auto simp: stripped_def, metis letters_strip filter.simps(1))

lemma letters_sentences: "letters (concat (sentences t)) = letters t"
proof -
  obtain ss rest where s: "split_sentences t = (ss, rest)" by fastforce
  then show ?thesis
    using letters_stripped [of "ss @ [rest]"] split_sentences_text [OF s] by (simp add: sentences_def)
qed

lemma py_strip_idem [simp]: "py_strip (py_strip s) = py_strip s"
  by (metis py_strip_lstrip_rstrip py_rstrip_strip py_strip_def py_rstrip_idem py_strip_rstrip
      dropWhile_idem py_lstrip_def)

lemma sentences_stripped: "s \<in> set (sentences t) \<Longrightarrow> s \<noteq> [] \<and> py_strip s = s"
  by (auto simp: sentences_def stripped_def split: prod.splits if_splits)

section \<open>Frames\<close>

definition whole :: "audio_frame \<Rightarrow> bool" where
  "whole f \<longleftrightarrow> length (af_data f) = 2 * af_samples_per_channel f \<and> 0 < af_samples_per_channel f \<and>
     af_sample_rate f = 16000 \<and> af_num_channels f = 1"

lemma chunk_frames_whole: "list_all whole (chunk_frames chunk)"
  by (simp add: chunk_frames_def Let_def whole_def)

lemma synthesize_whole: "list_all whole (fst (fst (synthesize_to_frames tts s w)))"
  using chunk_frames_whole
  by (auto simp: synthesize_to_frames_def list_all_iff split: prod.split)

lemma then_stream_all:
  assumes "list_all P (fst (fst (f w)))" and "\<And>w. list_all P (fst (fst (g w)))"
  shows "list_all P (fst (fst (then_stream f g w)))"
proof -
  obtain xs failure t where f: "f w = ((xs, failure), t)" by (metis prod.collapse)
  show ?thesis using assms(1) assms(2) [of t] f
    by (cases failure; cases "g t"; cases "fst (g t)") (simp_all add: then_stream_def)
qed

lemma speak_all_whole: "list_all whole (fst (fst (speak_all tts ss w)))"
  by (induction ss arbitrary: w) (simp_all add: no_stream_def then_stream_all synthesize_whole)

section \<open>Properties\<close>

text \<open>
  (C30) However the reply arrives in chunks, what is spoken is the same: the synthesizer is asked
  for the sentences of the whole reply, one after the other, until one fails. The sentences are the
  reply: stripped, none empty, every character but white space once and in order. A sentence that is
  complete is never changed by what follows it, and every frame is whole 16 kHz mono samples.
\<close>

theorem the_whole_reply_is_spoken:
  "tts_node tts chunks = speak_all tts (sentences (concat chunks)) \<and>
   letters (concat (sentences t)) = letters t \<and>
   list_all (\<lambda>s. s \<noteq> [] \<and> py_strip s = s) (sentences t) \<and>
   prefix (complete_sentences t) (sentences (t @ u)) \<and>
   list_all whole (fst (fst (tts_node tts chunks w)))"
proof -
  obtain ss rest where "split_sentences t = (ss, rest)" by fastforce
  then have "prefix (complete_sentences t) (sentences (t @ u))"
    by (simp add: complete_sentences_def sentences_append)
  moreover have "list_all (\<lambda>s. s \<noteq> [] \<and> py_strip s = s) (sentences t)"
    using sentences_stripped by (simp add: list_all_iff)
  moreover note tts_node_all [of tts chunks] letters_sentences
    speak_all_whole [of tts "sentences (concat chunks)" w]
  ultimately show ?thesis by simp
qed

end
