(* ===== verification/Agent_Thms.thy ===== *)
theory Agent_Thms
  imports Voice_Agent Conversation_Thms
begin

text \<open>
  The reply of the LiveKit agent (\<^verbatim>\<open>OpenVoiceAgent.llm_node\<close>): what the caller hears is the reply of
  the conversation, and the replies that need a human start the transfer.
\<close>

section \<open>Replies and transfers\<close>

text \<open>A reply that names a human says so to the agent.\<close>

definition escalates :: "agent_reply \<Rightarrow> bool" where
  "escalates r \<longleftrightarrow> (is_transfer_intent (reply_intent r) \<longrightarrow> transfer_to_human r)"

lemma escalates_simps [simp]:
  "escalates fallback_reply" "escalates call_limit_reply" "escalates (mk_reply t i (is_transfer_intent i))"
  by (simp_all add: escalates_def fallback_reply_def call_limit_reply_def mk_reply_def)

lemma finish_turn_escalates: "finish_turn c text i s = (Inr r, t) \<Longrightarrow> escalates r"
  by (auto simp: finish_turn_def Let_def split: sum.splits)

lemma tool_loop_escalates: "tool_loop c k n s = (Inr r, t) \<Longrightarrow> escalates r"
proof (induction n arbitrary: s)
  case 0
  then show ?case by auto
next
  case (Suc n)
  obtain g w where g: "generate (cc_llm c) (cs_history s) (Some (cc_system_prompt c)) 1024 (cc_tools c)
      (cs_world s) = (g, w)" by fastforce
  show ?case
  proof (cases g)
    case (Inl e)
    with Suc.prems g show ?thesis by (cases e) auto
  next
    case (Inr response)
    with Suc g show ?thesis
      by (auto split: if_splits prod.splits dest: finish_turn_escalates)
  qed
qed

lemma utterance_escalates: "handle_utterance c x s = (Inr r, t) \<Longrightarrow> escalates r"
  by (auto simp: handle_utterance_def split: if_splits dest: tool_loop_escalates)

text \<open>What is streamed is the reply, or ends with the fallback message.\<close>

definition speaks :: "string list \<Rightarrow> agent_reply \<Rightarrow> bool" where
  "speaks chunks r \<longleftrightarrow> concat chunks = reply_text r \<or>
     r = fallback_reply \<and> (\<exists>said. chunks = said @ [fallback_message])"

lemma speaks_nonempty: "speaks (nonempty [reply_text r]) r"
  by (simp add: speaks_def nonempty_def)

lemma stream_speaks_last_reply:
  assumes "handle_utterance_stream c x s = ((chunks, None), t)"
  shows "\<exists>r. cs_last_reply t = Some r \<and> escalates r \<and> speaks chunks r"
proof (cases "cc_tools c = None \<and> \<not> call_limit_reached c s")
  case True
  obtain ds f w where g: "generate_stream (cc_llm c) (cs_history (begin_turn x s))
      (Some (cc_system_prompt c)) (cs_world (begin_turn x s)) = ((ds, f), w)" by (metis prod.collapse)
  obtain outs ex where o: "feed_all new_extractor ds = (outs, ex)" by fastforce
  obtain full trailing i ex' where z: "finalize ex = ((full, trailing, i), ex')" by (metis prod.collapse)
  have stream: "stream_result ds = (full, trailing, i)" using o z by (simp add: stream_result_def)
  show ?thesis
  proof (cases f)
    case None
    obtain q t' where q: "finish_turn c full i ((begin_turn x s)\<lparr>cs_world := w\<rparr>) = (q, t')" by fastforce
    with assms True g o z None have "isl q \<Longrightarrow> False" "chunks = nonempty (outs @ [trailing])"
      by (cases q; auto simp: handle_utterance_stream_def Let_def)+
    moreover from this q obtain t'' where "q = Inr (mk_reply full i (is_transfer_intent i))"
      by (auto simp: finish_turn_def Let_def split: sum.splits)
    moreover have "concat (nonempty (outs @ [trailing])) = full"
      using stream_reply_pieces [of ds] stream o by (auto simp: nonempty_def spoken_def)
    ultimately show ?thesis using assms True g o z None q
      by (auto simp: handle_utterance_stream_def Let_def speaks_def mk_reply_def escalates_def)
  next
    case (Some e)
    with assms True g o have "t = (drop_turn (length (cs_history s)) ((begin_turn x s)\<lparr>cs_world := w,
        cs_llm_errors := Suc (cs_llm_errors (begin_turn x s))\<rparr>))\<lparr>cs_last_reply := Some fallback_reply\<rparr>"
      and "chunks = nonempty outs @ [fallback_message]"
      by (cases e; auto simp: handle_utterance_stream_def Let_def)+
    then show ?thesis by (simp add: speaks_def)
  qed
next
  case False
  show ?thesis
  proof (cases "cc_tools c = None")
    case True
    with False assms show ?thesis
      by (auto simp: stream_limit speaks_def call_limit_reply_def mk_reply_def escalates_def)
  next
    case tools: False
    with assms obtain r u where "handle_utterance c x s = (Inr r, u)"
      "chunks = nonempty [reply_text r]" "t = u\<lparr>cs_last_reply := Some r\<rparr>"
      by (auto simp: handle_utterance_stream_def split: prod.splits sum.splits)
    then show ?thesis using utterance_escalates speaks_nonempty by fastforce
  qed
qed

section \<open>The agent's turn\<close>

lemma llm_node_outcome:
  assumes "llm_node c on_transfer messages s = (((chunks, failure), started), t)"
  shows "if filter (\<lambda>m. ci_role m = ''user'') messages = [] then chunks = [] \<and> \<not> started \<and> t = s
    else if failure \<noteq> None then \<not> started
    else \<exists>r. cs_last_reply t = Some r \<and> speaks (map cch_content chunks) r \<and>
      (started \<longleftrightarrow> on_transfer \<and> transfer_to_human r) \<and>
      (is_transfer_intent (reply_intent r) \<longrightarrow> transfer_to_human r) \<and>
      (call_limit_reached c s \<longrightarrow> r = call_limit_reply \<and> concat (map cch_content chunks) = call_limit_message \<and>
         started = on_transfer \<and> cs_history t = cs_history s \<and> cs_world t = cs_world s)"
proof (cases "filter (\<lambda>m. ci_role m = ''user'') messages = []")
  case True
  then show ?thesis using assms by (simp add: llm_node_def Let_def)
next
  case False
  define x where "x = (case ci_text_content (last (filter (\<lambda>m. ci_role m = ''user'') messages)) of
      Some y \<Rightarrow> y | None \<Rightarrow> [])"
  obtain ds f u where st: "handle_utterance_stream c x s = ((ds, f), u)" by (metis prod.collapse)
  from assms False st have parts: "map cch_content chunks = ds" "failure = f" "t = u"
    "started \<longleftrightarrow> f = None \<and> on_transfer \<and> (case cs_last_reply u of None \<Rightarrow> False | Some r \<Rightarrow> transfer_to_human r)"
    unfolding x_def by (auto simp: llm_node_def Let_def comp_def)
  show ?thesis
  proof (cases f)
    case (Some e)
    with False parts show ?thesis by simp
  next
    case None
    with st obtain r where r: "cs_last_reply u = Some r" "escalates r" "speaks ds r"
      using stream_speaks_last_reply by blast
    moreover have "r = call_limit_reply \<and> concat ds = call_limit_message \<and> cs_history u = cs_history s \<and>
        cs_world u = cs_world s" if "call_limit_reached c s"
      using that st None r(1)
      by (cases "cc_tools c = None")
        (auto simp: stream_limit handle_utterance_stream_def handle_utterance_def nonempty_def
          call_limit_reply_def mk_reply_def)
    moreover have "transfer_to_human call_limit_reply" by (simp add: call_limit_reply_def mk_reply_def)
    ultimately show ?thesis using False parts None by (auto simp: escalates_def)
  qed
qed

text \<open>
  The agent's turn says what the conversation replied and calls a human when one is needed: if
  the caller has spoken and nothing was raised, the chunks are the reply, up to a reply broken off
  that ends with the fallback message, and the transfer is started exactly when the reply asks for it
  and a transfer is possible, which every urgent or human-transfer reply, every provider failure and
  every call over its limits does; such a call costs nothing more. A turn that raises starts none.
\<close>

theorem agent_turn_speaks_and_escalates:
  assumes "llm_node c on_transfer messages s = (((chunks, failure), started), t)"
  shows "if filter (\<lambda>m. ci_role m = ''user'') messages = [] then chunks = [] \<and> \<not> started \<and> t = s
    else if failure \<noteq> None then \<not> started
    else \<exists>r. cs_last_reply t = Some r \<and> speaks (map cch_content chunks) r \<and>
      (started \<longleftrightarrow> on_transfer \<and> transfer_to_human r) \<and>
      (is_transfer_intent (reply_intent r) \<longrightarrow> transfer_to_human r) \<and>
      (call_limit_reached c s \<longrightarrow> r = call_limit_reply \<and> concat (map cch_content chunks) = call_limit_message \<and>
         started = on_transfer \<and> cs_history t = cs_history s \<and> cs_world t = cs_world s)"
  by (rule llm_node_outcome [OF assms])

theorem agent_turn_speaks_and_escalates_witness:
  "\<exists>chunks t. llm_node (script_config False 5) True
      [\<lparr>ci_role = ''user'', ci_text_content = Some ''help''\<rparr>]
      (script_state [script_response (''Help comes.'' @ [CHR 0x0A] @ intent_marker @ ''urgent'') None]) =
      (((chunks, None), True), t) \<and> speaks (map cch_content chunks) (the (cs_last_reply t))"
proof -
  let ?run = "llm_node (script_config False 5) True [\<lparr>ci_role = ''user'', ci_text_content = Some ''help''\<rparr>]
      (script_state [script_response (''Help comes.'' @ [CHR 0x0A] @ intent_marker @ ''urgent'') None])"
  have "snd (fst ?run) = True" "snd (fst (fst ?run)) = None" by code_simp+
  moreover have "\<exists>a b. x = (((a, None), True), b)" if "snd (fst x)" "snd (fst (fst x)) = None"
    for x :: "((chat_chunk list \<times> exc option) \<times> bool) \<times> 'a"
    using that by (cases x) auto
  ultimately obtain chunks t where run: "?run = (((chunks, None), True), t)" by blast
  with agent_turn_speaks_and_escalates [OF run] have "\<exists>r. cs_last_reply t = Some r \<and> speaks (map cch_content chunks) r"
    by simp blast
  then show ?thesis using run by auto
qed

end
