(* ===== verification/Prompts.thy ===== *)
theory Prompts
  imports Config Py_ISO Py_Text
begin

text \<open>
  \<^verbatim>\<open>openvoice/agent/prompts.py\<close>: the system prompt and the block that tells the model the time.
  \<^verbatim>\<open>zoneinfo\<close> is a parameter.
\<close>

text \<open>
  The default prompt is the sentence below and a constant paragraph of instructions, which is a
  parameter (\<open>instructions\<close>) because it contains a dash outside the characters of the model.
\<close>

definition build_system_prompt :: "string \<Rightarrow> settings \<Rightarrow> string" where
  "build_system_prompt instructions s =
     (case agent_system_prompt s of
        Some p \<Rightarrow> p
      | None \<Rightarrow> ''You are a professional, friendly phone agent for '' @ agent_company_name s @ ''.''
          @ instructions)"

text \<open>A time zone: its offset (microseconds) and its name at an instant.\<close>

record zone =
  z_offset :: "int \<Rightarrow> int"
  z_name :: "int \<Rightarrow> string"

type_synonym zone_info = "string \<Rightarrow> zone res"

text \<open>Only \<^verbatim>\<open>ZoneInfoNotFoundError\<close> falls back to UTC; \<^verbatim>\<open>ZoneInfo\<close> raises \<^verbatim>\<open>ValueError\<close> too.\<close>

definition zone_or_utc :: "zone_info \<Rightarrow> string \<Rightarrow> zone res" where
  "zone_or_utc zi timezone =
     (case zi timezone of
        Inr z \<Rightarrow> Inr z
      | Inl (OtherError c m) \<Rightarrow>
          (if c = ''ZoneInfoNotFoundError'' then zi ''UTC'' else Inl (OtherError c m))
      | Inl e \<Rightarrow> Inl e)"

definition astimezone :: "datetime \<Rightarrow> zone \<Rightarrow> datetime res" where
  "astimezone d z =
     (let off = z_offset z (dt_instant d); wall = dt_instant d + off
      in if wall_ok wall then Inr \<lparr>dt_wall = wall, dt_off = off\<rparr>
         else Inl (OverflowError ''date value out of range''))"

text \<open>\<^verbatim>\<open>d.strftime('%z')\<close>.\<close>

definition strftime_z :: "datetime \<Rightarrow> string" where
  "strftime_z d =
     (let off = \<bar>dt_off d\<bar>; sec = off mod minute_us div second_us; us = off mod second_us
      in (if dt_off d < 0 then ''-'' else ''+'') @ pad 2 (off div hour_us)
         @ pad 2 (off mod hour_us div minute_us)
         @ (if sec \<noteq> 0 \<or> us \<noteq> 0 then pad 2 sec else [])
         @ (if us \<noteq> 0 then CHR ''.'' # pad 6 us else []))"

text \<open>\<^verbatim>\<open>%A, %B %d, %Y, %H:%M\<close>; glibc does not pad the year.\<close>

definition strftime_now :: "datetime \<Rightarrow> string" where
  "strftime_now d =
     (let day = dt_wall d div day_us; t = dt_wall d mod day_us; (y, m, dd) = civil day
      in weekday_names ! nat (day mod 7) @ '', '' @ month_names ! nat (m - 1) @ '' '' @ pad 2 dd
         @ '', '' @ int_str y @ '', '' @ pad 2 (t div hour_us) @ '':'' @ pad 2 (t mod hour_us div minute_us))"

definition temporal_text :: "datetime \<Rightarrow> string \<Rightarrow> string" where
  "temporal_text d name =
     CHR 0x0A # ''Current date and time: '' @ strftime_now d @ '' ('' @ name @ '', UTC offset ''
     @ strftime_z d @ ''). Use this to resolve relative dates and times the caller mentions (e.g. ''
     @ [CHR 0x22] @ ''tomorrow afternoon'' @ [CHR 0x22] @ '', '' @ [CHR 0x22] @ ''next Monday'' @ [CHR 0x22]
     @ ''), and always include this UTC offset in any datetime you pass to a tool.'' @ [CHR 0x0A]"

text \<open>\<open>now\<close> is the argument or, without one, the clock.\<close>

definition build_temporal_context :: "zone_info \<Rightarrow> string \<Rightarrow> datetime \<Rightarrow> string res" where
  "build_temporal_context zi timezone now =
     bind_res (zone_or_utc zi timezone) (\<lambda>tz.
       bind_res (astimezone now tz) (\<lambda>reference.
         Inr (temporal_text reference (z_name tz (dt_instant now)))))"

end
