(* ===== verification/Prompts_Thms.thy ===== *)
theory Prompts_Thms
  imports Prompts Booking_Tools
begin

text \<open>
  What the prompt tells the model about the time is what the booking tools understand.
\<close>

lemma read_clock_hhmm:
  assumes "0 \<le> h" "h < 100" "0 \<le> m" "m < 100"
  shows "read_clock (pad 2 h @ pad 2 m @ s) = map_option (\<lambda>(ss, us). (h, m, ss, us)) (read_seconds False s)"
proof -
  have "pad 2 m \<noteq> []" "is_digit (hd (pad 2 m))"
    using pad_digits [of 2 m] length_pad [of 2 m] by (cases "pad 2 m"; simp)+
  then have "hd (pad 2 m @ s) \<noteq> CHR '':''" using no_digit_head by (metis hd_append)
  with \<open>pad 2 m \<noteq> []\<close> show ?thesis using assms by (simp add: read_clock_def Let_def)
qed

lemma read_seconds_z:
  assumes "0 \<le> s" "s < 100" "0 \<le> us" "us < 1000000"
  shows "read_seconds False ((if s \<noteq> 0 \<or> us \<noteq> 0 then pad 2 s else [])
    @ (if us \<noteq> 0 then CHR ''.'' # pad 6 us else [])) = Some (s, us)"
proof -
  have ne: "pad 2 s \<noteq> []" using length_pad [of 2 s] by (cases "pad 2 s") auto
  then show ?thesis using assms by (auto simp: read_seconds_def read_fraction_pad)
qed

lemma read_zone_z:
  assumes "\<bar>dt_off d\<bar> < day_us"
  shows "read_zone (strftime_z d) = Some (Some (dt_off d))"
proof -
  define a where "a = \<bar>dt_off d\<bar>"
  have a: "0 \<le> a" "a < day_us" using assms by (simp_all add: a_def)
  note p = clock_parts [OF a(1)]
  have h: "a div hour_us < 24" using a by (simp add: unit_defs div_less_iff_less_mult)
  have tail: "strftime_z d = (if dt_off d < 0 then CHR ''-'' else CHR ''+'') #
      pad 2 (a div hour_us) @ pad 2 (a mod hour_us div minute_us)
      @ (if a mod minute_us div second_us \<noteq> 0 \<or> a mod second_us \<noteq> 0
         then pad 2 (a mod minute_us div second_us) else [])
      @ (if a mod second_us \<noteq> 0 then CHR ''.'' # pad 6 (a mod second_us) else [])"
    by (simp add: strftime_z_def a_def Let_def)
  have "read_clock (tl (strftime_z d)) = Some (a div hour_us, a mod hour_us div minute_us,
      a mod minute_us div second_us, a mod second_us)"
    using p(2-8) h read_seconds_z [of "a mod minute_us div second_us" "a mod second_us"]
    by (simp add: tail read_clock_hhmm)
  then show ?thesis using p(1) a by (simp add: read_zone_def tail clock_us_def a_def)
qed

lemma strftime_z_head: "strftime_z d \<noteq> [] \<and> is_zone_char (hd (strftime_z d))"
  by (simp add: strftime_z_def is_zone_char_def Let_def)

lemma strftime_z_cong: "dt_off a = dt_off b \<Longrightarrow> strftime_z a = strftime_z b"
  by (simp add: strftime_z_def)

text \<open>A time as a model writes it with the offset that the prompt gave it.\<close>

definition local_time :: "datetime \<Rightarrow> string \<Rightarrow> string" where
  "local_time d offset =
     iso_date (dt_wall d div day_us) @ ''T'' @ iso_clock (dt_wall d mod day_us) @ offset"

text \<open>
  (C31) The model can use what it is told about the time: the prompt of a call names the current
  instant in the business's zone with its UTC offset, and any time that the model writes with this
  offset is read by the booking tools as the time that was meant.
\<close>

theorem prompt_offset_is_understood:
  assumes "build_temporal_context zi timezone now = Inr context_text"
    and "zone_or_utc zi timezone = Inr z" and "\<bar>z_offset z (dt_instant now)\<bar> < day_us"
  shows "\<exists>reference before after. dt_instant reference = dt_instant now \<and>
    context_text = before @ ''Current date and time: '' @ strftime_now reference @ '' ('' @
      z_name z (dt_instant now) @ '', UTC offset '' @ strftime_z reference @ '')'' @ after \<and>
    (\<forall>d. dt_ok d \<and> dt_off d = dt_off reference \<longrightarrow>
       parse_datetime (local_time d (strftime_z reference)) = Some d)"
proof -
  let ?off = "z_offset z (dt_instant now)"
  let ?ref = "\<lparr>dt_wall = dt_instant now + ?off, dt_off = ?off\<rparr>"
  have "context_text = temporal_text ?ref (z_name z (dt_instant now))"
    using assms(1,2) by (auto simp: build_temporal_context_def astimezone_def Let_def split: if_splits)
  then have "context_text = [CHR 0x0A] @ ''Current date and time: '' @ strftime_now ?ref @ '' ('' @
      z_name z (dt_instant now) @ '', UTC offset '' @ strftime_z ?ref @ '')'' @
      drop 1 (''). Use this to resolve relative dates and times the caller mentions (e.g. ''
        @ [CHR 0x22] @ ''tomorrow afternoon'' @ [CHR 0x22] @ '', '' @ [CHR 0x22] @ ''next Monday'' @ [CHR 0x22]
        @ ''), and always include this UTC offset in any datetime you pass to a tool.'' @ [CHR 0x0A])"
    by (simp add: temporal_text_def)
  moreover have "parse_datetime (local_time d (strftime_z ?ref)) = Some d"
    if d: "dt_ok d \<and> dt_off d = dt_off ?ref" for d
  proof -
    have "read_zone (strftime_z ?ref) = Some (Some (dt_off ?ref))"
      using assms(3) by (intro read_zone_z) simp
    moreover have "wall_ok (dt_wall d)" using d by (simp add: dt_ok_def)
    ultimately have "fromisoformat (local_time d (strftime_z ?ref)) = Some (dt_wall d, Some (dt_off d))"
      using d strftime_z_head unfolding local_time_def by (intro fromisoformat_zone) auto
    then show ?thesis by (simp add: parse_datetime_def)
  qed
  moreover have "dt_instant ?ref = dt_instant now" by (simp add: dt_instant_def)
  ultimately show ?thesis by blast
qed

definition paris :: zone_info where
  "paris name = (if name = ''Europe/Paris'' then Inr \<lparr>z_offset = (\<lambda>i. 2 * hour_us), z_name = (\<lambda>i. ''CEST'')\<rparr>
     else Inl (OtherError ''ZoneInfoNotFoundError'' name))"

theorem prompt_offset_is_understood_witness:
  "\<exists>context_text reference before after.
     build_temporal_context paris ''Europe/Paris'' \<lparr>dt_wall = 700000 * day_us, dt_off = 0\<rparr> = Inr context_text \<and>
     context_text = before @ ''Current date and time: '' @ strftime_now reference @ '' ('' @
       ''CEST'' @ '', UTC offset '' @ strftime_z reference @ '')'' @ after"
proof -
  let ?now = "\<lparr>dt_wall = 700000 * day_us, dt_off = 0\<rparr>"
  let ?z = "\<lparr>z_offset = (\<lambda>i. 2 * hour_us), z_name = (\<lambda>i. ''CEST'')\<rparr>"
  have z: "zone_or_utc paris ''Europe/Paris'' = Inr ?z" by (simp add: zone_or_utc_def paris_def)
  moreover obtain t where t: "build_temporal_context paris ''Europe/Paris'' ?now = Inr t"
    using z by (simp add: build_temporal_context_def astimezone_def wall_ok_def max_wall_def dt_instant_def
        unit_defs)
  moreover have "\<bar>z_offset ?z (dt_instant ?now)\<bar> < day_us" by (simp add: unit_defs)
  ultimately show ?thesis using prompt_offset_is_understood [OF t z] by (metis zone.select_convs(2))
qed

text \<open>A name that is unknown falls back to UTC; one that \<^verbatim>\<open>ZoneInfo\<close> refuses as no key raises.\<close>

lemma unknown_zone_is_utc:
  "zi timezone = Inl (OtherError ''ZoneInfoNotFoundError'' m) \<Longrightarrow>
   build_temporal_context zi timezone now = build_temporal_context zi ''UTC'' now \<or>
   (\<exists>e. zi ''UTC'' = Inl e)"
  by (cases "zi ''UTC''") (simp_all add: build_temporal_context_def zone_or_utc_def)

lemma refused_zone_raises:
  "zi timezone = Inl (ValueError m) \<Longrightarrow> build_temporal_context zi timezone now = Inl (ValueError m)"
  by (simp add: build_temporal_context_def zone_or_utc_def)

end
