(* ===== verification/Conversation_Frame.thy ===== *)
theory Conversation_Frame
  imports Conversation
begin

text \<open>
  The manager touches the world only through its provider and its tool executor: a relation that
  each of their operations keeps is kept by every turn, however it ends, and by whole calls.
\<close>

locale conv_frame = frame R for R :: "'w \<Rightarrow> 'w \<Rightarrow> bool" +
  fixes c :: "'w conv_config"
  assumes generate_keeps: "keeps R (generate (cc_llm c) h sp mt tools)"
    and stream_keeps: "R w (snd (generate_stream (cc_llm c) h sp w))"
    and executor_keeps: "cc_tool_executor c = Some ex \<Longrightarrow> keeps R (ex tc)"
begin

lemma execute_tool_keeps: "R (cs_world s) (cs_world (snd (execute_tool c tc s)))"
proof (cases "cc_tool_executor c")
  case None
  then show ?thesis by (simp add: execute_tool_def frame_refl)
next
  case (Some ex)
  then show ?thesis
    using keepsD [OF executor_keeps [OF Some], of "cs_world s" tc]
    by (auto simp: execute_tool_def Let_def split: prod.splits sum.splits)
qed

lemma run_tools_keeps: "R (cs_world s) (cs_world (run_tools c tcs s))"
proof (induction tcs arbitrary: s)
  case Nil
  then show ?case by (simp add: frame_refl)
next
  case (Cons tc tcs)
  obtain r s1 where e: "execute_tool c tc s = (r, s1)" by fastforce
  have "R (cs_world s) (cs_world s1)" using execute_tool_keeps [of s tc] e by simp
  then show ?case
    using Cons.IH [of "s1\<lparr>cs_history := cs_history s1 @ [tool_result_message (fst r) (tc_id tc) (snd r)]\<rparr>"]
    by (auto simp: e split: prod.split intro: frame_trans)
qed

lemma finish_turn_world [simp]: "cs_world (snd (finish_turn c t i s)) = cs_world s"
  by (simp add: finish_turn_def Let_def split: sum.split)

lemma drop_turn_world [simp]: "cs_world (drop_turn n s) = cs_world s"
  by (simp add: drop_turn_def)

lemma tool_loop_keeps: "R (cs_world s) (cs_world (snd (tool_loop c n k s)))"
proof (induction k arbitrary: s)
  case 0
  then show ?case by (simp add: frame_refl)
next
  case (Suc k)
  obtain r w where g: "generate (cc_llm c) (cs_history s) (Some (cc_system_prompt c)) 1024 (cc_tools c)
      (cs_world s) = (r, w)" by fastforce
  have w: "R (cs_world s) w" using keepsD [OF generate_keeps] g by (metis snd_conv)
  show ?case
  proof (cases r)
    case (Inl e)
    then show ?thesis using w by (cases e) (simp_all add: g)
  next
    case (Inr response)
    let ?s = "s\<lparr>cs_world := w, cs_history := cs_history s
        @ [tool_request_message (r_content response) (r_tool_calls response)]\<rparr>"
    have "R w (cs_world (snd (tool_loop c n k (run_tools c (the (r_tool_calls response)) ?s))))"
      using run_tools_keeps [of ?s "the (r_tool_calls response)"] Suc.IH
      by (metis (no_types, lifting) conv_state.select_convs(6) conv_state.surjective
          conv_state.update_convs(2,6) frame_trans)
    then show ?thesis using w Inr by (auto simp: g split: prod.split intro: frame_trans)
  qed
qed

lemma utterance_keeps: "R (cs_world s) (cs_world (snd (handle_utterance c t s)))"
  using tool_loop_keeps [of "begin_turn t s"]
  by (simp add: handle_utterance_def frame_refl begin_turn_def)

lemma stream_turn_keeps: "R (cs_world s) (cs_world (snd (handle_utterance_stream c t s)))"
proof (cases "cc_tools c = None \<and> \<not> call_limit_reached c s")
  case False
  then show ?thesis
    using utterance_keeps [of s t]
    by (auto simp: handle_utterance_stream_def frame_refl split: prod.splits sum.splits)
next
  case True
  let ?h = "cs_history (begin_turn t s)"
  obtain ds f w where g: "generate_stream (cc_llm c) ?h (Some (cc_system_prompt c)) (cs_world s) = ((ds, f), w)"
    by (metis prod.collapse)
  have "R (cs_world s) w" using stream_keeps g by (metis snd_conv)
  moreover have "cs_world (begin_turn t s) = cs_world s" by (simp add: begin_turn_def)
  ultimately show ?thesis
    using True g
    by (auto simp: handle_utterance_stream_def Let_def finish_turn_def
        split: prod.splits sum.splits option.splits exc.splits)
qed

text \<open>The moments at which a reply can be cut.\<close>

lemma generate_world:
  "generate (cc_llm c) h sp mt tools w = (r, w') \<Longrightarrow> R w w'"
  using keepsD [OF generate_keeps] by (metis snd_conv)

lemma tools_round_keeps:
  "R (cs_world s) w \<Longrightarrow> R (cs_world s) (cs_world (run_tools c tcs (s\<lparr>cs_world := w, cs_history := h\<rparr>)))"
  using run_tools_keeps [of "s\<lparr>cs_world := w, cs_history := h\<rparr>" tcs] by (simp add: frame_trans)

lemma loop_waiting_keeps: "loop_waiting c k s = Some s' \<Longrightarrow> R (cs_world s) (cs_world s')"
proof (induction k arbitrary: s)
  case 0
  then show ?case by (simp add: frame_refl)
next
  case (Suc k)
  obtain r w where g: "generate (cc_llm c) (cs_history s) (Some (cc_system_prompt c)) 1024 (cc_tools c)
      (cs_world s) = (r, w)" by fastforce
  note w = tools_round_keeps [OF generate_world [OF g]]
  show ?case
    using Suc.prems g Suc.IH frame_trans [OF w] by (auto split: sum.splits if_splits)
qed

lemma loop_cancelled_keeps: "loop_cancelled c k j s = Some s' \<Longrightarrow> R (cs_world s) (cs_world s')"
proof (induction k arbitrary: s)
  case 0
  obtain r w where g: "generate (cc_llm c) (cs_history s) (Some (cc_system_prompt c)) 1024 (cc_tools c)
      (cs_world s) = (r, w)" by fastforce
  note w = tools_round_keeps [OF generate_world [OF g]]
  show ?case
    using 0 g w by (subst (asm) loop_cancelled.simps) (auto simp: Let_def split: sum.splits if_splits)
next
  case (Suc k)
  obtain r w where g: "generate (cc_llm c) (cs_history s) (Some (cc_system_prompt c)) 1024 (cc_tools c)
      (cs_world s) = (r, w)" by fastforce
  note w = tools_round_keeps [OF generate_world [OF g]]
  show ?case
    using Suc.prems g Suc.IH frame_trans [OF w]
    by (subst (asm) loop_cancelled.simps) (auto simp: Let_def split: sum.splits if_splits)
qed

lemma begin_turn_world [simp]: "cs_world (begin_turn x s) = cs_world s"
  by (simp add: begin_turn_def)

lemma event_keeps: "R (cs_world s) (cs_world (event_step c ev s))"
proof (cases ev)
  case (Answered x)
  then show ?thesis using utterance_keeps by simp
next
  case (Streamed x)
  then show ?thesis using stream_turn_keeps by simp
next
  case (Stream_Cut x)
  then show ?thesis using stream_keeps by (simp add: stream_cut_def abandon_stream_def frame_refl)
next
  case (Request_Cut x k)
  show ?thesis
  proof (cases "cancelled_in_request c x k s")
    case None
    then show ?thesis by (simp add: Request_Cut request_cut_def frame_refl)
  next
    case (Some s')
    then have "R (cs_world s) (cs_world s')"
      using loop_waiting_keeps [of k "begin_turn x s" s'] by (simp add: cancelled_in_request_def split: if_splits)
    then have "R (cs_world s) (snd (generate (cc_llm c) (cs_history s') (Some (cc_system_prompt c)) 1024
        (cc_tools c) (cs_world s')))"
      by (rule frame_trans) (rule keepsD [OF generate_keeps])
    then show ?thesis using Some by (simp add: Request_Cut request_cut_def)
  qed
next
  case (Tool_Cut x k j b)
  show ?thesis
  proof (cases "cancelled_in_tools c x k j s")
    case None
    then show ?thesis by (simp add: Tool_Cut tool_cut_def frame_refl)
  next
    case (Some s')
    then have "R (cs_world s) (cs_world s')"
      using loop_cancelled_keeps [of k j "begin_turn x s" s'] by (simp add: cancelled_in_tools_def split: if_splits)
    then show ?thesis
      using Some frame_trans [OF _ execute_tool_keeps] by (simp add: Tool_Cut tool_cut_def split: option.split)
  qed
qed

lemma run_call_keeps: "R (cs_world s) (cs_world (run_call c evs s))"
proof (induction evs arbitrary: s)
  case Nil
  show ?case by (simp add: run_call_def frame_refl)
next
  case (Cons ev evs)
  have "run_call c (ev # evs) s = run_call c evs (event_step c ev s)" by (simp add: run_call_def)
  then show ?case using frame_trans [OF event_keeps Cons.IH] by metis
qed

end

end
