(* ===== verification/Process.thy ===== *)
theory Process
  imports Config Py_Text
begin

text \<open>
  What each of the three processes sets up before it works: \<^verbatim>\<open>openvoice/logging.py\<close>,
  \<^verbatim>\<open>openvoice/observability.py\<close>, \<^verbatim>\<open>openvoice/tasks/celery_app.py\<close> and the start of the API
  (\<^verbatim>\<open>main.lifespan\<close>) and of a call (\<^verbatim>\<open>telephony/worker.py\<close>). \<^verbatim>\<open>structlog\<close>, \<^verbatim>\<open>sentry_sdk\<close> and Celery
  receive a configuration, which is the state here.
\<close>

section \<open>Logging\<close>

datatype renderer = Console_Renderer | JSON_Renderer

text \<open>\<open>pc_sentry\<close> is what the last \<^verbatim>\<open>sentry_sdk.init\<close> was given: the DSN, the environment and the rate.\<close>

record process =
  pc_renderer :: "renderer option"
  pc_structlog_level :: int
  pc_root_level :: int
  pc_root_handlers :: "renderer list"
  pc_sentry :: "(string \<times> string \<times> rat) option"

text \<open>\<^verbatim>\<open>logging.getLevelNamesMapping()\<close>.\<close>

definition level_names :: "(string \<times> int) list" where
  "level_names =
     [(''CRITICAL'', 50), (''FATAL'', 50), (''ERROR'', 40), (''WARN'', 30), (''WARNING'', 30),
      (''INFO'', 20), (''DEBUG'', 10), (''NOTSET'', 0)]"

text \<open>\<^verbatim>\<open>str.upper\<close> on the letters of ASCII; no other character becomes part of a level's name.\<close>

definition upper :: "string \<Rightarrow> string" where
  "upper s = map (\<lambda>c. if 97 \<le> (of_char c :: nat) \<and> (of_char c :: nat) \<le> 122
     then char_of (of_char c - 32 :: nat) else c) s"

text \<open>\<^verbatim>\<open>repr\<close> of a string, as the message of \<^verbatim>\<open>logging\<close> shows the name.\<close>

definition repr_char :: "char \<Rightarrow> char \<Rightarrow> string" where
  "repr_char quote c =
     (let n = (of_char c :: nat)
      in if c = quote \<or> c = CHR 0x5C then [CHR 0x5C, c]
         else if n = 9 then [CHR 0x5C, CHR ''t''] else if n = 10 then [CHR 0x5C, CHR ''n'']
         else if n = 13 then [CHR 0x5C, CHR ''r'']
         else if n < 32 \<or> 127 \<le> n \<and> n \<le> 160 \<or> n = 173
         then [CHR 0x5C, CHR ''x'', hex_char (n div 16), hex_char (n mod 16)]
         else [c])"

definition py_repr :: "string \<Rightarrow> string" where
  "py_repr s =
     (let quote = (if CHR 0x27 \<in> set s \<and> CHR 0x22 \<notin> set s then CHR 0x22 else CHR 0x27)
      in quote # concat (map (repr_char quote) s) @ [quote])"

definition renderer_for :: "environment \<Rightarrow> renderer" where
  "renderer_for env = (if env = Env_Local \<or> env = Env_Test then Console_Renderer else JSON_Renderer)"

text \<open>\<^verbatim>\<open>root_logger.setLevel\<close> refuses a name that is no level.\<close>

definition set_root_level :: "string \<Rightarrow> (process, unit) prog" where
  "set_root_level name pc =
     (case map_of level_names name of
        Some n \<Rightarrow> (Inr (), pc\<lparr>pc_root_level := n\<rparr>)
      | None \<Rightarrow> (Inl (ValueError (''Unknown level: '' @ py_repr name)), pc))"

definition configure_logging :: "environment \<Rightarrow> string \<Rightarrow> (process, unit) prog" where
  "configure_logging env name pc =
     (let renderer = renderer_for env;
          level = (case map_of level_names (upper name) of Some n \<Rightarrow> n | None \<Rightarrow> 20)
      in set_root_level (upper name)
           (pc\<lparr>pc_renderer := Some renderer, pc_structlog_level := level, pc_root_handlers := [renderer]\<rparr>))"

section \<open>Sentry and Celery\<close>

text \<open>\<open>init\<close> is what \<^verbatim>\<open>sentry_sdk.init\<close> raises for a DSN, as \<^verbatim>\<open>BadDsn\<close> for one it cannot parse.\<close>

type_synonym sentry_init = "string \<Rightarrow> exc option"

definition configure_sentry :: "sentry_init \<Rightarrow> settings \<Rightarrow> (process, unit) prog" where
  "configure_sentry init s pc =
     (case sentry_dsn s of
        None \<Rightarrow> (Inr (), pc)
      | Some dsn \<Rightarrow>
          (case init dsn of
             Some e \<Rightarrow> (Inl e, pc)
           | None \<Rightarrow> (Inr (), pc\<lparr>pc_sentry := Some (dsn, environment_value (environment s), 1 / 10)\<rparr>)))"

record celery_conf =
  ce_broker :: string
  ce_backend :: string
  ce_include :: "string list"
  ce_serializer :: string
  ce_accept_content :: "string list"
  ce_time_limit :: int
  ce_soft_time_limit :: int
  ce_retry_on_startup :: bool
  ce_connection_timeout :: rat
  ce_connection_max_retries :: int

definition create_celery_app :: "sentry_init \<Rightarrow> settings \<Rightarrow> (process, celery_conf) prog" where
  "create_celery_app init s =
     bind_prog (configure_sentry init s) (\<lambda>_. ret
       \<lparr>ce_broker = redis_url s, ce_backend = redis_url s, ce_include = [''openvoice.tasks.summarize_call''],
        ce_serializer = ''json'', ce_accept_content = [''json''], ce_time_limit = 120,
        ce_soft_time_limit = 90, ce_retry_on_startup = True, ce_connection_timeout = 2,
        ce_connection_max_retries = 1\<rparr>)"

text \<open>The first statements of \<^verbatim>\<open>lifespan\<close> and of \<^verbatim>\<open>entrypoint\<close>, after the settings are read.\<close>

definition process_start :: "sentry_init \<Rightarrow> settings \<Rightarrow> (process, unit) prog" where
  "process_start init s =
     bind_prog (configure_logging (environment s) (log_level s)) (\<lambda>_. configure_sentry init s)"

section \<open>What a start leaves behind\<close>

text \<open>The settings that a start accepts.\<close>

definition level_known :: "settings \<Rightarrow> bool" where
  "level_known s \<longleftrightarrow> map_of level_names (upper (log_level s)) \<noteq> None"

definition dsn_accepted :: "sentry_init \<Rightarrow> settings \<Rightarrow> bool" where
  "dsn_accepted init s \<longleftrightarrow> (case sentry_dsn s of None \<Rightarrow> True | Some dsn \<Rightarrow> init dsn = None)"

lemma process_start_succeeds:
  "(\<exists>pc'. process_start init s pc = (Inr (), pc')) \<longleftrightarrow> level_known s \<and> dsn_accepted init s"
  by (cases "map_of level_names (upper (log_level s))")
    (auto simp: process_start_def configure_logging_def configure_sentry_def set_root_level_def level_known_def
      dsn_accepted_def bind_prog_apply Let_def split: option.split)

text \<open>
  (C37) A start configures the process consistently or fails: it succeeds exactly if the level is the name
  of one, in any case, and \<^verbatim>\<open>sentry_sdk.init\<close> accepts the DSN, if there is one. Then both loggers filter at
  that level, one handler with the environment's renderer is left, also after any number of starts
  in the same process, and errors are reported to the configured DSN. With an unknown level it raises,
  although the first of the two settings falls back to INFO; a DSN that is refused raises what the SDK
  raises, after logging has been set up.
\<close>

theorem process_start_is_consistent:
  "case process_start init s pc of
     (Inr _, pc') \<Rightarrow>
       map_of level_names (upper (log_level s)) = Some (pc_root_level pc') \<and>
       pc_structlog_level pc' = pc_root_level pc' \<and>
       pc_root_handlers pc' = [renderer_for (environment s)] \<and> pc_renderer pc' = Some (renderer_for (environment s)) \<and>
       pc_sentry pc' = (case sentry_dsn s of None \<Rightarrow> pc_sentry pc
          | Some dsn \<Rightarrow> Some (dsn, environment_value (environment s), 1 / 10)) \<and>
       level_known s \<and> dsn_accepted init s \<and> process_start init s pc' = (Inr (), pc')
   | (Inl e, pc') \<Rightarrow>
       pc_sentry pc' = pc_sentry pc \<and>
       (if level_known s
        then map_of level_names (upper (log_level s)) = Some (pc_root_level pc') \<and>
          pc_structlog_level pc' = pc_root_level pc' \<and> (\<exists>dsn. sentry_dsn s = Some dsn \<and> init dsn = Some e)
        else e = ValueError (''Unknown level: '' @ py_repr (upper (log_level s))) \<and>
          pc_structlog_level pc' = 20 \<and> pc_root_level pc' = pc_root_level pc)"
proof (cases "map_of level_names (upper (log_level s))")
  case None
  then show ?thesis
    by (simp add: process_start_def configure_logging_def set_root_level_def level_known_def bind_prog_apply Let_def)
next
  case (Some n)
  then show ?thesis
    by (simp add: process_start_def configure_logging_def configure_sentry_def set_root_level_def level_known_def
        dsn_accepted_def bind_prog_apply Let_def split: option.split)
qed

end
