(* ===== verification/Worker.thy ===== *)
theory Worker
  imports Conversation_Frame Booking_Tools CRM Prompts Process
begin

text \<open>
  \<^verbatim>\<open>openvoice/telephony/worker.py\<close>: one call from the first statement of its job to its finalization,
  and the transfer to a human. The world is the one of the tables, beside the state of the process;
  LiveKit, Sentry, the model that detects speech, the vendors' clients and \<^verbatim>\<open>zoneinfo\<close> are parameters
  (\<open>platform\<close>).
\<close>

section \<open>Who calls\<close>

text \<open>An attribute of a participant; test harnesses put objects there that are no strings.\<close>

datatype attribute = Attr_String string | Attr_Object

type_synonym participant_attributes = "(string \<times> attribute) list"

fun caller_phone_number :: "participant_attributes list \<Rightarrow> string option" where
  "caller_phone_number [] = None"
| "caller_phone_number (p # ps) =
     (case map_of p ''sip.phoneNumber'' of
        Some (Attr_String number) \<Rightarrow> (if number \<noteq> [] then Some number else caller_phone_number ps)
      | _ \<Rightarrow> caller_phone_number ps)"

section \<open>Transfer to a human\<close>

text \<open>
  The LiveKit API client; a participant is its identity and whether it is a SIP participant.
\<close>

record 'w livekit_api =
  lk_open :: "('w, unit) prog"
  lk_list_rooms :: "string \<Rightarrow> ('w, string list) prog"
  lk_list_participants :: "string \<Rightarrow> ('w, (bool \<times> string) list) prog"
  lk_transfer_sip_participant :: "string \<Rightarrow> string \<Rightarrow> string \<Rightarrow> ('w, unit) prog"
  lk_aclose :: "('w, unit) prog"

text \<open>What is logged at the end.\<close>

datatype transfer_outcome =
    Not_Configured | Room_Not_Found | No_Sip_Participant | Transferred | Transfer_Failed string

definition transfer_in_room :: "'w livekit_api \<Rightarrow> string \<Rightarrow> string \<Rightarrow> ('w, transfer_outcome) prog" where
  "transfer_in_room lk room_name number =
     bind_prog (lk_list_rooms lk room_name) (\<lambda>rooms.
       if rooms = [] then ret Room_Not_Found
       else bind_prog (lk_list_participants lk room_name) (\<lambda>participants.
         case find fst participants of
           None \<Rightarrow> ret No_Sip_Participant
         | Some (_, identity) \<Rightarrow>
             bind_prog (lk_transfer_sip_participant lk room_name identity (''tel:'' @ number))
               (\<lambda>_. ret Transferred)))"

text \<open>\<^verbatim>\<open>try: m finally: f\<close>: an exception of \<open>f\<close> replaces what \<open>m\<close> did.\<close>

definition finally_prog :: "('w, 'a) prog \<Rightarrow> ('w, unit) prog \<Rightarrow> ('w, 'a) prog" where
  "finally_prog m f w =
     (case m w of (r, t) \<Rightarrow> (case f t of (Inl e, u) \<Rightarrow> (Inl e, u) | (Inr _, u) \<Rightarrow> (r, u)))"

definition transfer_to_human ::
  "'w livekit_api \<Rightarrow> string \<Rightarrow> string option \<Rightarrow> ('w, transfer_outcome) prog" where
  "transfer_to_human lk room_name transfer_number =
     (case transfer_number of
        None \<Rightarrow> ret Not_Configured
      | Some number \<Rightarrow>
          try_prog
            (bind_prog (lk_open lk) (\<lambda>_.
               finally_prog (transfer_in_room lk room_name number) (lk_aclose lk)))
            (\<lambda>e. ret (Transfer_Failed (exc_str e))))"

text \<open>The callback that a call gives its agent.\<close>

definition on_transfer_to_human :: "'w livekit_api \<Rightarrow> settings \<Rightarrow> string \<Rightarrow> ('w, transfer_outcome) prog" where
  "on_transfer_to_human lk s room = transfer_to_human lk room (agent_human_transfer_number s)"

section \<open>The start of a call\<close>

record 'w platform =
  pf_runtime :: "'w runtime"
  pf_sentry :: sentry_init
  pf_connect_room :: "('w, unit) prog"
  pf_load_vad :: "rat \<Rightarrow> ('w, unit) prog"
  pf_extras :: extras
  pf_zoneinfo :: zone_info
  pf_instructions :: string
  pf_connect_llm :: "llm_built \<Rightarrow> 'w llm_provider"
  pf_connect_booking :: "booking_parts \<Rightarrow> 'w booking_service"
  pf_validators :: validators

text \<open>A provider acts on the external part of the world only.\<close>

definition lift_llm :: "'w llm_provider \<Rightarrow> 'w world llm_provider" where
  "lift_llm llm =
     \<lparr>generate = (\<lambda>messages sp mt tools. lift_ext (generate llm messages sp mt tools)),
      generate_stream = (\<lambda>messages sp w. case generate_stream llm messages sp (w_ext w) of
        (r, e) \<Rightarrow> (r, w\<lparr>w_ext := e\<rparr>))\<rparr>"

definition call_row :: "uuid \<Rightarrow> uuid option \<Rightarrow> string \<Rightarrow> datetime \<Rightarrow> call" where
  "call_row i client_id room started =
     \<lparr>ca_id = i, ca_client_id = client_id, ca_livekit_room_name = room, ca_direction = INBOUND,
      ca_status = IN_PROGRESS, ca_started_at = started, ca_ended_at = None, ca_summary = None\<rparr>"

text \<open>\<^verbatim>\<open>started_at\<close> is the database's \<^verbatim>\<open>now()\<close>.\<close>

definition register_call ::
  "'w runtime \<Rightarrow> uuid \<Rightarrow> string \<Rightarrow> string option \<Rightarrow> ('w world, uuid option) prog" where
  "register_call rt call_id room phone_number =
     bind_prog
       (case phone_number of
          None \<Rightarrow> ret None
        | Some phone \<Rightarrow> bind_prog (get_or_create_client rt phone) (\<lambda>c. ret (Some (cl_id c))))
       (\<lambda>client_id. bind_prog (\<lambda>w. insert_call rt (call_row call_id client_id room (utc_now rt w)) w)
          (\<lambda>_. ret client_id))"

text \<open>The tools and their executor, for a caller who is known.\<close>

definition call_tools ::
  "'w platform \<Rightarrow> settings \<Rightarrow> uuid \<Rightarrow> uuid option
   \<Rightarrow> (tool_definition list option \<times> 'w world tool_executor option) res" where
  "call_tools pf s call_id client_id =
     (case client_id of
        None \<Rightarrow> Inr (None, None)
      | Some cid \<Rightarrow>
          bind_res (build_booking_tools (pf_extras pf) s) (\<lambda>parts. case parts of
              None \<Rightarrow> Inr (None, None)
            | Some p \<Rightarrow> Inr (Some booking_tool_definitions,
                Some (booking_executor \<lparr>tx_runtime = pf_runtime pf, tx_service = pf_connect_booking pf p,
                  tx_validators = pf_validators pf, tx_client_id = cid, tx_call_id = Some call_id\<rparr>))))"

record 'w live_call =
  lc_call_id :: uuid
  lc_client_id :: "uuid option"
  lc_config :: "'w world conv_config"
  lc_state :: "'w world conv_state"

definition start_conversation ::
  "'w platform \<Rightarrow> settings \<Rightarrow> uuid \<Rightarrow> uuid option \<Rightarrow> 'w world \<Rightarrow> 'w live_call res" where
  "start_conversation pf s call_id client_id w =
     bind_res (build_temporal_context (pf_zoneinfo pf) (booking_timezone s) (utc_now (pf_runtime pf) w))
       (\<lambda>temporal.
     bind_res (call_tools pf s call_id client_id) (\<lambda>(tools, executor).
     bind_res (get_llm_provider (pf_extras pf) s) (\<lambda>llm.
     bind_res
       (conv_init (lift_llm (pf_connect_llm pf llm))
          (build_system_prompt (pf_instructions pf) s @ temporal
             @ (if tools \<noteq> None then booking_system_prompt_addendum else []))
          (uuid_str call_id) (agent_max_history_turns s) tools executor 4
          (agent_max_conversation_turns s) (agent_max_call_duration_seconds s) None
          (\<lambda>w. rt_now (pf_runtime pf) (w_ext w)) w)
       (\<lambda>(c, st). Inr \<lparr>lc_call_id = call_id, lc_client_id = client_id, lc_config = c, lc_state = st\<rparr>))))"

text \<open>
  The room is connected and the call has its identifier, which is when it counts as started; then the
  model that detects speech is loaded, the call's row is written and the conversation is set up.
\<close>

definition answer_call :: "'w platform \<Rightarrow> ('w world, uuid) prog" where
  "answer_call pf = bind_prog (lift_ext (pf_connect_room pf)) (\<lambda>_. new_uuid (pf_runtime pf))"

definition prepare_call ::
  "'w platform \<Rightarrow> settings \<Rightarrow> string \<Rightarrow> participant_attributes list \<Rightarrow> uuid \<Rightarrow> ('w world, 'w live_call) prog" where
  "prepare_call pf s room participants call_id =
     bind_prog (lift_ext (pf_load_vad pf (vad_min_silence_duration_seconds s))) (\<lambda>_.
     bind_prog (register_call (pf_runtime pf) call_id room (caller_phone_number participants))
       (\<lambda>client_id w. (start_conversation pf s call_id client_id w, w)))"

definition start_call ::
  "'w platform \<Rightarrow> settings \<Rightarrow> string \<Rightarrow> participant_attributes list \<Rightarrow> ('w world, 'w live_call) prog" where
  "start_call pf s room participants = bind_prog (answer_call pf) (prepare_call pf s room participants)"

section \<open>The whole call\<close>

text \<open>
  The speech providers are built after the shutdown callback is registered: a call whose providers
  cannot be built hears nothing, and is finalized all the same. \<open>evs\<close> are the utterances of the caller
  and the interruptions.
\<close>

definition call_conversation ::
  "'w platform \<Rightarrow> settings \<Rightarrow> call_event list \<Rightarrow> 'w live_call \<Rightarrow> 'w world conv_state" where
  "call_conversation pf s evs lc =
     (case bind_res (get_stt_provider (pf_extras pf) s)
             (\<lambda>stt. bind_res (get_tts_provider (pf_extras pf) s) (\<lambda>tts. Inr (stt, tts))) of
        Inl e \<Rightarrow> lc_state lc
      | Inr voice \<Rightarrow> run_call (lc_config lc) evs (lc_state lc))"

definition serve_call ::
  "'w platform \<Rightarrow> settings \<Rightarrow> string \<Rightarrow> participant_attributes list \<Rightarrow> (uuid \<Rightarrow> ('w, unit) prog)
   \<Rightarrow> call_event list \<Rightarrow> ('w world, bool) prog" where
  "serve_call pf s room participants enqueue evs =
     bind_prog (start_call pf s room participants) (\<lambda>lc w.
       let st = call_conversation pf s evs lc
       in finalize_call (pf_runtime pf) enqueue (lc_call_id lc) (cs_history st) (cs_world st))"

text \<open>The job of a call: logging and Sentry are set up for the process, then the call is served.\<close>

definition in_process :: "(process, 'a) prog \<Rightarrow> (process \<times> 'v, 'a) prog" where
  "in_process m = (\<lambda>(pc, w). case m pc of (r, pc') \<Rightarrow> (r, (pc', w)))"

definition in_world :: "('v, 'a) prog \<Rightarrow> (process \<times> 'v, 'a) prog" where
  "in_world m = (\<lambda>(pc, w). case m w of (r, w') \<Rightarrow> (r, (pc, w')))"

definition entrypoint ::
  "'w platform \<Rightarrow> settings \<Rightarrow> string \<Rightarrow> participant_attributes list \<Rightarrow> (uuid \<Rightarrow> ('w, unit) prog)
   \<Rightarrow> call_event list \<Rightarrow> (process \<times> 'w world, bool) prog" where
  "entrypoint pf s room participants enqueue evs =
     bind_prog (in_process (process_start (pf_sentry pf) s))
       (\<lambda>_. in_world (serve_call pf s room participants enqueue evs))"

end
