(* ===== verification/Worker_Thms.thy ===== *)
theory Worker_Thms
  imports Worker Booking_Tools_Thms CRM_Thms Conversation_Props
begin

text \<open>
  What a whole call does: it is registered before it is answered and finalized at its end, its
  transcript is the conversation, and nothing of any other client changes. A transfer never breaks it.
\<close>

section \<open>The conversation inside the world of the tables\<close>

text \<open>Whatever a call does, from tables that meet their constraints: only the caller's appointments.\<close>

definition call_frame :: "uuid \<Rightarrow> 'w world \<Rightarrow> 'w world \<Rightarrow> bool" where
  "call_frame cid s t \<longleftrightarrow> (db_ok s \<longrightarrow> others_same cid s t \<and> db_ok t)"

interpretation call_frame: frame "call_frame cid" for cid
proof
  fix s t u :: "'a world"
  show "call_frame cid s s" by (simp add: call_frame_def others.frame_refl)
  assume "call_frame cid s t" "call_frame cid t u"
  then show "call_frame cid s u" using others.frame_trans unfolding call_frame_def by blast
qed

lemma tables_same_call_frame: "tables_same s t \<Longrightarrow> call_frame cid s t"
  using tables_same_others tables_same_inv(2) unfolding call_frame_def by blast

lemma lift_llm_same:
  "keeps tables_same (generate (lift_llm llm) h sp mt tools)"
  "tables_same w (snd (generate_stream (lift_llm llm) h sp w))"
  using keeps_lift_ext by (auto simp: lift_llm_def tables_same_def split: prod.split)

lemma booking_executor_frame: "keeps (call_frame (tx_client_id tx)) (booking_executor tx tc)"
proof (rule keepsI)
  fix w
  show "call_frame (tx_client_id tx) w (snd (booking_executor tx tc w))"
  proof (cases "execute tx tc w")
    case None
    then show ?thesis by (simp add: booking_executor_def call_frame.frame_refl)
  next
    case (Some rw)
    then obtain r w' where "execute tx tc w = Some (r, w')" by (cases rw) simp
    with execute_others [OF this] show ?thesis by (simp add: booking_executor_def call_frame_def)
  qed
qed

text \<open>The two shapes of configuration that \<open>start_conversation\<close> makes.\<close>

definition with_booking ::
  "'w llm_provider \<Rightarrow> 'w tool_context \<Rightarrow> 'w world conv_config \<Rightarrow> 'w world conv_config" where
  "with_booking llm tx c = c\<lparr>cc_llm := lift_llm llm, cc_tool_executor := Some (booking_executor tx)\<rparr>"

definition without_booking :: "'w llm_provider \<Rightarrow> 'w world conv_config \<Rightarrow> 'w world conv_config" where
  "without_booking llm c = c\<lparr>cc_llm := lift_llm llm, cc_tool_executor := None\<rparr>"

interpretation booking_call: conv_frame "call_frame (tx_client_id tx)" "with_booking llm tx c"
  for tx :: "'w tool_context" and llm c
  by unfold_locales
    (auto simp: with_booking_def intro!: keepsI keepsD [OF booking_executor_frame]
      tables_same_call_frame lift_llm_same(2) keepsD [OF lift_llm_same(1)])

interpretation plain_call: conv_frame tables_same "without_booking llm c"
  for llm :: "'w llm_provider" and c
  by unfold_locales (simp_all add: without_booking_def lift_llm_same)

lemma conv_init_parts:
  "conv_init llm sp i mh tools ex mi mt ms st now w = Inr (c, s) \<Longrightarrow>
   cc_llm c = llm \<and> cc_tool_executor c = ex \<and> cs_history s = [] \<and> cs_world s = w \<and>
   cc_max_history_turns c = mh"
  by (auto simp: conv_init_def split: if_splits)

lemma call_tools_parts:
  assumes "call_tools pf s call_id client_id = Inr (tools, ex)"
  shows "ex = None \<or> (\<exists>tx. client_id = Some (tx_client_id tx) \<and> ex = Some (booking_executor tx))"
  using assms by (auto simp: call_tools_def bind_res_Inr split: option.splits)
    (metis tool_context.select_convs(4))

lemma start_conversation_parts:
  assumes "start_conversation pf s call_id client_id w = Inr lc"
  shows "lc_call_id lc = call_id \<and> lc_client_id lc = client_id \<and> cs_history (lc_state lc) = [] \<and>
    cs_world (lc_state lc) = w \<and> cc_max_history_turns (lc_config lc) = agent_max_history_turns s \<and>
    ((\<exists>llm. lc_config lc = without_booking llm (lc_config lc)) \<or>
     (\<exists>llm tx. client_id = Some (tx_client_id tx) \<and> lc_config lc = with_booking llm tx (lc_config lc)))"
proof -
  from assms obtain tools ex llm c st sp mt ms now where tools: "call_tools pf s call_id client_id = Inr (tools, ex)"
    and init: "conv_init (lift_llm (pf_connect_llm pf llm)) sp (uuid_str call_id) (agent_max_history_turns s) tools ex 4
      mt ms None now w = Inr (c, st)"
    and lc: "lc = \<lparr>lc_call_id = call_id, lc_client_id = client_id, lc_config = c, lc_state = st\<rparr>"
    by (auto simp: start_conversation_def bind_res_Inr)
  note parts = conv_init_parts [OF init]
  from call_tools_parts [OF tools] show ?thesis
  proof (elim disjE exE conjE)
    assume "ex = None"
    with parts have "c = without_booking (pf_connect_llm pf llm) c" by (simp add: without_booking_def)
    with parts lc show ?thesis by auto
  next
    fix tx
    assume "client_id = Some (tx_client_id tx)" "ex = Some (booking_executor tx)"
    moreover with parts have "c = with_booking (pf_connect_llm pf llm) tx c" by (simp add: with_booking_def)
    ultimately show ?thesis using parts lc by auto
  qed
qed

lemma call_conversation_turns:
  "\<exists>done. call_conversation pf s evs lc = run_call (lc_config lc) done (lc_state lc)"
proof -
  have "lc_state lc = run_call (lc_config lc) [] (lc_state lc)" by (simp add: run_call_def)
  then show ?thesis unfolding call_conversation_def by (auto split: sum.split)
qed

text \<open>The conversation of a call, as far as the tables are concerned.\<close>

lemma conversation_others:
  assumes "start_conversation pf s call_id client_id w = Inr lc" and "db_ok w"
    and t_def: "t = cs_world (call_conversation pf s evs lc)"
  shows "db_ok t \<and> w_clients t = w_clients w \<and> w_calls t = w_calls w \<and> w_transcripts t = w_transcripts w \<and>
    filter (\<lambda>a. Some (ap_client_id a) \<noteq> client_id) (w_appointments t) =
    filter (\<lambda>a. Some (ap_client_id a) \<noteq> client_id) (w_appointments w)"
proof -
  note parts = start_conversation_parts [OF assms(1)]
  obtain ts where ts: "call_conversation pf s evs lc = run_call (lc_config lc) ts (lc_state lc)"
    using call_conversation_turns by blast
  from parts consider llm where "lc_config lc = without_booking llm (lc_config lc)"
    | llm tx where "client_id = Some (tx_client_id tx)" "lc_config lc = with_booking llm tx (lc_config lc)"
    by blast
  then show ?thesis
  proof cases
    case 1
    have "tables_same w t"
      using plain_call.run_call_keeps [of "lc_state lc" llm "lc_config lc" ts] parts 1
      unfolding t_def ts by metis
    then show ?thesis using assms(2) by (simp add: tables_same_fields tables_same_inv)
  next
    case 2
    have "call_frame (tx_client_id tx) w t"
      using booking_call.run_call_keeps [of tx "lc_state lc" llm "lc_config lc" ts] parts 2
      unfolding t_def ts by metis
    then show ?thesis using assms(2) 2(1) by (simp add: call_frame_def others_same_def)
  qed
qed

section \<open>Registration\<close>

lemma insert_call_result:
  "insert_call rt c w = (Inr u, w') \<Longrightarrow>
   ca_id c \<notin> ca_id ` set (w_calls w) \<and> w' = w\<lparr>w_calls := w_calls w @ [c]\<rparr>"
  by (auto simp: insert_call_def db_op_def split: option.splits if_splits)

definition caller_known :: "string option \<Rightarrow> uuid option \<Rightarrow> 'w world \<Rightarrow> bool" where
  "caller_known phone client_id w \<longleftrightarrow>
     (case phone of
        None \<Rightarrow> client_id = None
      | Some number \<Rightarrow> \<exists>c \<in> set (w_clients w). cl_phone_number c = number \<and> client_id = Some (cl_id c))"

lemma get_or_create_tables:
  assumes "get_or_create_client rt phone w = (Inr c, w')" and "db_ok w"
  shows "db_ok w' \<and> c \<in> set (w_clients w') \<and> cl_phone_number c = phone \<and> w_calls w' = w_calls w \<and>
    w_transcripts w' = w_transcripts w \<and> w_appointments w' = w_appointments w"
  using get_or_create_cases [OF assms(1)]
proof (elim disjE exE conjE)
  fix i e
  assume "c = new_client i phone" and row: "client_row_error c (w\<lparr>w_ext := e\<rparr>) = None"
    and "w' = w\<lparr>w_ext := e, w_clients := w_clients w @ [c]\<rparr>"
  then show ?thesis using client_row_error_None [OF row] assms(2) by (auto simp: db_ok_def new_client_def)
qed (use assms(2) in \<open>auto dest: find_mem\<close>)

lemma register_call_result:
  assumes "register_call rt i room phone w = (Inr client_id, w')" and "db_ok w"
  shows "\<exists>started. i \<notin> ca_id ` set (w_calls w) \<and>
    w_calls w' = w_calls w @ [call_row i client_id room started] \<and>
    w_transcripts w' = w_transcripts w \<and> w_appointments w' = w_appointments w \<and>
    db_ok w' \<and> caller_known phone client_id w'"
proof -
  from assms(1) obtain cid v u where
    who: "(case phone of None \<Rightarrow> ret None | Some p \<Rightarrow>
       bind_prog (get_or_create_client rt p) (\<lambda>c. ret (Some (cl_id c)))) w = (Inr cid, v)"
    and ins: "insert_call rt (call_row i cid room (utc_now rt v)) v = (Inr u, w')" and "cid = client_id"
    unfolding register_call_def by (auto elim!: bind_progE)
  have v: "db_ok v \<and> w_calls v = w_calls w \<and> w_transcripts v = w_transcripts w \<and>
      w_appointments v = w_appointments w \<and> caller_known phone cid v"
  proof (cases phone)
    case None
    then show ?thesis using who assms(2) by (simp add: caller_known_def)
  next
    case (Some number)
    with who obtain c where "get_or_create_client rt number w = (Inr c, v)" "cid = Some (cl_id c)"
      by (auto elim!: bind_progE)
    with get_or_create_tables [OF this(1) assms(2)] Some show ?thesis by (auto simp: caller_known_def)
  qed
  have w': "i \<notin> ca_id ` set (w_calls v)" "w' = v\<lparr>w_calls := w_calls v @ [call_row i cid room (utc_now rt v)]\<rparr>"
    using insert_call_result [OF ins] by (simp_all add: call_row_def)
  with v \<open>cid = client_id\<close> show ?thesis by (auto simp: db_ok_def caller_known_def split: option.splits)
qed

text \<open>
  A call that has begun: a fresh row, for a caller who is a client, and nothing else is new. Until the
  row is written the tables are not touched.
\<close>

lemma lift_ext_tables: "lift_ext m w = (r, t) \<Longrightarrow> tables_same w t"
  by (rule keeps_result [OF keeps_lift_ext])

lemma answer_call_tables: "answer_call pf w = (r, t) \<Longrightarrow> tables_same w t"
  by (rule keeps_result [where m = "answer_call pf"]) (auto simp: answer_call_def intro!: keeps_intros)

lemma start_call_result:
  assumes "start_call pf s room participants w = (Inr lc, w1)" and "db_ok w"
  shows "\<exists>started. lc_call_id lc \<notin> ca_id ` set (w_calls w) \<and>
    w_calls w1 = w_calls w @ [call_row (lc_call_id lc) (lc_client_id lc) room started] \<and>
    w_transcripts w1 = w_transcripts w \<and> w_appointments w1 = w_appointments w \<and> db_ok w1 \<and>
    caller_known (caller_phone_number participants) (lc_client_id lc) w1 \<and>
    start_conversation pf s (lc_call_id lc) (lc_client_id lc) w1 = Inr lc"
proof -
  let ?rt = "pf_runtime pf"
  from assms(1) obtain i u v cid w0 where i: "answer_call pf w = (Inr i, u)"
    and v: "lift_ext (pf_load_vad pf (vad_min_silence_duration_seconds s)) u = (Inr v, w0)"
    and reg: "register_call ?rt i room (caller_phone_number participants) w0 = (Inr cid, w1)"
    and conv: "start_conversation pf s i cid w1 = Inr lc"
    unfolding start_call_def prepare_call_def by (auto elim!: bind_progE)
  have w0: "tables_same w w0"
    using answer_call_tables [OF i] lift_ext_tables [OF v] ext_only.frame_trans by blast
  then have "db_ok w0" using assms(2) tables_same_inv(2) by blast
  from register_call_result [OF reg this] tables_same_fields [OF w0] start_conversation_parts [OF conv] conv
  show ?thesis by auto
qed

text \<open>The job is the start of the process and the call.\<close>

lemma entrypoint_result:
  "entrypoint pf s room participants enqueue evs (pc, w) = (Inr x, (pc', w')) \<longleftrightarrow>
   process_start (pf_sentry pf) s pc = (Inr (), pc') \<and>
   serve_call pf s room participants enqueue evs w = (Inr x, w')"
  by (cases "process_start (pf_sentry pf) s pc"; cases "fst (process_start (pf_sentry pf) s pc)")
    (auto simp: entrypoint_def in_process_def in_world_def bind_prog_apply split: prod.splits)

text \<open>The transcript of a call that is not longer than the history.\<close>

lemma spoken_lines_prefix: "prefix h h' \<Longrightarrow> prefix (spoken_lines h) (spoken_lines h')"
  by (auto simp: prefix_def spoken_lines_def enumerate_append_eq)

lemma call_keeps_lines:
  assumes "start_conversation pf s call_id client_id w = Inr lc"
  shows "int (length evs) \<le> agent_max_history_turns s \<longrightarrow>
    (\<forall>n. prefix (spoken_lines (cs_history (call_conversation pf s (take n evs) lc)))
      (spoken_lines (cs_history (call_conversation pf s evs lc))))"
  using start_conversation_parts [OF assms]
  by (auto simp: call_conversation_def intro!: spoken_lines_prefix short_call_keeps_all split: sum.split)

section \<open>Properties\<close>


text \<open>A call of Ann's over a platform without a calendar, served by a model that says hello.\<close>

definition hello_llm :: "string list llm_provider" where
  "hello_llm =
     \<lparr>generate = (\<lambda>h sp mt tools. raise (LLMProviderError ''down'')),
      generate_stream = (\<lambda>h sp w. (([''hello''], None), w))\<rparr>"

definition utc_zone :: zone_info where
  "utc_zone name = Inr \<lparr>z_offset = (\<lambda>i. 0), z_name = (\<lambda>i. ''UTC'')\<rparr>"

definition hello_extras :: extras where
  "hello_extras =
     \<lparr>has_faster_whisper = True, has_piper = True, has_google_client = False, open_llm = (\<lambda>b. None),
      load_whisper = (\<lambda>b. None), open_tts = (\<lambda>b. None), open_calendar = (\<lambda>b. None), open_sms = (\<lambda>b. None),
      open_email = (\<lambda>b. None)\<rparr>"

definition hello_platform :: "string list platform" where
  "hello_platform =
     \<lparr>pf_runtime = fresh_runtime, pf_sentry = (\<lambda>dsn. None), pf_connect_room = ret (),
      pf_load_vad = (\<lambda>silence. ret ()), pf_extras = hello_extras,
      pf_zoneinfo = utc_zone, pf_instructions = [],
      pf_connect_llm = (\<lambda>b. hello_llm), pf_connect_booking = (\<lambda>p. log_service None),
      pf_validators = \<lparr>v_check = (\<lambda>_. Inl []), v_book = (\<lambda>_. Inl []), v_id = (\<lambda>_. Inl []),
        v_reschedule = (\<lambda>_. Inl [])\<rparr>\<rparr>"

definition hello_settings :: settings where
  "hello_settings = (default_settings ''0123456789abcdef'' ''d'')\<lparr>anthropic_api_key := Some ''k''\<rparr>"

definition ann_calling :: "participant_attributes list" where
  "ann_calling = [[(''sip.phoneNumber'', Attr_String ''+1'')]]"

lemma hello_temporal: "\<exists>t. build_temporal_context utc_zone (booking_timezone hello_settings) (utc_now fresh_runtime w) = Inr t"
  by (simp add: build_temporal_context_def zone_or_utc_def utc_zone_def astimezone_def wall_ok_def max_wall_def
      dt_instant_def utc_now_def fresh_runtime_def unit_defs)

lemma hello_llm_built: "\<exists>b. get_llm_provider hello_extras hello_settings = Inr b"
  by (simp add: get_llm_provider_def hello_settings_def default_settings_def hello_extras_def construct_def)

lemma hello_has_no_tools: "call_tools hello_platform hello_settings i cid = Inr (None, None)"
  by (auto simp: call_tools_def build_booking_tools_def get_calendar_provider_def hello_platform_def hello_extras_def
      hello_settings_def default_settings_def split: option.splits)

definition hello_config :: "string \<Rightarrow> string list world conv_config" where
"hello_config sp = \<lparr>cc_llm = lift_llm hello_llm, cc_system_prompt = sp, cc_call_id = uuid_str 0,
     cc_max_history_turns = 20, cc_tools = None, cc_tool_executor = None, cc_max_tool_iterations = 4,
     cc_max_conversation_turns = Some 40, cc_max_call_duration_seconds = Some 900,
     cc_call_started_at = 0, cc_now = (\<lambda>w. 0)\<rparr>"

definition hello_state :: "string list world \<Rightarrow> string list world conv_state" where
  "hello_state w = \<lparr>cs_turn_count = 0, cs_history = [], cs_last_reply = None, cs_llm_errors = 0,
     cs_tool_outcomes = [], cs_world = w\<rparr>"

lemma hello_starts:
  "\<exists>sp. start_conversation hello_platform hello_settings 0 cid w =
     Inr \<lparr>lc_call_id = 0, lc_client_id = cid, lc_config = hello_config sp, lc_state = hello_state w\<rparr>"
proof -
  obtain t where "build_temporal_context utc_zone (booking_timezone hello_settings) (utc_now fresh_runtime w) = Inr t"
    using hello_temporal by blast
  moreover obtain b where "get_llm_provider hello_extras hello_settings = Inr b" using hello_llm_built by blast
  moreover have "pf_runtime hello_platform = fresh_runtime" "pf_zoneinfo hello_platform = utc_zone"
    "pf_extras hello_platform = hello_extras"
    "pf_connect_llm hello_platform = (\<lambda>b. hello_llm)" "agent_max_history_turns hello_settings = 20"
    "agent_max_conversation_turns hello_settings = Some 40"
    "agent_max_call_duration_seconds hello_settings = Some 900"
    by (simp_all add: hello_platform_def hello_settings_def default_settings_def)
  ultimately show ?thesis
    by (simp add: start_conversation_def hello_has_no_tools conv_init_def hello_config_def hello_state_def
        fresh_runtime_def)
qed


definition hello_world :: "string list world" where
  "hello_world = (ann_world [])\<lparr>w_ext := [''uuid'']\<rparr>"

definition hello_call_world :: "string list world" where
  "hello_call_world =
     hello_world\<lparr>w_calls := [call_row 0 (Some (cl_id ann)) ''room'' (utc_now fresh_runtime hello_world)]\<rparr>"

lemma hello_registers:
  "register_call fresh_runtime 0 ''room'' (Some ''+1'') hello_world = (Inr (Some (cl_id ann)), hello_call_world)"
  by code_simp

lemma hello_starts_call:
  "\<exists>sp. start_call hello_platform hello_settings ''room'' ann_calling (ann_world []) =
     (Inr \<lparr>lc_call_id = 0, lc_client_id = Some (cl_id ann), lc_config = hello_config sp,
        lc_state = hello_state hello_call_world\<rparr>, hello_call_world)"
proof -
  have "new_uuid fresh_runtime (ann_world []) = (Inr 0, hello_world)" by code_simp
  moreover have "caller_phone_number ann_calling = Some ''+1''" by code_simp
  moreover have "pf_runtime hello_platform = fresh_runtime" by (simp add: hello_platform_def)
  ultimately show ?thesis
    using hello_registers hello_starts [of "Some (cl_id ann)" hello_call_world]
    by (auto simp: start_call_def answer_call_def prepare_call_def bind_prog_apply hello_platform_def lift_ext_def)
qed

lemma hello_is_answered:
  "handle_utterance_stream (hello_config sp) ''hi'' (hello_state w) =
   (([''hello''], None), (hello_state (w\<lparr>w_ext := w_ext w\<rparr>))\<lparr>cs_turn_count := 1,
      cs_history := [text_message USER ''hi'', text_message ASSISTANT ''hello''],
      cs_last_reply := Some (mk_reply ''hello'' GENERAL False)\<rparr>)"
  by code_simp

lemma hello_is_finalized:
  "fst (finalize_call fresh_runtime log_queue 0 [text_message USER ''hi'', text_message ASSISTANT ''hello'']
     hello_call_world) = Inr True"
  by code_simp

definition new_process :: process where
  "new_process = \<lparr>pc_renderer = None, pc_structlog_level = 0, pc_root_level = 30, pc_root_handlers = [],
     pc_sentry = None\<rparr>"

lemma hello_process: "\<exists>pc. process_start (pf_sentry hello_platform) hello_settings new_process = (Inr (), pc)"
proof -
  have "level_known hello_settings" by code_simp
  then show ?thesis
    by (simp add: process_start_succeeds dsn_accepted_def hello_platform_def hello_settings_def default_settings_def)
qed

lemma hello_voice:
  "call_conversation hello_platform hello_settings evs lc = run_call (lc_config lc) evs (lc_state lc)"
  by (simp add: call_conversation_def hello_platform_def hello_settings_def default_settings_def
      get_stt_provider_def get_tts_provider_def hello_extras_def construct_def)

lemma hello_run:
  "\<exists>pc' w'. entrypoint hello_platform hello_settings ''room'' ann_calling log_queue [Streamed ''hi'']
     (new_process, ann_world []) = (Inr True, (pc', w'))"
proof -
  obtain sp where sp: "start_call hello_platform hello_settings ''room'' ann_calling (ann_world []) =
     (Inr \<lparr>lc_call_id = 0, lc_client_id = Some (cl_id ann), lc_config = hello_config sp,
        lc_state = hello_state hello_call_world\<rparr>, hello_call_world)"
    using hello_starts_call by blast
  moreover have "pf_runtime hello_platform = fresh_runtime" by (simp add: hello_platform_def)
  moreover have "cs_world (hello_state w) = w" for w by (simp add: hello_state_def)
  ultimately have "fst (serve_call hello_platform hello_settings ''room'' ann_calling log_queue [Streamed ''hi'']
      (ann_world [])) = Inr True"
    using hello_is_finalized
    by (simp add: serve_call_def bind_prog_apply run_call_def hello_is_answered hello_voice Let_def)
  then show ?thesis using hello_process unfolding entrypoint_result by (metis prod.collapse)
qed


section \<open>Transfer\<close>

lemma finally_result:
  "finally_prog m f w = (Inr x, u) \<Longrightarrow> \<exists>t. m w = (Inr x, t)"
  by (auto simp: finally_prog_def split: prod.splits sum.splits)

lemma transferred_means:
  assumes "transfer_in_room lk room number w = (Inr Transferred, t)"
  shows "\<exists>identity v ps v0. lk_list_participants lk room v0 = (Inr ps, v) \<and> (True, identity) \<in> set ps \<and>
    lk_transfer_sip_participant lk room identity (''tel:'' @ number) v = (Inr (), t)"
proof -
  from assms obtain rooms v0 where "lk_list_rooms lk room w = (Inr rooms, v0)"
    and rest: "(if rooms = [] then ret Room_Not_Found
       else bind_prog (lk_list_participants lk room) (\<lambda>participants. case find fst participants of
           None \<Rightarrow> ret No_Sip_Participant
         | Some (_, identity) \<Rightarrow>
             bind_prog (lk_transfer_sip_participant lk room identity (''tel:'' @ number))
               (\<lambda>_. ret Transferred))) v0 = (Inr Transferred, t)"
    unfolding transfer_in_room_def by (rule bind_progE)
  then have "rooms \<noteq> []" by auto
  with rest obtain ps v where ps: "lk_list_participants lk room v0 = (Inr ps, v)"
    and last: "(case find fst ps of None \<Rightarrow> ret No_Sip_Participant
         | Some (_, identity) \<Rightarrow>
             bind_prog (lk_transfer_sip_participant lk room identity (''tel:'' @ number))
               (\<lambda>_. ret Transferred)) v = (Inr Transferred, t)"
    by (auto elim!: bind_progE)
  from last obtain sip identity where "find fst ps = Some (sip, identity)"
    by (auto split: option.splits)
  moreover from this have "(True, identity) \<in> set ps" by (auto dest: find_mem)
  moreover have "lk_transfer_sip_participant lk room identity (''tel:'' @ number) v = (Inr (), t)"
    using last calculation(1) by (auto elim!: bind_progE)
  ultimately show ?thesis using ps by blast
qed

text \<open>
  (C33) A transfer to a human cannot break the call: it always returns, whatever LiveKit does; it does
  nothing at all without a number; it reports a transfer only after LiveKit has accepted the transfer
  of a SIP participant of this room to exactly the configured number; and when the room, its SIP
  participant and the API are there, the caller is transferred.
\<close>

theorem transfer_never_breaks_the_call:
  "(\<exists>outcome t. transfer_to_human lk room number w = (Inr outcome, t) \<and>
      (number = None \<longrightarrow> outcome = Not_Configured \<and> t = w) \<and>
      (outcome = Transferred \<longrightarrow> (\<exists>n identity v v' ps v0. number = Some n \<and>
         lk_list_participants lk room v0 = (Inr ps, v) \<and> (True, identity) \<in> set ps \<and>
         lk_transfer_sip_participant lk room identity (''tel:'' @ n) v = (Inr (), v')))) \<and>
   (number = Some n \<and> lk_open lk w = (Inr (), wa) \<and> lk_list_rooms lk room wa = (Inr rooms, wb) \<and> rooms \<noteq> [] \<and>
      lk_list_participants lk room wb = (Inr ps, wc) \<and> find fst ps = Some (True, identity) \<and>
      lk_transfer_sip_participant lk room identity (''tel:'' @ n) wc = (Inr (), wd) \<and>
      lk_aclose lk wd = (Inr (), we) \<longrightarrow>
    transfer_to_human lk room number w = (Inr Transferred, we))"
proof (intro conjI impI)
  show "\<exists>outcome t. transfer_to_human lk room number w = (Inr outcome, t) \<and>
      (number = None \<longrightarrow> outcome = Not_Configured \<and> t = w) \<and>
      (outcome = Transferred \<longrightarrow> (\<exists>n identity v v' ps v0. number = Some n \<and>
         lk_list_participants lk room v0 = (Inr ps, v) \<and> (True, identity) \<in> set ps \<and>
         lk_transfer_sip_participant lk room identity (''tel:'' @ n) v = (Inr (), v')))"
  proof (cases number)
    case None
    then show ?thesis by (simp add: transfer_to_human_def)
  next
    case (Some n)
    let ?m = "bind_prog (lk_open lk) (\<lambda>_. finally_prog (transfer_in_room lk room n) (lk_aclose lk))"
    obtain r t where m: "?m w = (r, t)" by fastforce
    show ?thesis
    proof (cases r)
      case (Inl e)
      with m Some show ?thesis by (simp add: transfer_to_human_def try_prog_apply)
    next
      case (Inr outcome)
      with m Some have res: "transfer_to_human lk room number w = (Inr outcome, t)"
        by (simp add: transfer_to_human_def try_prog_apply)
      from m Inr obtain wa u where "transfer_in_room lk room n wa = (Inr outcome, u)"
        by (auto elim!: bind_progE dest!: finally_result)
      with transferred_means [of lk room n wa u] res Some show ?thesis by blast
    qed
  qed
next
  assume "number = Some n \<and> lk_open lk w = (Inr (), wa) \<and> lk_list_rooms lk room wa = (Inr rooms, wb) \<and> rooms \<noteq> [] \<and>
      lk_list_participants lk room wb = (Inr ps, wc) \<and> find fst ps = Some (True, identity) \<and>
      lk_transfer_sip_participant lk room identity (''tel:'' @ n) wc = (Inr (), wd) \<and>
      lk_aclose lk wd = (Inr (), we)"
  then show "transfer_to_human lk room number w = (Inr Transferred, we)"
    by (simp add: transfer_to_human_def try_prog_apply bind_prog_apply finally_prog_def transfer_in_room_def)
qed

definition open_room :: "string list livekit_api" where
  "open_room =
     \<lparr>lk_open = ret (), lk_list_rooms = (\<lambda>r. ret [r]), lk_list_participants = (\<lambda>r. ret [(False, ''bot''), (True, ''ann'')]),
      lk_transfer_sip_participant = (\<lambda>r i n log. (Inr (), log @ [i, n])), lk_aclose = ret ()\<rparr>"

theorem transfer_never_breaks_the_call_witness:
  "transfer_to_human open_room ''room'' (Some ''+3'') [] = (Inr Transferred, [''ann'', ''tel:+3''])"
  by (rule transfer_never_breaks_the_call [where n = "''+3''" and rooms = "[''room'']"
        and ps = "[(False, ''bot''), (True, ''ann'')]" and identity = "''ann''" and wa = "[]" and wb = "[]"
        and wc = "[]" and wd = "[''ann'', ''tel:+3'']" and we = "[''ann'', ''tel:+3'']", THEN conjunct2, THEN mp])
    (simp add: open_room_def)

end
