(* ===== verification/Worker_Live.thy ===== *)
theory Worker_Live
  imports Worker_Thms Config_Thms
begin

text \<open>
  That a call returns: on a working deployment, whose room connects, whose clients can be built, whose
  database answers and whose identifiers are new, every call is begun and finalized, whatever the model,
  the tools, the calendar and the speech providers do once the call has begun.
\<close>

section \<open>New identifiers\<close>

text \<open>
  The documented law of \<^verbatim>\<open>uuid.uuid4\<close>, as far as a call needs it: the next \<open>n\<close> identifiers are new.
\<close>

fun fresh_ids :: "'w runtime \<Rightarrow> nat \<Rightarrow> 'w \<Rightarrow> uuid set \<Rightarrow> bool" where
  "fresh_ids rt 0 e used = True"
| "fresh_ids rt (Suc n) e used =
     (case rt_uuid rt e of (i, e') \<Rightarrow> i \<notin> used \<and> fresh_ids rt n e' (insert i used))"

lemma new_uuid_draw: "rt_uuid rt (w_ext w) = (i, e) \<Longrightarrow> new_uuid rt w = (Inr i, w\<lparr>w_ext := e\<rparr>)"
  by (simp add: new_uuid_def lift_ext_def)

text \<open>A database that answers every statement.\<close>

definition answers :: "'w runtime \<Rightarrow> bool" where
  "answers rt \<longleftrightarrow> rt_db_fault rt = (\<lambda>w. None)"

lemma answers_op: "answers rt \<Longrightarrow> db_op rt m = m"
  by (simp add: answers_def db_op_def)

section \<open>The end of a call\<close>

lemma transcript_rows_return:
  "fresh_ids rt (length ls) (w_ext w) used \<Longrightarrow>
   \<exists>ts e. transcript_rows rt i ls w = (Inr ts, w\<lparr>w_ext := e\<rparr>) \<and> distinct (map tr_id ts) \<and>
     tr_id ` set ts \<inter> used = {}"
proof (induction ls arbitrary: w used)
  case Nil
  show ?case by (auto intro!: exI [of _ "w_ext w"])
next
  case (Cons l ls)
  obtain n r x where l: "l = (n, r, x)" by (metis prod_cases3)
  obtain u e where u: "rt_uuid rt (w_ext w) = (u, e)" by fastforce
  with Cons.prems have "u \<notin> used" "fresh_ids rt (length ls) (w_ext (w\<lparr>w_ext := e\<rparr>)) (insert u used)" by simp_all
  with Cons.IH [of "w\<lparr>w_ext := e\<rparr>" "insert u used"] obtain ts e' where
    "transcript_rows rt i ls (w\<lparr>w_ext := e\<rparr>) = (Inr ts, w\<lparr>w_ext := e'\<rparr>)" "distinct (map tr_id ts)"
    "tr_id ` set ts \<inter> insert u used = {}" by auto
  with u l \<open>u \<notin> used\<close> show ?case
    by (auto simp: new_uuid_draw bind_prog_apply intro!: exI [of _ e'])
qed

lemma suppressed_returns: "\<exists>v. try_prog m (\<lambda>e. ret ()) u = (Inr (), v)"
  by (cases "m u"; cases "fst (m u)") (auto simp: try_prog_apply)

lemma finalize_returns:
  assumes "answers rt" and "find (\<lambda>c. ca_id c = i) (w_calls w) = Some c" and "call_row_error c w = None"
    and "\<forall>t \<in> set (w_transcripts w). tr_call_id t \<noteq> i" and "transcript_rows_error [] w = None"
    and "fresh_ids rt (length (spoken_lines h)) (w_ext w) (tr_id ` set (w_transcripts w))"
  shows "\<exists>w'. finalize_call rt enqueue i h w = (Inr True, w')"
proof -
  let ?c = "c\<lparr>ca_status := CALL_COMPLETED, ca_ended_at := Some (utc_now rt w)\<rparr>"
  from transcript_rows_return [OF assms(6)] obtain ts e where
    ts: "transcript_rows rt i (spoken_lines h) w = (Inr ts, w\<lparr>w_ext := e\<rparr>)"
    and ids: "distinct (map tr_id ts)" "tr_id ` set ts \<inter> tr_id ` set (w_transcripts w) = {}" by blast
  note rows = transcript_rows_result [OF ts]
  have c: "ca_id c = i" "c \<in> set (w_calls w)" using find_mem [OF assms(2)] by simp_all
  then have mem: "i \<in> ca_id ` set (w_calls w)" by force
  have "map tr_sequence ts = map fst (spoken_lines h)" using rows by (metis (no_types, lifting) comp_apply fst_conv map_eq_conv map_map)
  then have "distinct (map tr_sequence ts)" using spoken_lines_sorted [of h] strict_sorted_iff by metis
  then have "distinct (map (\<lambda>t. (tr_call_id t, tr_sequence t)) ts)"
    by (auto simp: distinct_map inj_on_def)
  then have "transcript_rows_error ts (w\<lparr>w_ext := e\<rparr>) = None"
    using assms(4,5) ids rows mem by (auto simp: transcript_rows_error_def split: if_splits)
  moreover have "call_row_error ?c (w\<lparr>w_ext := e\<rparr>) = None"
    using assms(3) by (auto simp: call_row_error_def split: if_splits option.splits)
  ultimately have "commit_call rt ?c ts (w\<lparr>w_ext := e\<rparr>) =
      (Inr (), (replace_call ?c (w\<lparr>w_ext := e\<rparr>))\<lparr>w_transcripts := w_transcripts w @ ts\<rparr>)"
    using c mem assms(1) by (simp add: commit_call_def answers_op)
  moreover obtain v where "try_prog (lift_ext (enqueue i)) (\<lambda>e. ret ())
      ((replace_call ?c (w\<lparr>w_ext := e\<rparr>))\<lparr>w_transcripts := w_transcripts w @ ts\<rparr>) = (Inr (), v)"
    by (rule exE [OF suppressed_returns])
  ultimately show ?thesis using ts assms(1,2)
    by (simp add: finalize_call_def get_call_def query_def answers_op bind_prog_apply)
qed

section \<open>The start of a call\<close>

lemma get_or_create_returns:
  assumes "answers rt" and "length phone \<le> 32" and "rt_uuid rt (w_ext w) = (i, e)"
    and "i \<notin> cl_id ` set (w_clients w)"
  shows "\<exists>c w'. get_or_create_client rt phone w = (Inr c, w') \<and> w_calls w' = w_calls w \<and>
    cl_id c \<in> cl_id ` set (w_clients w')"
proof (cases "find (\<lambda>c. cl_phone_number c = phone) (w_clients w)")
  case (Some c)
  then show ?thesis
    using get_or_create_found [OF _ Some, of rt] assms(1) find_mem [OF Some] by (auto simp: answers_def)
next
  case None
  then have "phone \<notin> cl_phone_number ` set (w_clients w)" by (auto simp: find_None_iff)
  then have "client_row_error (new_client i phone) (w\<lparr>w_ext := e\<rparr>) = None"
    using assms(2,4) by (simp add: client_row_error_def new_client_def fits_def)
  moreover have "find (\<lambda>c. cl_id c = i) (w_clients w @ [new_client i phone]) = Some (new_client i phone)"
    using assms(4) by (subst find_fresh) (auto simp: new_client_def)
  ultimately show ?thesis
    using None assms(1,3)
    by (simp add: get_or_create_client_def query_def answers_op bind_prog_apply new_uuid_draw
        insert_client_def refresh_client_def get_client_def new_client_def)
qed

text \<open>
  What a deployment must give before a call: valid settings with the name of a level and a DSN that
  Sentry takes, a known zone, and clients of the model and of the booking tools that can be built.
\<close>

definition configured :: "'w platform \<Rightarrow> settings \<Rightarrow> bool" where
  "configured pf s \<longleftrightarrow> validated s = Inr s \<and> level_known s \<and> dsn_accepted (pf_sentry pf) s \<and>
     (\<forall>w. \<exists>t. build_temporal_context (pf_zoneinfo pf) (booking_timezone s) (utc_now (pf_runtime pf) w) = Inr t) \<and>
     (\<forall>b. open_llm (pf_extras pf) b = None) \<and> (\<forall>e. build_booking_tools (pf_extras pf) s \<noteq> Inl e)"

text \<open>The room connects, the model that detects speech loads, and the two identifiers are new.\<close>

definition can_answer :: "'w platform \<Rightarrow> settings \<Rightarrow> 'w world \<Rightarrow> bool" where
  "can_answer pf s w \<longleftrightarrow> (\<exists>e0 i e1 e2. pf_connect_room pf (w_ext w) = (Inr (), e0) \<and>
     rt_uuid (pf_runtime pf) e0 = (i, e1) \<and> i \<notin> ca_id ` set (w_calls w) \<and>
     pf_load_vad pf (vad_min_silence_duration_seconds s) e1 = (Inr (), e2) \<and>
     fresh_ids (pf_runtime pf) 1 e2 (cl_id ` set (w_clients w)))"

lemma start_conversation_returns:
  assumes "configured pf s"
  shows "\<exists>lc. start_conversation pf s i cid w = Inr lc"
proof -
  obtain t where t: "build_temporal_context (pf_zoneinfo pf) (booking_timezone s) (utc_now (pf_runtime pf) w) = Inr t"
    using assms unfolding configured_def by blast
  obtain b where b: "get_llm_provider (pf_extras pf) s = Inr b"
    using get_llm_provider_matches [of s "pf_extras pf"] assms by (auto simp: configured_def construct_def)
  obtain tools ex where tools: "call_tools pf s i cid = Inr (tools, ex)" "truthy_list tools \<longleftrightarrow> ex \<noteq> None"
  proof (cases cid)
    case None
    then show thesis using that by (simp add: call_tools_def)
  next
    case (Some c)
    obtain parts where "build_booking_tools (pf_extras pf) s = Inr parts"
      using assms by (cases "build_booking_tools (pf_extras pf) s") (auto simp: configured_def)
    moreover have "booking_tool_definitions \<noteq> []" by (simp add: booking_tool_definitions_def)
    ultimately show thesis using Some that by (cases parts) (simp_all add: call_tools_def)
  qed
  then show ?thesis using t b by (auto simp: start_conversation_def conv_init_def)
qed

lemma register_call_returns:
  assumes "answers rt" and "length room \<le> 255" and "\<forall>p. phone = Some p \<longrightarrow> length p \<le> 32"
    and "i \<notin> ca_id ` set (w_calls w)" and "fresh_ids rt 1 (w_ext w) (cl_id ` set (w_clients w))"
  shows "\<exists>cid w1. register_call rt i room phone w = (Inr cid, w1)"
proof -
  obtain j e where j: "rt_uuid rt (w_ext w) = (j, e)" "j \<notin> cl_id ` set (w_clients w)"
    using assms(5) by (cases "rt_uuid rt (w_ext w)") simp
  have row: "ca_id (call_row i cid room d) = i" for cid d by (simp add: call_row_def)
  show ?thesis
  proof (cases phone)
    case None
    have "call_row_error (call_row i None room d) v = None" for d and v :: "'a world"
      using assms(2) by (simp add: call_row_error_def call_row_def)
    then show ?thesis using None assms(1,4) row
      by (simp add: register_call_def insert_call_def answers_op bind_prog_apply)
  next
    case (Some p)
    obtain c v where c: "get_or_create_client rt p w = (Inr c, v)" "w_calls v = w_calls w"
      "cl_id c \<in> cl_id ` set (w_clients v)"
      using get_or_create_returns [of rt p w j e] assms(1,3) Some j by auto
    then have "call_row_error (call_row i (Some (cl_id c)) room d) v = None" for d
      using assms(2) by (simp add: call_row_error_def call_row_def)
    then show ?thesis using Some assms(1,4) c row
      by (simp add: register_call_def insert_call_def answers_op bind_prog_apply)
  qed
qed

lemma start_call_returns:
  assumes "answers (pf_runtime pf)" and "configured pf s" and "length room \<le> 255"
    and "\<forall>p. caller_phone_number participants = Some p \<longrightarrow> length p \<le> 32" and "can_answer pf s w"
  shows "\<exists>lc w1. start_call pf s room participants w = (Inr lc, w1)"
proof -
  let ?rt = "pf_runtime pf"
  from assms(5) obtain e0 i e1 e2 where e: "pf_connect_room pf (w_ext w) = (Inr (), e0)"
    "rt_uuid ?rt e0 = (i, e1)" "pf_load_vad pf (vad_min_silence_duration_seconds s) e1 = (Inr (), e2)"
    and new: "i \<notin> ca_id ` set (w_calls w)" "fresh_ids ?rt 1 e2 (cl_id ` set (w_clients w))"
    by (auto simp: can_answer_def)
  obtain cid w1 where "register_call ?rt i room (caller_phone_number participants) (w\<lparr>w_ext := e2\<rparr>) = (Inr cid, w1)"
    using register_call_returns [OF assms(1,3,4), of i "w\<lparr>w_ext := e2\<rparr>"] new by auto
  moreover obtain lc where "start_conversation pf s i cid w1 = Inr lc"
    using start_conversation_returns [OF assms(2)] by blast
  ultimately show ?thesis using e
    by (simp add: start_call_def answer_call_def prepare_call_def bind_prog_apply lift_ext_def new_uuid_draw)
qed

section \<open>Properties\<close>


text \<open>A first call, of a number that is no client yet, over the platform that says hello.\<close>

definition first_world :: "string list world" where
  "first_world = (ann_world [])\<lparr>w_clients := []\<rparr>"

lemma hello_configured: "configured hello_platform hello_settings"
proof -
  have "validated hello_settings = Inr hello_settings" "level_known hello_settings" by code_simp+
  moreover have "dsn_accepted (pf_sentry hello_platform) hello_settings"
    "build_booking_tools (pf_extras hello_platform) hello_settings = Inr None"
    "open_llm (pf_extras hello_platform) b = None" for b
    by (simp_all add: dsn_accepted_def hello_platform_def hello_extras_def hello_settings_def default_settings_def
        build_booking_tools_def get_calendar_provider_def)
  ultimately show ?thesis using hello_temporal by (simp add: configured_def hello_platform_def)
qed

lemma hello_runtime: "pf_runtime hello_platform = fresh_runtime" "answers fresh_runtime"
  by (simp_all add: hello_platform_def answers_def fresh_runtime_def)

lemma hello_answers: "can_answer hello_platform hello_settings first_world"
  by (simp add: can_answer_def hello_platform_def fresh_runtime_def first_world_def ann_world_def)

lemma hello_conversation:
  assumes "start_call hello_platform hello_settings ''room'' participants first_world = (Inr lc, w1)"
  shows "length (spoken_lines (cs_history (call_conversation hello_platform hello_settings [Streamed ''hi''] lc))) = 2"
proof -
  have new: "answer_call hello_platform first_world = (Inr 0, first_world\<lparr>w_ext := [''uuid'']\<rparr>)"
    by (simp add: answer_call_def hello_platform_def lift_ext_def bind_prog_apply new_uuid_def fresh_runtime_def
        first_world_def ann_world_def)
  from assms obtain cid where "start_conversation hello_platform hello_settings 0 cid w1 = Inr lc"
    by (auto simp: start_call_def prepare_call_def new elim!: bind_progE)
  with hello_starts [of cid w1] obtain sp where "lc_config lc = hello_config sp" "lc_state lc = hello_state w1"
    by auto
  then have "cs_history (call_conversation hello_platform hello_settings [Streamed ''hi''] lc) =
      [text_message USER ''hi'', text_message ASSISTANT ''hello'']"
    by (simp add: hello_voice run_call_def hello_is_answered)
  moreover have "length (spoken_lines [text_message USER ''hi'', text_message ASSISTANT ''hello'']) = 2"
    by code_simp
  ultimately show ?thesis by simp
qed


end
