(* ===== verification/Escalation.thy ===== *)
theory Escalation
  imports Agent_Thms Worker_Thms
begin

text \<open>
  From a reply to the telephone network: the agent's turn (\<^verbatim>\<open>OpenVoiceAgent.llm_node\<close>) together with
  the transfer task that it starts (\<^verbatim>\<open>_transfer_to_human\<close> with the call's room and the configured
  number). The task runs beside the speech of the reply; here it runs after the last chunk.
\<close>

definition agent_turn ::
  "'w livekit_api \<Rightarrow> settings \<Rightarrow> string \<Rightarrow> 'w world conv_config \<Rightarrow> chat_item list \<Rightarrow> 'w world conv_state
   \<Rightarrow> ((chat_chunk list \<times> exc option) \<times> transfer_outcome res option) \<times> 'w world conv_state" where
  "agent_turn lk s room c messages st =
     (let ((out, started), t) = llm_node c True messages st
      in if started
         then (case lift_ext (on_transfer_to_human lk s room) (cs_world t) of
             (r, w) \<Rightarrow> ((out, Some r), t\<lparr>cs_world := w\<rparr>))
         else ((out, None), t))"

text \<open>
  LiveKit can transfer a caller: the API opens, the room is there with a SIP participant, the transfer
  is accepted, the API closes.
\<close>

definition can_transfer :: "'w livekit_api \<Rightarrow> string \<Rightarrow> string \<Rightarrow> 'w \<Rightarrow> 'w \<Rightarrow> bool" where
  "can_transfer lk room number e e' \<longleftrightarrow>
     (\<exists>e1 e2 e3 e4 rooms ps identity. lk_open lk e = (Inr (), e1) \<and> lk_list_rooms lk room e1 = (Inr rooms, e2) \<and>
        rooms \<noteq> [] \<and> lk_list_participants lk room e2 = (Inr ps, e3) \<and> find fst ps = Some (True, identity) \<and>
        lk_transfer_sip_participant lk room identity (''tel:'' @ number) e3 = (Inr (), e4) \<and>
        lk_aclose lk e4 = (Inr (), e'))"

lemma transfer_succeeds:
  "can_transfer lk room number e e' \<Longrightarrow> transfer_to_human lk room (Some number) e = (Inr Transferred, e')"
  by (auto simp: can_transfer_def transfer_to_human_def try_prog_apply bind_prog_apply finally_prog_def
      transfer_in_room_def)

lemma transfer_returns: "\<exists>outcome e'. transfer_to_human lk room number e = (Inr outcome, e')"
proof (cases number)
  case None
  then show ?thesis by (simp add: transfer_to_human_def)
next
  case (Some n)
  then show ?thesis by (auto simp: transfer_to_human_def try_prog_apply split: prod.split sum.split)
qed

text \<open>Why a turn needs a human.\<close>

definition needs_human :: "'w conv_config \<Rightarrow> 'w conv_state \<Rightarrow> agent_reply \<Rightarrow> bool" where
  "needs_human c st r \<longleftrightarrow>
     is_transfer_intent (reply_intent r) \<or> r = fallback_reply \<or> call_limit_reached c st"

lemma needed_human_is_called:
  assumes "llm_node c True messages st = (((chunks, None), started), t)"
    and "filter (\<lambda>m. ci_role m = ''user'') messages \<noteq> []"
  shows "\<exists>r. cs_last_reply t = Some r \<and> speaks (map cch_content chunks) r \<and>
    (started \<longleftrightarrow> agent_reply.transfer_to_human r) \<and> (needs_human c st r \<longrightarrow> started)"
proof -
  from llm_node_outcome [OF assms(1)] assms(2) obtain r where r: "cs_last_reply t = Some r"
    "speaks (map cch_content chunks) r" "started \<longleftrightarrow> agent_reply.transfer_to_human r"
    "is_transfer_intent (reply_intent r) \<longrightarrow> agent_reply.transfer_to_human r" "call_limit_reached c st \<longrightarrow> started"
    by auto
  moreover have "agent_reply.transfer_to_human fallback_reply" by (simp add: fallback_reply_def mk_reply_def)
  ultimately show ?thesis unfolding needs_human_def by blast
qed

section \<open>Property\<close>

text \<open>
  (C39) A caller who needs a human gets one: in a turn without an exception, when the reply names an
  urgent issue or a human, the provider failed, or the call is over its limits, and LiveKit can
  transfer the caller to the configured number, the caller hears the reply and is transferred to that
  number; when the reply asks for nobody, LiveKit is not touched; and the transfer itself never raises.
\<close>

theorem who_needs_a_human_is_transferred:
  assumes "agent_turn lk s room c messages st = (((chunks, None), outcome), t)"
    and "filter (\<lambda>m. ci_role m = ''user'') messages \<noteq> []"
  shows "\<exists>r u. llm_node c True messages st = (((chunks, None), outcome \<noteq> None), u) \<and>
    cs_last_reply t = Some r \<and> speaks (map cch_content chunks) r \<and>
    (if outcome = None then \<not> needs_human c st r \<and> t = u
     else (\<exists>result. outcome = Some (Inr result)) \<and>
       (\<forall>number e. agent_human_transfer_number s = Some number \<and>
          can_transfer lk room number (w_ext (cs_world u)) e \<longrightarrow>
          outcome = Some (Inr Transferred) \<and> t = u\<lparr>cs_world := (cs_world u)\<lparr>w_ext := e\<rparr>\<rparr>))"
proof -
  obtain out started u where turn: "llm_node c True messages st = ((out, started), u)" by (metis prod.collapse)
  obtain result e' where tr: "transfer_to_human lk room (agent_human_transfer_number s) (w_ext (cs_world u))
      = (Inr result, e')"
    using transfer_returns [of lk room "agent_human_transfer_number s" "w_ext (cs_world u)"] by (elim exE)
  from assms(1) turn tr have parts: "out = (chunks, None)" "started \<longleftrightarrow> outcome \<noteq> None"
    "t = (if started then u\<lparr>cs_world := (cs_world u)\<lparr>w_ext := e'\<rparr>\<rparr> else u)"
    "started \<longrightarrow> outcome = Some (Inr result)"
    by (auto simp: agent_turn_def lift_ext_def on_transfer_to_human_def split: if_splits)
  with turn needed_human_is_called [OF _ assms(2)] obtain r where
    "cs_last_reply u = Some r" "speaks (map cch_content chunks) r" "needs_human c st r \<longrightarrow> started" by blast
  moreover have "result = Transferred \<and> e = e'"
    if "agent_human_transfer_number s = Some number" "can_transfer lk room number (w_ext (cs_world u)) e" for number e
    using transfer_succeeds [OF that(2)] that(1) tr by simp
  ultimately show ?thesis using turn parts by (intro exI [of _ r] exI [of _ u]) auto
qed

text \<open>Ann asks for help in a call whose model answers that the issue is urgent.\<close>

definition urgent_llm :: "string list llm_provider" where
  "urgent_llm =
     \<lparr>generate = (\<lambda>h sp mt tools. raise (LLMProviderError ''down'')),
      generate_stream = (\<lambda>h sp w. (([''Help comes.'' @ [CHR 0x0A] @ intent_marker @ ''urgent''], None), w))\<rparr>"

definition urgent_config :: "string list world conv_config" where
  "urgent_config = (hello_config [])\<lparr>cc_llm := lift_llm urgent_llm\<rparr>"

definition number_settings :: settings where
  "number_settings = hello_settings\<lparr>agent_human_transfer_number := Some ''+3''\<rparr>"

theorem who_needs_a_human_is_transferred_witness:
  "\<exists>chunks t. agent_turn open_room number_settings ''room'' urgent_config
      [\<lparr>ci_role = ''user'', ci_text_content = Some ''help''\<rparr>] (hello_state (ann_world [])) =
      (((chunks, None), Some (Inr Transferred)), t) \<and> w_ext (cs_world t) = [''ann'', ''tel:+3'']"
proof -
  let ?m = "[\<lparr>ci_role = ''user'', ci_text_content = Some ''help''\<rparr>]" and ?st = "hello_state (ann_world [])"
  let ?run = "agent_turn open_room number_settings ''room'' urgent_config ?m ?st"
  have "snd (fst ?run) \<noteq> None" "snd (fst (fst ?run)) = None" by code_simp+
  moreover have "\<exists>a b d. x = (((a, None), Some b), d)" if "snd (fst x) \<noteq> None" "snd (fst (fst x)) = None"
    for x :: "((chat_chunk list \<times> exc option) \<times> transfer_outcome res option) \<times> string list world conv_state"
    using that by (cases x) auto
  ultimately obtain chunks r t where run: "?run = (((chunks, None), Some r), t)" by blast
  from who_needs_a_human_is_transferred [OF run] obtain u where
    u: "llm_node urgent_config True ?m ?st = (((chunks, None), True), u)"
    and then_transferred: "\<forall>number e. agent_human_transfer_number number_settings = Some number \<and>
      can_transfer open_room ''room'' number (w_ext (cs_world u)) e \<longrightarrow>
      r = Inr Transferred \<and> t = u\<lparr>cs_world := (cs_world u)\<lparr>w_ext := e\<rparr>\<rparr>" by auto
  have "w_ext (cs_world (snd (llm_node urgent_config True ?m ?st))) = []" by code_simp
  then have "can_transfer open_room ''room'' ''+3'' (w_ext (cs_world u)) [''ann'', ''tel:+3'']"
    using u by (simp add: can_transfer_def open_room_def)
  moreover have "agent_human_transfer_number number_settings = Some ''+3''" by (simp add: number_settings_def)
  ultimately show ?thesis using then_transferred run by auto
qed

end
