(* ===== verification/Metrics.thy ===== *)
theory Metrics
  imports Worker
begin

text \<open>
  \<^verbatim>\<open>openvoice/metrics.py\<close>: the metrics of a worker process, and the calls of \<open>Worker\<close> with the
  places where they are counted. The counts of a metric with labels are a list, one entry for each
  increment; of the durations the number of observations is kept.
\<close>

section \<open>Counting\<close>

record metrics =
  mt_calls_started :: nat
  mt_calls_completed :: "string list"
  mt_call_durations :: nat
  mt_llm_errors :: nat
  mt_tool_calls :: "(string \<times> string) list"

definition new_metrics :: metrics where
  "new_metrics = \<lparr>mt_calls_started = 0, mt_calls_completed = [], mt_call_durations = 0,
     mt_llm_errors = 0, mt_tool_calls = []\<rparr>"

text \<open>What the conversation of a call has counted, which began with none.\<close>

definition count_conversation :: "'w conv_state \<Rightarrow> metrics \<Rightarrow> metrics" where
  "count_conversation st m = m\<lparr>mt_llm_errors := mt_llm_errors m + cs_llm_errors st,
     mt_tool_calls := mt_tool_calls m @ cs_tool_outcomes st\<rparr>"

definition count_completed :: "metrics \<Rightarrow> metrics" where
  "count_completed m = m\<lparr>mt_calls_completed := mt_calls_completed m @ [''completed''],
     mt_call_durations := Suc (mt_call_durations m)\<rparr>"

record incoming_call =
  ic_room :: string
  ic_participants :: "participant_attributes list"
  ic_events :: "call_event list"

definition measured_call ::
  "'w platform \<Rightarrow> settings \<Rightarrow> (uuid \<Rightarrow> ('w, unit) prog) \<Rightarrow> incoming_call \<Rightarrow> (metrics \<times> 'w world, bool) prog" where
  "measured_call pf s enqueue call =
     (\<lambda>(m, w). case answer_call pf w of
         (Inl e, w0) \<Rightarrow> (Inl e, (m, w0))
       | (Inr call_id, w0) \<Rightarrow>
           (let m1 = m\<lparr>mt_calls_started := Suc (mt_calls_started m)\<rparr>
            in case prepare_call pf s (ic_room call) (ic_participants call) call_id w0 of
                 (Inl e, w1) \<Rightarrow> (Inl e, (m1, w1))
               | (Inr lc, w1) \<Rightarrow>
                   (let st = call_conversation pf s (ic_events call) lc; m2 = count_conversation st m1
                    in case finalize_call (pf_runtime pf) enqueue (lc_call_id lc) (cs_history st) (cs_world st) of
                         (r, w2) \<Rightarrow> (r, (if r = Inr True then count_completed m2 else m2, w2)))))"

text \<open>The calls that a process answers, one after the other; a call that fails does not end the process.\<close>

fun measured_calls ::
  "'w platform \<Rightarrow> settings \<Rightarrow> (uuid \<Rightarrow> ('w, unit) prog) \<Rightarrow> incoming_call list \<Rightarrow> metrics \<times> 'w world \<Rightarrow> metrics \<times> 'w world" where
  "measured_calls pf s enqueue [] mw = mw"
| "measured_calls pf s enqueue (c # cs) mw = measured_calls pf s enqueue cs (snd (measured_call pf s enqueue c mw))"

section \<open>At most one error of the model for an utterance\<close>

lemma run_tools_errors [simp]: "cs_llm_errors (run_tools c tcs s) = cs_llm_errors s"
proof (induction tcs arbitrary: s)
  case (Cons tc tcs)
  then show ?case by (simp add: execute_tool_def Let_def split: prod.split)
qed simp

lemma finish_turn_errors [simp]: "cs_llm_errors (snd (finish_turn c t i s)) = cs_llm_errors s"
  by (simp add: finish_turn_def Let_def split: sum.split)

lemma tool_loop_errors: "cs_llm_errors (snd (tool_loop c ts n s)) \<le> Suc (cs_llm_errors s)"
proof (induction n arbitrary: s)
  case 0
  show ?case by (simp add: drop_turn_def)
next
  case (Suc n)
  obtain r w where g: "generate (cc_llm c) (cs_history s) (Some (cc_system_prompt c)) 1024 (cc_tools c) (cs_world s) = (r, w)"
    by fastforce
  show ?case
  proof (cases r)
    case (Inl e)
    with g show ?thesis by (cases e) (simp_all add: drop_turn_def)
  next
    case (Inr response)
    show ?thesis
    proof (cases "truthy_list (r_tool_calls response)")
      case True
      with g Inr show ?thesis using Suc [of "run_tools c (the (r_tool_calls response))
          (s\<lparr>cs_world := w, cs_history := cs_history s
             @ [tool_request_message (r_content response) (r_tool_calls response)]\<rparr>)"] by simp
    next
      case False
      with g Inr show ?thesis by (simp split: prod.split)
    qed
  qed
qed

lemma begin_turn_errors [simp]: "cs_llm_errors (begin_turn t s) = cs_llm_errors s"
  by (simp add: begin_turn_def)

lemma utterance_errors: "cs_llm_errors (snd (handle_utterance c t s)) \<le> Suc (cs_llm_errors s)"
  using tool_loop_errors [of c _ _ "begin_turn t s"] by (simp add: handle_utterance_def)

lemma stream_errors: "cs_llm_errors (snd (handle_utterance_stream c t s)) \<le> Suc (cs_llm_errors s)"
proof (cases "cc_tools c \<noteq> None")
  case True
  with utterance_errors [of c t s] show ?thesis
    by (auto simp: handle_utterance_stream_def split: prod.split sum.split)
next
  case False
  obtain d f w where g: "generate_stream (cc_llm c) (cs_history (begin_turn t s)) (Some (cc_system_prompt c))
      (cs_world (begin_turn t s)) = ((d, f), w)" by (metis prod.collapse)
  obtain outs x where fed: "feed_all new_extractor d = (outs, x)" by fastforce
  obtain full trailing i y where fin: "finalize x = ((full, trailing, i), y)" by (metis prod.collapse)
  obtain r s3 where ft: "finish_turn c full i ((begin_turn t s)\<lparr>cs_world := w\<rparr>) = (r, s3)" by fastforce
  then have "cs_llm_errors s3 = cs_llm_errors s" using finish_turn_errors by (metis begin_turn_errors conv_state.select_convs(4) conv_state.surjective conv_state.update_convs(6) snd_conv)
  with False g fed fin ft show ?thesis
    by (auto simp: handle_utterance_stream_def Let_def drop_turn_def split: option.split exc.split sum.split)
qed

lemma loop_waiting_errors [simp]: "loop_waiting c k s = Some s' \<Longrightarrow> cs_llm_errors s' = cs_llm_errors s"
  by (induction k arbitrary: s) (auto split: prod.splits sum.splits if_splits)

lemma loop_cancelled_errors [simp]: "loop_cancelled c k j s = Some s' \<Longrightarrow> cs_llm_errors s' = cs_llm_errors s"
  by (induction k arbitrary: s)
    (subst (asm) loop_cancelled.simps, auto simp: Let_def split: prod.splits sum.splits if_splits)+

text \<open>An interruption counts no error.\<close>

lemma event_errors: "cs_llm_errors (event_step c ev s) \<le> Suc (cs_llm_errors s)"
proof (cases ev)
  case (Request_Cut x k)
  then show ?thesis
    by (auto simp: request_cut_def cancelled_in_request_def split: option.split if_splits)
next
  case (Tool_Cut x k j b)
  then show ?thesis
    by (auto simp: tool_cut_def cancelled_in_tools_def split: option.split if_splits)
qed (simp_all add: utterance_errors stream_errors stream_cut_def abandon_stream_def)

lemma call_errors_bound: "cs_llm_errors (run_call c evs s) \<le> cs_llm_errors s + length evs"
proof (induction evs arbitrary: s)
  case Nil
  show ?case by (simp add: run_call_def)
next
  case (Cons ev evs)
  have "run_call c (ev # evs) s = run_call c evs (event_step c ev s)" by (simp add: run_call_def)
  with Cons [of "event_step c ev s"] event_errors [of c ev s] show ?case by simp
qed

lemma call_errors:
  assumes "prepare_call pf s room participants i w = (Inr lc, w1)"
  shows "cs_llm_errors (call_conversation pf s evs lc) \<le> length evs"
proof -
  from assms obtain cid w0 where "start_conversation pf s i cid w0 = Inr lc"
    by (auto simp: prepare_call_def bind_prog_Inr)
  then have "cs_llm_errors (lc_state lc) = 0"
    by (auto simp: start_conversation_def bind_res_Inr conv_init_def split: if_splits)
  then show ?thesis
    using call_errors_bound [of "lc_config lc" evs "lc_state lc"] by (simp add: call_conversation_def split: sum.split)
qed

section \<open>The metrics of a process\<close>

text \<open>Measuring a call does not change it, and counts it at its start and at its end.\<close>

lemma measured_call_result:
  assumes "measured_call pf s enqueue c (m, w) = (r, (m', w'))"
  shows "serve_call pf s (ic_room c) (ic_participants c) enqueue (ic_events c) w = (r, w')"
    and "mt_calls_started m' = mt_calls_started m + (case fst (answer_call pf w) of Inl e \<Rightarrow> 0 | Inr i \<Rightarrow> 1)"
    and "mt_calls_completed m' = mt_calls_completed m @ (if r = Inr True then [''completed''] else [])"
    and "mt_call_durations m' = mt_call_durations m + (if r = Inr True then 1 else 0)"
    and "mt_llm_errors m' \<le> mt_llm_errors m + length (ic_events c)"
    and "r = Inr True \<Longrightarrow> mt_calls_started m' = Suc (mt_calls_started m)"
proof -
  obtain x w0 where answer: "answer_call pf w = (x, w0)" by fastforce
  have errors: "cs_llm_errors (call_conversation pf s (ic_events c) lc) \<le> length (ic_events c)"
    if "prepare_call pf s (ic_room c) (ic_participants c) i w0 = (Inr lc, w1)" for i lc w1
    using call_errors that by blast
  show "serve_call pf s (ic_room c) (ic_participants c) enqueue (ic_events c) w = (r, w')"
    and "mt_calls_started m' = mt_calls_started m + (case fst (answer_call pf w) of Inl e \<Rightarrow> 0 | Inr i \<Rightarrow> 1)"
    and "mt_calls_completed m' = mt_calls_completed m @ (if r = Inr True then [''completed''] else [])"
    and "mt_call_durations m' = mt_call_durations m + (if r = Inr True then 1 else 0)"
    and "mt_llm_errors m' \<le> mt_llm_errors m + length (ic_events c)"
    and "r = Inr True \<Longrightarrow> mt_calls_started m' = Suc (mt_calls_started m)"
    using assms answer errors
    by (auto simp: measured_call_def serve_call_def start_call_def Let_def bind_prog_apply count_completed_def
        count_conversation_def split: sum.splits prod.splits if_splits)
qed

text \<open>
  In every process at most each call is counted as started, each completed call has one duration, no
  more calls complete than start, and the errors of the model are at most the utterances.
\<close>

theorem metrics_are_consistent:
  assumes "measured_calls pf s enqueue cs (new_metrics, w) = (m, w')"
  shows "mt_calls_started m \<le> length cs \<and> mt_call_durations m = length (mt_calls_completed m) \<and>
    set (mt_calls_completed m) \<subseteq> {''completed''} \<and> length (mt_calls_completed m) \<le> mt_calls_started m \<and>
    mt_llm_errors m \<le> sum_list (map (\<lambda>c. length (ic_events c)) cs)"
proof -
  have "mt_calls_started m \<le> mt_calls_started m0 + length cs \<and>
      mt_call_durations m + length (mt_calls_completed m0) = mt_call_durations m0 + length (mt_calls_completed m) \<and>
      set (mt_calls_completed m) \<subseteq> set (mt_calls_completed m0) \<union> {''completed''} \<and>
      length (mt_calls_completed m) + mt_calls_started m0 \<le> length (mt_calls_completed m0) + mt_calls_started m \<and>
      mt_llm_errors m \<le> mt_llm_errors m0 + sum_list (map (\<lambda>c. length (ic_events c)) cs)"
    if "measured_calls pf s enqueue cs (m0, w) = (m, w')" for m0 w
    using that
  proof (induction cs arbitrary: m0 w)
    case (Cons c cs)
    obtain r m1 w1 where step: "measured_call pf s enqueue c (m0, w) = (r, (m1, w1))" by (metis prod.collapse)
    from measured_call_result [OF this] Cons.IH [of m1 w1] Cons.prems step show ?case
      by (auto split: if_splits sum.splits)
  qed auto
  from this [OF assms] show ?thesis by (simp add: new_metrics_def)
qed

end
