(* ===== verification/Schema.thy ===== *)
theory Schema
  imports CRM
begin

text \<open>
  The database schema: what the SQLAlchemy models of \<^verbatim>\<open>openvoice/db\<close> declare and what the Alembic
  migrations of \<^verbatim>\<open>migrations/versions\<close> do, as operations on a database of tables, indexes and rows.
  Alembic, SQLAlchemy's naming and PostgreSQL's constraints are modelled as far as these files use
  them; a statement that PostgreSQL refuses is a \<^verbatim>\<open>DBAPIError\<close> and leaves the database unchanged,
  because \<^verbatim>\<open>migrations/env.py\<close> runs a migration in a transaction.
\<close>

section \<open>Tables, indexes, rows\<close>

datatype column_type = UUID_Type | String_Type nat | Text_Type | Timestamptz_Type | Integer_Type

datatype on_delete = SET_NULL | CASCADE

record foreign_key =
  fk_table :: string
  fk_column :: string
  fk_ondelete :: on_delete

record column =
  co_name :: string
  co_type :: column_type
  co_nullable :: bool
  co_server_default :: "string option"

text \<open>\<open>Greater a b\<close> is the check \<^verbatim>\<open>a > b\<close>.\<close>

datatype constraint =
    Primary_Key "string list"
  | Unique "string list"
  | Foreign_Key string foreign_key
  | Greater string string

record table =
  tb_columns :: "column list"
  tb_constraints :: "(string \<times> constraint) list"

record db_index =
  ix_table :: string
  ix_columns :: "string list"
  ix_unique :: bool

datatype cell = Null | C_UUID uuid | C_String string | C_Instant int | C_Integer int

type_synonym row = "string \<Rightarrow> cell"

record database =
  db_tables :: "(string \<times> table) list"
  db_indexes :: "(string \<times> db_index) list"
  db_rows :: "string \<Rightarrow> row list"

definition empty_database :: database where
  "empty_database = \<lparr>db_tables = [], db_indexes = [], db_rows = (\<lambda>t. [])\<rparr>"

section \<open>Declarations of columns\<close>

text \<open>\<^verbatim>\<open>sa.Column\<close>, before the table names its constraints.\<close>

record column_decl =
  cd_column :: column
  cd_primary_key :: bool
  cd_unique :: bool
  cd_references :: "foreign_key option"

definition sa_column :: "string \<Rightarrow> column_type \<Rightarrow> bool \<Rightarrow> column_decl" where
  "sa_column name ty nullable =
     \<lparr>cd_column = \<lparr>co_name = name, co_type = ty, co_nullable = nullable, co_server_default = None\<rparr>,
      cd_primary_key = False, cd_unique = False, cd_references = None\<rparr>"

definition primary_key_column :: "string \<Rightarrow> column_decl" where
  "primary_key_column name = (sa_column name UUID_Type False)\<lparr>cd_primary_key := True\<rparr>"

definition now_column :: "string \<Rightarrow> column_decl" where
  "now_column name =
     (let c = sa_column name Timestamptz_Type False
      in c\<lparr>cd_column := (cd_column c)\<lparr>co_server_default := Some ''now()''\<rparr>\<rparr>)"

definition references_column :: "string \<Rightarrow> string \<Rightarrow> on_delete \<Rightarrow> bool \<Rightarrow> column_decl" where
  "references_column name target ondelete nullable =
     (sa_column name UUID_Type nullable)\<lparr>cd_references :=
        Some \<lparr>fk_table = target, fk_column = ''id'', fk_ondelete = ondelete\<rparr>\<rparr>"

text \<open>The constraints of a table, with the names PostgreSQL gives those that have none.\<close>

definition column_constraints :: "string \<Rightarrow> column_decl \<Rightarrow> (string \<times> constraint) list" where
  "column_constraints t d =
     (let c = co_name (cd_column d)
      in (if cd_primary_key d then [(t @ ''_pkey'', Primary_Key [c])] else [])
       @ (if cd_unique d then [(t @ ''_'' @ c @ ''_key'', Unique [c])] else [])
       @ (case cd_references d of None \<Rightarrow> []
          | Some fk \<Rightarrow> [(t @ ''_'' @ c @ ''_fkey'', Foreign_Key c fk)]))"

definition table_of :: "string \<Rightarrow> column_decl list \<Rightarrow> (string \<times> constraint) list \<Rightarrow> table" where
  "table_of t ds cs =
     \<lparr>tb_columns = map cd_column ds, tb_constraints = concat (map (column_constraints t) ds) @ cs\<rparr>"

section \<open>Statements of a migration\<close>

definition ddl_error :: "string \<Rightarrow> exc" where
  "ddl_error m = OtherError ''ProgrammingError'' m"

text \<open>Tables and indexes, also those behind unique constraints, share one name space.\<close>

definition index_backed :: "constraint \<Rightarrow> bool" where
  "index_backed c = (case c of Primary_Key _ \<Rightarrow> True | Unique _ \<Rightarrow> True | _ \<Rightarrow> False)"

definition relation_names :: "database \<Rightarrow> string list" where
  "relation_names db = map fst (db_tables db) @ map fst (db_indexes db)
     @ concat (map (\<lambda>(n, t). map fst (filter (\<lambda>(m, c). index_backed c) (tb_constraints t))) (db_tables db))"

text \<open>Rows in which one of the columns is null are never duplicates.\<close>

definition no_duplicates :: "string list \<Rightarrow> row list \<Rightarrow> bool" where
  "no_duplicates cs rs = distinct (filter (\<lambda>v. Null \<notin> set v) (map (\<lambda>r. map r cs) rs))"

definition foreign_keys :: "table \<Rightarrow> foreign_key list" where
  "foreign_keys t = concat (map (\<lambda>(n, c). case c of Foreign_Key _ fk \<Rightarrow> [fk] | _ \<Rightarrow> []) (tb_constraints t))"

definition create_table ::
  "string \<Rightarrow> column_decl list \<Rightarrow> (string \<times> constraint) list \<Rightarrow> database \<Rightarrow> database res" where
  "create_table name ds cs db =
     (let t = table_of name ds cs
      in if name \<in> set (relation_names db) then Inl (ddl_error ''relation already exists'')
         else if \<exists>fk \<in> set (foreign_keys t). fk_table fk \<notin> fst ` set (db_tables db)
         then Inl (ddl_error ''relation does not exist'')
         else Inr (db\<lparr>db_tables := db_tables db @ [(name, t)], db_rows := (db_rows db)(name := [])\<rparr>))"

definition create_index :: "string \<Rightarrow> string \<Rightarrow> string list \<Rightarrow> bool \<Rightarrow> database \<Rightarrow> database res" where
  "create_index name t cs unique db =
     (if name \<in> set (relation_names db) then Inl (ddl_error ''relation already exists'')
      else case map_of (db_tables db) t of
          None \<Rightarrow> Inl (ddl_error ''relation does not exist'')
        | Some tb \<Rightarrow>
            if \<not> set cs \<subseteq> co_name ` set (tb_columns tb) then Inl (ddl_error ''column does not exist'')
            else if unique \<and> \<not> no_duplicates cs (db_rows db t)
            then Inl (IntegrityError ''could not create unique index'')
            else Inr (db\<lparr>db_indexes := db_indexes db @
                 [(name, \<lparr>ix_table = t, ix_columns = cs, ix_unique = unique\<rparr>)]\<rparr>))"

definition set_table :: "string \<Rightarrow> table \<Rightarrow> (string \<times> table) list \<Rightarrow> (string \<times> table) list" where
  "set_table name tb = map (\<lambda>(n, x). if n = name then (n, tb) else (n, x))"

definition create_unique_constraint ::
  "string \<Rightarrow> string \<Rightarrow> string list \<Rightarrow> database \<Rightarrow> database res" where
  "create_unique_constraint name t cs db =
     (if name \<in> set (relation_names db) then Inl (ddl_error ''relation already exists'')
      else case map_of (db_tables db) t of
          None \<Rightarrow> Inl (ddl_error ''relation does not exist'')
        | Some tb \<Rightarrow>
            if \<not> set cs \<subseteq> co_name ` set (tb_columns tb) then Inl (ddl_error ''column does not exist'')
            else if \<not> no_duplicates cs (db_rows db t)
            then Inl (IntegrityError ''could not create unique index'')
            else Inr (db\<lparr>db_tables := set_table t
                 (tb\<lparr>tb_constraints := tb_constraints tb @ [(name, Unique cs)]\<rparr>) (db_tables db)\<rparr>))"

text \<open>Of a constraint on which no foreign key rests, as the one revision 0002 drops.\<close>

definition drop_constraint :: "string \<Rightarrow> string \<Rightarrow> database \<Rightarrow> database res" where
  "drop_constraint name t db =
     (case map_of (db_tables db) t of
        None \<Rightarrow> Inl (ddl_error ''relation does not exist'')
      | Some tb \<Rightarrow>
          if name \<notin> fst ` set (tb_constraints tb) then Inl (ddl_error ''constraint does not exist'')
          else Inr (db\<lparr>db_tables := set_table t
               (tb\<lparr>tb_constraints := filter (\<lambda>(n, c). n \<noteq> name) (tb_constraints tb)\<rparr>) (db_tables db)\<rparr>))"

definition drop_index :: "string \<Rightarrow> database \<Rightarrow> database res" where
  "drop_index name db =
     (if name \<notin> fst ` set (db_indexes db) then Inl (ddl_error ''index does not exist'')
      else Inr (db\<lparr>db_indexes := filter (\<lambda>(n, i). n \<noteq> name) (db_indexes db)\<rparr>))"

text \<open>Without \<^verbatim>\<open>CASCADE\<close>: a table that another one references stays.\<close>

definition drop_table :: "string \<Rightarrow> database \<Rightarrow> database res" where
  "drop_table name db =
     (if name \<notin> fst ` set (db_tables db) then Inl (ddl_error ''table does not exist'')
      else if \<exists>(n, t) \<in> set (db_tables db). n \<noteq> name \<and> name \<in> fk_table ` set (foreign_keys t)
      then Inl (ddl_error ''cannot drop table because other objects depend on it'')
      else Inr (db\<lparr>db_tables := filter (\<lambda>(n, t). n \<noteq> name) (db_tables db),
                   db_indexes := filter (\<lambda>(n, i). ix_table i \<noteq> name) (db_indexes db),
                   db_rows := (db_rows db)(name := [])\<rparr>))"

fun run_steps :: "(database \<Rightarrow> database res) list \<Rightarrow> database \<Rightarrow> database res" where
  "run_steps [] db = Inr db"
| "run_steps (s # ss) db = bind_res (s db) (run_steps ss)"

section \<open>Revision 0001\<close>

definition timestamp_columns :: "column_decl list" where
  "timestamp_columns = [now_column ''created_at'', now_column ''updated_at'']"

definition create_clients :: "database \<Rightarrow> database res" where
  "create_clients = create_table ''clients''
     ([primary_key_column ''id'',
       sa_column ''phone_number'' (String_Type 32) False,
       sa_column ''full_name'' (String_Type 255) True,
       sa_column ''email'' (String_Type 255) True,
       sa_column ''notes'' Text_Type True] @ timestamp_columns) []"

definition create_calls :: "database \<Rightarrow> database res" where
  "create_calls = create_table ''calls''
     ([primary_key_column ''id'',
       references_column ''client_id'' ''clients'' SET_NULL True,
       (sa_column ''livekit_room_name'' (String_Type 255) False)\<lparr>cd_unique := True\<rparr>,
       sa_column ''direction'' (String_Type 16) False,
       sa_column ''status'' (String_Type 32) False,
       now_column ''started_at'',
       sa_column ''ended_at'' Timestamptz_Type True,
       sa_column ''summary'' Text_Type True] @ timestamp_columns) []"

definition create_call_transcripts :: "database \<Rightarrow> database res" where
  "create_call_transcripts = create_table ''call_transcripts''
     ([primary_key_column ''id'',
       references_column ''call_id'' ''calls'' CASCADE False,
       sa_column ''sequence'' Integer_Type False,
       sa_column ''role'' (String_Type 16) False,
       sa_column ''text'' Text_Type False,
       now_column ''spoken_at''] @ timestamp_columns)
     [(''uq_call_transcript_sequence'', Unique [''call_id'', ''sequence''])]"

definition create_appointments :: "database \<Rightarrow> database res" where
  "create_appointments = create_table ''appointments''
     ([primary_key_column ''id'',
       references_column ''client_id'' ''clients'' CASCADE False,
       references_column ''call_id'' ''calls'' SET_NULL True,
       sa_column ''starts_at'' Timestamptz_Type False,
       sa_column ''ends_at'' Timestamptz_Type False,
       sa_column ''status'' (String_Type 16) False,
       sa_column ''calendar_event_id'' (String_Type 255) True,
       sa_column ''notes'' Text_Type True] @ timestamp_columns)
     [(''ck_appointment_ends_after_starts'', Greater ''ends_at'' ''starts_at'')]"

definition upgrade_0001 :: "database \<Rightarrow> database res" where
  "upgrade_0001 = run_steps
     [create_clients,
      create_index ''ix_clients_phone_number'' ''clients'' [''phone_number''] True,
      create_calls,
      create_index ''ix_calls_client_id'' ''calls'' [''client_id''] False,
      create_call_transcripts,
      create_index ''ix_call_transcripts_call_id'' ''call_transcripts'' [''call_id''] False,
      create_appointments,
      create_index ''ix_appointments_client_id'' ''appointments'' [''client_id''] False,
      create_index ''ix_appointments_call_id'' ''appointments'' [''call_id''] False]"

definition downgrade_0001 :: "database \<Rightarrow> database res" where
  "downgrade_0001 = run_steps
     [drop_table ''appointments'', drop_table ''call_transcripts'', drop_table ''calls'', drop_table ''clients'']"

section \<open>Revision 0002\<close>

definition upgrade_0002 :: "database \<Rightarrow> database res" where
  "upgrade_0002 = run_steps
     [drop_constraint ''calls_livekit_room_name_key'' ''calls'',
      create_index ''ix_calls_livekit_room_name'' ''calls'' [''livekit_room_name''] False]"

definition downgrade_0002 :: "database \<Rightarrow> database res" where
  "downgrade_0002 = run_steps
     [drop_index ''ix_calls_livekit_room_name'',
      create_unique_constraint ''calls_livekit_room_name_key'' ''calls'' [''livekit_room_name'']]"

section \<open>The models\<close>

text \<open>
  A mapped column and its \<^verbatim>\<open>index\<close> flag: SQLAlchemy names the index after table and column, and a
  column that is \<^verbatim>\<open>unique\<close> and indexed gets a unique index instead of a constraint. An
  \<^verbatim>\<open>Enum(native_enum=False, length=n)\<close> is a \<^verbatim>\<open>VARCHAR(n)\<close>.
\<close>

type_synonym mapped_column = "column_decl \<times> bool"

definition mapped_table :: "string \<Rightarrow> mapped_column list \<Rightarrow> (string \<times> constraint) list \<Rightarrow> table" where
  "mapped_table t ms cs =
     table_of t (map (\<lambda>(d, indexed). if indexed then d\<lparr>cd_unique := False\<rparr> else d) ms) cs"

definition mapped_indexes :: "string \<Rightarrow> mapped_column list \<Rightarrow> (string \<times> db_index) list" where
  "mapped_indexes t ms =
     map (\<lambda>(d, indexed). (''ix_'' @ t @ ''_'' @ co_name (cd_column d),
            \<lparr>ix_table = t, ix_columns = [co_name (cd_column d)], ix_unique = cd_unique d\<rparr>))
       (filter snd ms)"

definition mixin_columns :: "mapped_column list" where
  "mixin_columns = [(primary_key_column ''id'', False), (now_column ''created_at'', False),
     (now_column ''updated_at'', False)]"

definition client_columns :: "mapped_column list" where
  "client_columns = mixin_columns @
     [((sa_column ''phone_number'' (String_Type 32) False)\<lparr>cd_unique := True\<rparr>, True),
      (sa_column ''full_name'' (String_Type 255) True, False),
      (sa_column ''email'' (String_Type 255) True, False),
      (sa_column ''notes'' Text_Type True, False)]"

definition call_columns :: "mapped_column list" where
  "call_columns = mixin_columns @
     [(references_column ''client_id'' ''clients'' SET_NULL True, True),
      (sa_column ''livekit_room_name'' (String_Type 255) False, True),
      (sa_column ''direction'' (String_Type 16) False, False),
      (sa_column ''status'' (String_Type 32) False, False),
      (now_column ''started_at'', False),
      (sa_column ''ended_at'' Timestamptz_Type True, False),
      (sa_column ''summary'' Text_Type True, False)]"

definition transcript_columns :: "mapped_column list" where
  "transcript_columns = mixin_columns @
     [(references_column ''call_id'' ''calls'' CASCADE False, True),
      (sa_column ''sequence'' Integer_Type False, False),
      (sa_column ''role'' (String_Type 16) False, False),
      (sa_column ''text'' Text_Type False, False),
      (now_column ''spoken_at'', False)]"

definition transcript_table_args :: "(string \<times> constraint) list" where
  "transcript_table_args = [(''uq_call_transcript_sequence'', Unique [''call_id'', ''sequence''])]"

definition appointment_columns :: "mapped_column list" where
  "appointment_columns = mixin_columns @
     [(references_column ''client_id'' ''clients'' CASCADE False, True),
      (references_column ''call_id'' ''calls'' SET_NULL True, True),
      (sa_column ''starts_at'' Timestamptz_Type False, False),
      (sa_column ''ends_at'' Timestamptz_Type False, False),
      (sa_column ''status'' (String_Type 16) False, False),
      (sa_column ''calendar_event_id'' (String_Type 255) True, False),
      (sa_column ''notes'' Text_Type True, False)]"

definition appointment_table_args :: "(string \<times> constraint) list" where
  "appointment_table_args = [(''ck_appointment_ends_after_starts'', Greater ''ends_at'' ''starts_at'')]"

definition models_database :: database where
  "models_database =
     \<lparr>db_tables =
        [(''appointments'', mapped_table ''appointments'' appointment_columns appointment_table_args),
         (''calls'', mapped_table ''calls'' call_columns []),
         (''clients'', mapped_table ''clients'' client_columns []),
         (''call_transcripts'', mapped_table ''call_transcripts'' transcript_columns transcript_table_args)],
      db_indexes = mapped_indexes ''appointments'' appointment_columns
        @ mapped_indexes ''calls'' call_columns @ mapped_indexes ''clients'' client_columns
        @ mapped_indexes ''call_transcripts'' transcript_columns,
      db_rows = (\<lambda>t. [])\<rparr>"

text \<open>The order of tables, columns, constraints and indexes does not matter.\<close>

definition same_table :: "table \<Rightarrow> table \<Rightarrow> bool" where
  "same_table s t \<longleftrightarrow> set (tb_columns s) = set (tb_columns t) \<and>
     length (tb_columns s) = length (tb_columns t) \<and> set (tb_constraints s) = set (tb_constraints t)"

definition same_schema :: "database \<Rightarrow> database \<Rightarrow> bool" where
  "same_schema a b \<longleftrightarrow>
     fst ` set (db_tables a) = fst ` set (db_tables b) \<and>
     list_all (\<lambda>(n, t). case map_of (db_tables b) n of None \<Rightarrow> False | Some u \<Rightarrow> same_table t u) (db_tables a) \<and>
     set (db_indexes a) = set (db_indexes b)"

section \<open>What a schema accepts\<close>

definition cell_ok :: "column_type \<Rightarrow> cell \<Rightarrow> bool" where
  "cell_ok ty c =
     (case (ty, c) of
        (UUID_Type, C_UUID _) \<Rightarrow> True
      | (String_Type n, C_String s) \<Rightarrow> length s \<le> n
      | (Text_Type, C_String _) \<Rightarrow> True
      | (Timestamptz_Type, C_Instant t) \<Rightarrow> wall_ok t
      | (Integer_Type, C_Integer i) \<Rightarrow> - (2 ^ 31) \<le> i \<and> i < 2 ^ 31
      | _ \<Rightarrow> False)"

text \<open>The rows already in the table have met its constraints before.\<close>

definition key_free :: "string list \<Rightarrow> row list \<Rightarrow> row \<Rightarrow> bool" where
  "key_free cs rs r \<longleftrightarrow> Null \<in> r ` set cs \<or> map r cs \<notin> (\<lambda>x. map x cs) ` set rs"

definition column_ok :: "column \<Rightarrow> cell \<Rightarrow> bool" where
  "column_ok c v = (if v = Null then co_nullable c else cell_ok (co_type c) v)"

definition constraint_ok :: "database \<Rightarrow> row list \<Rightarrow> row \<Rightarrow> constraint \<Rightarrow> bool" where
  "constraint_ok db rs r c =
     (case c of
        Primary_Key cs \<Rightarrow> key_free cs rs r \<and> Null \<notin> r ` set cs
      | Unique cs \<Rightarrow> key_free cs rs r
      | Foreign_Key col fk \<Rightarrow>
          r col = Null \<or> r col \<in> (\<lambda>x. x (fk_column fk)) ` set (db_rows db (fk_table fk))
      | Greater a b \<Rightarrow>
          (case (r a, r b) of (C_Instant x, C_Instant y) \<Rightarrow> y < x | _ \<Rightarrow> True))"

definition accepts :: "database \<Rightarrow> string \<Rightarrow> row \<Rightarrow> bool" where
  "accepts db t r =
     (case map_of (db_tables db) t of
        None \<Rightarrow> False
      | Some tb \<Rightarrow>
          list_all (\<lambda>c. column_ok c (r (co_name c))) (tb_columns tb) \<and>
          list_all (\<lambda>(n, c). constraint_ok db (db_rows db t) r c) (tb_constraints tb) \<and>
          list_all (\<lambda>(n, i). ix_table i = t \<and> ix_unique i \<longrightarrow> key_free (ix_columns i) (db_rows db t) r)
            (db_indexes db))"

section \<open>The rows of the models\<close>

text \<open>An enumeration is stored as the name of its member.\<close>

fun appointment_status_name :: "appointment_status \<Rightarrow> string" where
  "appointment_status_name SCHEDULED = ''SCHEDULED''"
| "appointment_status_name CONFIRMED = ''CONFIRMED''"
| "appointment_status_name CANCELLED = ''CANCELLED''"
| "appointment_status_name RESCHEDULED = ''RESCHEDULED''"
| "appointment_status_name COMPLETED = ''COMPLETED''"

fun call_direction_name :: "call_direction \<Rightarrow> string" where
  "call_direction_name INBOUND = ''INBOUND''"
| "call_direction_name OUTBOUND = ''OUTBOUND''"

fun call_status_name :: "call_status \<Rightarrow> string" where
  "call_status_name IN_PROGRESS = ''IN_PROGRESS''"
| "call_status_name CALL_COMPLETED = ''COMPLETED''"
| "call_status_name TRANSFERRED_TO_HUMAN = ''TRANSFERRED_TO_HUMAN''"
| "call_status_name FAILED = ''FAILED''"
| "call_status_name NO_ANSWER = ''NO_ANSWER''"

fun speaker_role_name :: "speaker_role \<Rightarrow> string" where
  "speaker_role_name CALLER = ''CALLER''"
| "speaker_role_name AGENT = ''AGENT''"
| "speaker_role_name SYSTEM = ''SYSTEM''"

definition nullable :: "('a \<Rightarrow> cell) \<Rightarrow> 'a option \<Rightarrow> cell" where
  "nullable f x = (case x of None \<Rightarrow> Null | Some a \<Rightarrow> f a)"

definition instant_cell :: "datetime \<Rightarrow> cell" where
  "instant_cell d = C_Instant (dt_instant d)"

text \<open>\<open>now\<close> is the database's clock, for the columns it fills itself.\<close>

definition stamped_row :: "int \<Rightarrow> row" where
  "stamped_row now = (\<lambda>c. Null)(''created_at'' := C_Instant now, ''updated_at'' := C_Instant now)"

definition client_row :: "int \<Rightarrow> client \<Rightarrow> row" where
  "client_row now c = (stamped_row now)
     (''id'' := C_UUID (cl_id c), ''phone_number'' := C_String (cl_phone_number c),
      ''full_name'' := nullable C_String (cl_full_name c), ''email'' := nullable C_String (cl_email c),
      ''notes'' := nullable C_String (cl_notes c))"

definition call_table_row :: "int \<Rightarrow> call \<Rightarrow> row" where
  "call_table_row now c = (stamped_row now)
     (''id'' := C_UUID (ca_id c), ''client_id'' := nullable C_UUID (ca_client_id c),
      ''livekit_room_name'' := C_String (ca_livekit_room_name c),
      ''direction'' := C_String (call_direction_name (ca_direction c)),
      ''status'' := C_String (call_status_name (ca_status c)),
      ''started_at'' := instant_cell (ca_started_at c), ''ended_at'' := nullable instant_cell (ca_ended_at c),
      ''summary'' := nullable C_String (ca_summary c))"

definition transcript_row :: "int \<Rightarrow> transcript \<Rightarrow> row" where
  "transcript_row now t = (stamped_row now)
     (''id'' := C_UUID (tr_id t), ''call_id'' := C_UUID (tr_call_id t),
      ''sequence'' := C_Integer (tr_sequence t), ''role'' := C_String (speaker_role_name (tr_role t)),
      ''text'' := C_String (tr_text t), ''spoken_at'' := C_Instant now)"

definition appointment_row :: "int \<Rightarrow> appointment \<Rightarrow> row" where
  "appointment_row now a = (stamped_row now)
     (''id'' := C_UUID (ap_id a), ''client_id'' := C_UUID (ap_client_id a),
      ''call_id'' := nullable C_UUID (ap_call_id a), ''starts_at'' := instant_cell (ap_starts_at a),
      ''ends_at'' := instant_cell (ap_ends_at a),
      ''status'' := C_String (appointment_status_name (ap_status a)),
      ''calendar_event_id'' := nullable C_String (ap_calendar_event_id a),
      ''notes'' := nullable C_String (ap_notes a))"

definition table_rows :: "int \<Rightarrow> 'w world \<Rightarrow> string \<Rightarrow> row list" where
  "table_rows now w =
     (\<lambda>t. [])(''clients'' := map (client_row now) (w_clients w), ''calls'' := map (call_table_row now) (w_calls w),
       ''call_transcripts'' := map (transcript_row now) (w_transcripts w),
       ''appointments'' := map (appointment_row now) (w_appointments w))"

section \<open>The two revisions\<close>

definition revision_0001 :: database where
  "revision_0001 = (case upgrade_0001 empty_database of Inr db \<Rightarrow> db | Inl e \<Rightarrow> empty_database)"

definition revision_0002 :: database where
  "revision_0002 = (case upgrade_0002 revision_0001 of Inr db \<Rightarrow> db | Inl e \<Rightarrow> empty_database)"

definition database_of :: "int \<Rightarrow> 'w world \<Rightarrow> database" where
  "database_of now w = revision_0002\<lparr>db_rows := table_rows now w\<rparr>"

end
