(* ===== verification/Engine.thy ===== *)
theory Engine
  imports Config
begin

text \<open>
  \<^verbatim>\<open>openvoice/db/session.py\<close>: the engine and the session factory that a process caches. An engine is
  its number among those the process has built; a session factory or a session is the number of the
  engine it is bound to. \<^verbatim>\<open>create_async_engine\<close> is a parameter, which may refuse its arguments.
\<close>

section \<open>The module's state and functions\<close>

record engine_args =
  ea_url :: string
  ea_pool_size :: int
  ea_echo :: bool
  ea_pool_pre_ping :: bool

record sessions =
  ss_engine :: "nat option"
  ss_sessionmaker :: "nat option"
  ss_engines :: "engine_args list"
  ss_disposed :: "nat list"

definition no_sessions :: sessions where
  "no_sessions = \<lparr>ss_engine = None, ss_sessionmaker = None, ss_engines = [], ss_disposed = []\<rparr>"

type_synonym create_engine = "engine_args \<Rightarrow> exc option"

definition engine_args_of :: "settings \<Rightarrow> engine_args" where
  "engine_args_of s = \<lparr>ea_url = database_url s, ea_pool_size = database_pool_size s,
     ea_echo = database_echo s, ea_pool_pre_ping = True\<rparr>"

definition build_engine :: "create_engine \<Rightarrow> settings \<Rightarrow> (sessions, nat) prog" where
  "build_engine create s st =
     (case create (engine_args_of s) of
        Some e \<Rightarrow> (Inl e, st)
      | None \<Rightarrow> (Inr (length (ss_engines st)), st\<lparr>ss_engines := ss_engines st @ [engine_args_of s]\<rparr>))"

definition get_engine :: "create_engine \<Rightarrow> settings \<Rightarrow> (sessions, nat) prog" where
  "get_engine create s st =
     (case ss_engine st of
        Some i \<Rightarrow> (Inr i, st)
      | None \<Rightarrow> bind_prog (build_engine create s) (\<lambda>i u. (Inr i, u\<lparr>ss_engine := Some i\<rparr>)) st)"

definition get_sessionmaker :: "create_engine \<Rightarrow> settings \<Rightarrow> (sessions, nat) prog" where
  "get_sessionmaker create s st =
     (case ss_sessionmaker st of
        Some i \<Rightarrow> (Inr i, st)
      | None \<Rightarrow> bind_prog (get_engine create s) (\<lambda>i u. (Inr i, u\<lparr>ss_sessionmaker := Some i\<rparr>)) st)"

definition get_db_session :: "create_engine \<Rightarrow> settings \<Rightarrow> (sessions, nat) prog" where
  "get_db_session create s = bind_prog (get_sessionmaker create s) (\<lambda>i. ret i)"

text \<open>
  \<^verbatim>\<open>reset_engine\<close> waits for the cached engine to be disposed, and other tasks run meanwhile; what
  follows the wait clears whatever is cached then.
\<close>

definition clear_cache :: "sessions \<Rightarrow> sessions" where
  "clear_cache st = st\<lparr>ss_engine := None, ss_sessionmaker := None\<rparr>"

definition dispose :: "nat \<Rightarrow> sessions \<Rightarrow> sessions" where
  "dispose i st = st\<lparr>ss_disposed := ss_disposed st @ [i]\<rparr>"

section \<open>Tasks of a process\<close>

text \<open>
  A state is the module's state and the engines whose disposal is waited for. With \<open>serial\<close>, a reset
  begins only when no other is under way.
\<close>

inductive session_step :: "bool \<Rightarrow> create_engine \<Rightarrow> sessions \<times> nat list \<Rightarrow> sessions \<times> nat list \<Rightarrow> bool"
  for serial create where
  Use_Engine: "session_step serial create (st, ws) (snd (get_engine create s st), ws)"
| Use_Session: "session_step serial create (st, ws) (snd (get_db_session create s st), ws)"
| Reset_Nothing: "ss_engine st = None \<Longrightarrow> session_step serial create (st, ws) (clear_cache st, ws)"
| Reset_Begin: "ss_engine st = Some i \<Longrightarrow> serial \<longrightarrow> ws = [] \<Longrightarrow>
    session_step serial create (st, ws) (st, i # ws)"
| Reset_End: "i \<in> set ws \<Longrightarrow> session_step serial create (st, ws) (clear_cache (dispose i st), remove1 i ws)"
| Reset_Failed: "i \<in> set ws \<Longrightarrow> session_step serial create (st, ws) (st, remove1 i ws)"

inductive session_reach :: "bool \<Rightarrow> create_engine \<Rightarrow> sessions \<times> nat list \<Rightarrow> bool" for serial create where
  Start: "session_reach serial create (no_sessions, [])"
| Step: "session_reach serial create p \<Longrightarrow> session_step serial create p q \<Longrightarrow> session_reach serial create q"

inductive_cases session_stepE: "session_step serial create p q"

section \<open>Invariants\<close>

definition bound :: "sessions \<Rightarrow> bool" where
  "bound st \<longleftrightarrow> (\<forall>i. ss_sessionmaker st = Some i \<longrightarrow> ss_engine st = Some i) \<and>
     (\<forall>i. ss_engine st = Some i \<longrightarrow> i < length (ss_engines st))"

definition no_leak :: "sessions \<Rightarrow> bool" where
  "no_leak st \<longleftrightarrow> {i. i < length (ss_engines st)} = set (ss_disposed st) \<union> set_option (ss_engine st)"

text \<open>What the two cached look-ups do to the state.\<close>

lemma get_engine_cases:
  obtains "snd (get_engine create s st) = st"
  | "ss_engine st = None" "create (engine_args_of s) = None"
    "snd (get_engine create s st) = st\<lparr>ss_engine := Some (length (ss_engines st)),
       ss_engines := ss_engines st @ [engine_args_of s]\<rparr>"
  by (cases "ss_engine st"; cases "create (engine_args_of s)")
    (simp_all add: get_engine_def build_engine_def bind_prog_apply)

lemma get_engine_result:
  "get_engine create s st = (Inr i, u) \<Longrightarrow> ss_engine u = Some i \<and> u = snd (get_engine create s st)"
  by (auto simp: get_engine_def build_engine_def bind_prog_apply split: option.splits)

lemma get_db_session_cases:
  obtains "snd (get_db_session create s st) = st"
  | "ss_sessionmaker st = None" "snd (get_db_session create s st) = snd (get_engine create s st)"
  | i where "ss_sessionmaker st = None" "ss_engine (snd (get_engine create s st)) = Some i"
    "snd (get_db_session create s st) = (snd (get_engine create s st))\<lparr>ss_sessionmaker := Some i\<rparr>"
proof (cases "ss_sessionmaker st")
  case None
  obtain r u where e: "get_engine create s st = (r, u)" by fastforce
  show thesis
  proof (cases r)
    case (Inl x)
    with None e that(2) show thesis
      by (auto simp: get_db_session_def get_sessionmaker_def bind_prog_apply)
  next
    case (Inr i)
    with None e get_engine_result [of create s st i u] that(3) show thesis
      by (auto simp: get_db_session_def get_sessionmaker_def bind_prog_apply ret_def)
  qed
qed (use that(1) in \<open>auto simp: get_db_session_def get_sessionmaker_def bind_prog_apply ret_def\<close>)

lemma get_engine_keeps:
  assumes "bound st"
  shows "bound (snd (get_engine create s st))"
    and "no_leak st \<Longrightarrow> no_leak (snd (get_engine create s st))"
    and "ss_engine st \<noteq> None \<Longrightarrow> snd (get_engine create s st) = st"
  using assms
  by (cases rule: get_engine_cases [of create s st]; auto simp: bound_def no_leak_def less_Suc_eq split: option.splits)+

definition serial_ok :: "sessions \<times> nat list \<Rightarrow> bool" where
  "serial_ok p \<longleftrightarrow> no_leak (fst p) \<and> (snd p = [] \<or> (\<exists>i. snd p = [i] \<and> ss_engine (fst p) = Some i))"

lemma get_db_session_keeps:
  assumes "bound st"
  shows "bound (snd (get_db_session create s st))"
    and "no_leak st \<Longrightarrow> no_leak (snd (get_db_session create s st))"
    and "ss_engine st \<noteq> None \<Longrightarrow> ss_engine (snd (get_db_session create s st)) = ss_engine st"
  using get_engine_keeps [OF assms, of create s] assms
  by (cases rule: get_db_session_cases [of create s st]; auto simp: bound_def no_leak_def)+

lemma clear_cache_keeps: "bound (clear_cache st)"
  by (simp add: bound_def clear_cache_def)

lemma step_keeps_bound: "session_step serial create p q \<Longrightarrow> bound (fst p) \<Longrightarrow> bound (fst q)"
  by (induction rule: session_step.induct) (simp_all add: get_engine_keeps get_db_session_keeps clear_cache_keeps)

lemma disposed_no_leak: "no_leak st \<Longrightarrow> ss_engine st = Some i \<Longrightarrow> no_leak (clear_cache (dispose i st))"
  by (auto simp: no_leak_def clear_cache_def dispose_def)

lemma step_keeps_serial:
  "session_step True create p q \<Longrightarrow> bound (fst p) \<Longrightarrow> serial_ok p \<Longrightarrow> serial_ok q"
proof (induction rule: session_step.induct)
  case (Use_Engine st ws s)
  then show ?case using get_engine_keeps [of st create s] by (auto simp: serial_ok_def)
next
  case (Use_Session st ws s)
  then show ?case using get_db_session_keeps [of st create s] by (auto simp: serial_ok_def)
next
  case (Reset_Nothing st ws)
  then show ?case by (auto simp: serial_ok_def no_leak_def clear_cache_def)
next
  case (Reset_Begin st i ws)
  then show ?case by (simp add: serial_ok_def)
next
  case (Reset_End i ws st)
  then have "ws = [i]" "ss_engine st = Some i" by (auto simp: serial_ok_def)
  then show ?case using Reset_End.prems disposed_no_leak by (simp add: serial_ok_def)
next
  case (Reset_Failed i ws st)
  then show ?case by (auto simp: serial_ok_def)
qed

lemma reach_inv:
  "session_reach serial create p \<Longrightarrow> bound (fst p) \<and> (serial \<longrightarrow> serial_ok p)"
proof (induction rule: session_reach.induct)
  case Start
  show ?case by (simp add: bound_def serial_ok_def no_leak_def no_sessions_def)
next
  case (Step p q)
  then show ?case using step_keeps_bound [of serial create p q] step_keeps_serial [of create p q] by auto
qed

lemma session_is_cached:
  assumes "get_db_session create s st = (Inr i, u)" and "bound st"
  shows "ss_engine u = Some i \<and> ss_sessionmaker u = Some i"
  using assms get_engine_result
  by (fastforce simp: get_db_session_def get_sessionmaker_def bind_prog_apply bound_def ret_def
      split: option.splits sum.splits prod.splits)

section \<open>Property\<close>

text \<open>
  (C36) Whatever tasks look up sessions and reset the engine, in any interleaving, and whichever engines
  cannot be built: a session is always bound to the cached engine, so that every later one gets the
  same engine without building another; and as long as no two resets overlap, no engine is lost: each
  one ever built is cached or disposed.
\<close>

theorem sessions_share_the_cached_engine:
  assumes "session_reach serial create (st, ws)"
  shows "(ss_sessionmaker st = None \<or> ss_sessionmaker st = ss_engine st) \<and>
    (\<forall>i u. get_db_session create s st = (Inr i, u) \<longrightarrow>
       i < length (ss_engines u) \<and> ss_engine u = Some i \<and> get_engine create s' u = (Inr i, u) \<and>
       get_db_session create s' u = (Inr i, u)) \<and>
    (serial \<longrightarrow> {i. i < length (ss_engines st)} = set (ss_disposed st) \<union> set_option (ss_engine st))"
proof (intro conjI allI impI)
  have b: "bound st" and ok: "serial \<longrightarrow> serial_ok (st, ws)" using reach_inv [OF assms] by simp_all
  show "ss_sessionmaker st = None \<or> ss_sessionmaker st = ss_engine st"
    using b by (cases "ss_sessionmaker st") (simp_all add: bound_def)
  show "{i. i < length (ss_engines st)} = set (ss_disposed st) \<union> set_option (ss_engine st)" if serial
    using ok that by (simp add: serial_ok_def no_leak_def)
  fix i u
  assume session: "get_db_session create s st = (Inr i, u)"
  then have cached: "ss_engine u = Some i" "ss_sessionmaker u = Some i" using session_is_cached b by blast+
  moreover have "bound u" using get_db_session_keeps(1) [OF b, of create s] session by simp
  ultimately show "i < length (ss_engines u)" by (simp add: bound_def)
  show "ss_engine u = Some i" by (rule cached)
  show "get_engine create s' u = (Inr i, u)" using cached by (simp add: get_engine_def)
  show "get_db_session create s' u = (Inr i, u)"
    using cached by (simp add: get_db_session_def get_sessionmaker_def bind_prog_apply)
qed

definition lenient :: create_engine where
  "lenient a = None"

definition one_engine :: "settings \<Rightarrow> sessions" where
  "one_engine s = snd (get_db_session lenient s no_sessions)"

theorem sessions_share_the_cached_engine_witness:
  "\<exists>s. get_db_session lenient s (one_engine s) = (Inr 0, one_engine s)"
proof -
  let ?s = "default_settings [] []"
  have "session_reach True lenient (no_sessions, [])" by (rule Start)
  moreover have "get_db_session lenient ?s no_sessions = (Inr 0, one_engine ?s)"
    by (simp add: one_engine_def get_db_session_def get_sessionmaker_def get_engine_def build_engine_def
        bind_prog_apply no_sessions_def lenient_def)
  ultimately show ?thesis using sessions_share_the_cached_engine by blast
qed

text \<open>
  Two resets that overlap lose an engine: the first one, resumed last, also clears the engine that was
  built after the second had finished, and nobody disposes that one.
\<close>

lemma overlapping_resets_leak:
  "\<exists>st. session_reach False lenient (st, []) \<and> length (ss_engines st) = 2 \<and> ss_engine st = None \<and>
     ss_disposed st = [0, 0]"
proof -
  let ?s = "default_settings [] []" and ?reach = "session_reach False lenient"
  let ?one = "snd (get_engine lenient ?s no_sessions)"
  let ?zero = "clear_cache (dispose 0 ?one)"
  let ?two = "snd (get_engine lenient ?s ?zero)"
  have one: "ss_engine ?one = Some 0"
    by (simp add: get_engine_def build_engine_def bind_prog_apply no_sessions_def lenient_def)
  have "?reach (?one, [])" by (rule Step [OF Start Use_Engine])
  then have "?reach (?one, [0])" using one by (rule Step [OF _ Reset_Begin]) simp
  then have "?reach (?one, [0, 0])" using one by (rule Step [OF _ Reset_Begin]) simp
  then have "?reach (?zero, remove1 0 [0, 0])" by (rule Step [OF _ Reset_End]) simp
  then have "?reach (?two, remove1 0 [0, 0])" by (rule Step [OF _ Use_Engine])
  then have "?reach (clear_cache (dispose 0 ?two), remove1 0 (remove1 0 [0, 0]))"
    by (rule Step [OF _ Reset_End]) simp
  moreover have "length (ss_engines ?two) = 2" "ss_disposed ?two = [0]"
    by (simp_all add: get_engine_def build_engine_def bind_prog_apply no_sessions_def lenient_def
        clear_cache_def dispose_def)
  ultimately show ?thesis
    by (intro exI [of _ "clear_cache (dispose 0 ?two)"]) (simp add: clear_cache_def dispose_def)
qed

end
