(* ===== verification/Migrate.thy ===== *)
theory Migrate
  imports Schema Engine "HOL-Library.AList"
begin

text \<open>
  \<^verbatim>\<open>migrations/env.py\<close>: how the migrations are run, with the chain of the revisions. Alembic keeps its
  options in a \<^verbatim>\<open>ConfigParser\<close> of the standard library and documents that \<^verbatim>\<open>set_main_option\<close> hands the
  value to \<^verbatim>\<open>ConfigParser.set\<close>, which supports interpolation; so that is modelled here. What Alembic
  and SQLAlchemy do with the options are parameters.
\<close>

section \<open>Interpolation\<close>

text \<open>\<^verbatim>\<open>_KEYCRE.match\<close>, the reference \<^verbatim>\<open>%(name)s\<close>: its name and what follows.\<close>

definition key_match :: "string \<Rightarrow> (string \<times> string) option" where
  "key_match s =
     (let name = takeWhile (\<lambda>c. c \<noteq> CHR '')'') (drop 2 s); rest = dropWhile (\<lambda>c. c \<noteq> CHR '')'') (drop 2 s)
      in if prefix [CHR 0x25, CHR ''(''] s \<and> name \<noteq> [] \<and> prefix '')s'' rest then Some (name, drop 2 rest) else None)"

lemma key_match_shorter: "key_match s = Some (n, t) \<Longrightarrow> length t < length s"
  using length_dropWhile_le [of "\<lambda>c. c \<noteq> CHR '')''" "drop 2 s"]
  by (cases s) (auto simp: key_match_def Let_def split: if_splits)

text \<open>\<^verbatim>\<open>_KEYCRE.sub('', s)\<close>\<close>

function strip_keys :: "string \<Rightarrow> string" where
  "strip_keys [] = []"
| "strip_keys (c # s) = (case key_match (c # s) of Some (n, t) \<Rightarrow> strip_keys t | None \<Rightarrow> c # strip_keys s)"
  by pat_completeness auto
termination
  by (relation "measure length") (auto dest: key_match_shorter)

type_synonym options = "(string \<times> string) list"

text \<open>\<^verbatim>\<open>BasicInterpolation.before_set\<close> and the assignment.\<close>

definition set_option :: "string \<Rightarrow> string \<Rightarrow> options \<Rightarrow> options res" where
  "set_option key value opts =
     (if CHR 0x25 \<in> set (strip_keys (py_replace [CHR 0x25, CHR 0x25] [] value))
      then Inl (ValueError ''invalid interpolation syntax'') else Inr (AList.update key value opts))"

text \<open>
  \<^verbatim>\<open>_interpolate_some\<close>: a reference may lead to a value with references, to a depth of ten. \<open>levels\<close>
  is how many are left.
\<close>

function interpolate :: "options \<Rightarrow> nat \<Rightarrow> string \<Rightarrow> string res" where
  "interpolate opts levels [] = Inr []"
| "interpolate opts levels (c # s) =
     (if c \<noteq> CHR 0x25 then bind_res (interpolate opts levels s) (\<lambda>y. Inr (c # y))
      else if prefix [CHR 0x25] s then bind_res (interpolate opts levels (tl s)) (\<lambda>y. Inr (c # y))
      else case key_match (c # s) of
          None \<Rightarrow> Inl (OtherError ''InterpolationSyntaxError'' s)
        | Some (n, t) \<Rightarrow>
            (case map_of opts (py_lower n) of
               None \<Rightarrow> Inl (OtherError ''InterpolationMissingOptionError'' n)
             | Some v \<Rightarrow>
                 bind_res
                   (if CHR 0x25 \<in> set v
                    then (if levels = 0 then Inl (OtherError ''InterpolationDepthError'' v)
                          else interpolate opts (levels - 1) v)
                    else Inr v)
                   (\<lambda>x. bind_res (interpolate opts levels t) (\<lambda>y. Inr (x @ y)))))"
  by pat_completeness auto
termination
  by (relation "measures [\<lambda>(opts, levels, s). levels, \<lambda>(opts, levels, s). length s]")
    (auto dest: key_match_shorter split: if_splits)

definition get_option :: "string \<Rightarrow> options \<Rightarrow> string res" where
  "get_option key opts =
     (case map_of opts key of
        None \<Rightarrow> Inl (OtherError ''NoOptionError'' key)
      | Some v \<Rightarrow> interpolate opts 9 v)"

text \<open>\<^verbatim>\<open>get_section\<close>: every option of the section, interpolated.\<close>

fun interpolate_all :: "options \<Rightarrow> options \<Rightarrow> options res" where
  "interpolate_all opts [] = Inr []"
| "interpolate_all opts ((k, v) # kvs) =
     bind_res (interpolate opts 9 v) (\<lambda>x. bind_res (interpolate_all opts kvs) (\<lambda>ys. Inr ((k, x) # ys)))"

section \<open>The revisions\<close>

record revision =
  rv_revision :: string
  rv_down_revision :: "string option"
  rv_upgrade :: "database \<Rightarrow> database res"
  rv_downgrade :: "database \<Rightarrow> database res"

definition initial_revision :: revision where
  "initial_revision = \<lparr>rv_revision = ''0001'', rv_down_revision = None,
     rv_upgrade = upgrade_0001, rv_downgrade = downgrade_0001\<rparr>"

definition room_name_revision :: revision where
  "room_name_revision = \<lparr>rv_revision = ''0002'', rv_down_revision = Some ''0001'',
     rv_upgrade = upgrade_0002, rv_downgrade = downgrade_0002\<rparr>"

definition revisions :: "revision list" where
  "revisions = [initial_revision, room_name_revision]"

section \<open>env.py\<close>

text \<open>A database with the revision that its \<^verbatim>\<open>alembic_version\<close> names.\<close>

type_synonym versioned = "string option \<times> database"

text \<open>
  The databases by URL, the URLs of the engines not yet disposed and of the open connections, and
  what was written to standard output.
\<close>

record migration_world =
  mw_databases :: "string \<Rightarrow> versioned"
  mw_engines :: "string list"
  mw_connections :: "string list"
  mw_stdout :: "string list"

text \<open>The options of \<^verbatim>\<open>context.configure\<close>.\<close>

record context_options =
  cx_url :: "string option"
  cx_target_metadata :: database
  cx_literal_binds :: bool
  cx_paramstyle :: "string option"

text \<open>
  Alembic, SQLAlchemy and the logging configuration. \<open>mg_engine\<close> gives the URL of the engine that
  \<^verbatim>\<open>async_engine_from_config\<close> builds, \<open>mg_run\<close> is \<^verbatim>\<open>context.run_migrations\<close> on a database and \<open>mg_sql\<close> the
  statements it emits offline, with the exception that stopped it.
\<close>

record alembic =
  mg_offline :: bool
  mg_file_name :: "string option"
  mg_file_config :: "string \<Rightarrow> exc option"
  mg_engine :: "options \<Rightarrow> string \<Rightarrow> string res"
  mg_connect :: "string \<Rightarrow> exc option"
  mg_run :: "revision list \<Rightarrow> context_options \<Rightarrow> versioned \<Rightarrow> versioned res"
  mg_sql :: "revision list \<Rightarrow> context_options \<Rightarrow> string list \<times> exc option"

definition offline_options :: "string \<Rightarrow> context_options" where
  "offline_options url = \<lparr>cx_url = Some url, cx_target_metadata = models_database,
     cx_literal_binds = True, cx_paramstyle = Some ''named''\<rparr>"

definition run_migrations_offline :: "alembic \<Rightarrow> options \<Rightarrow> (migration_world, unit) prog" where
  "run_migrations_offline al opts w =
     (case get_option ''sqlalchemy.url'' opts of
        Inl e \<Rightarrow> (Inl e, w)
      | Inr url \<Rightarrow>
          (case mg_sql al revisions (offline_options url) of
             (out, failure) \<Rightarrow>
               (case failure of None \<Rightarrow> Inr () | Some e \<Rightarrow> Inl e, w\<lparr>mw_stdout := mw_stdout w @ out\<rparr>)))"

definition online_options :: context_options where
  "online_options = \<lparr>cx_url = None, cx_target_metadata = models_database,
     cx_literal_binds = False, cx_paramstyle = None\<rparr>"

text \<open>In a transaction: a failure leaves the database as it was.\<close>

definition do_run_migrations :: "alembic \<Rightarrow> string \<Rightarrow> (migration_world, unit) prog" where
  "do_run_migrations al url w =
     (case mg_run al revisions online_options (mw_databases w url) of
        Inl e \<Rightarrow> (Inl e, w)
      | Inr d \<Rightarrow> (Inr (), w\<lparr>mw_databases := (mw_databases w)(url := d)\<rparr>))"

text \<open>\<^verbatim>\<open>async with connectable.connect()\<close>: the connection is closed however the body ends.\<close>

definition with_connection ::
  "alembic \<Rightarrow> string \<Rightarrow> (migration_world, unit) prog \<Rightarrow> (migration_world, unit) prog" where
  "with_connection al url body w =
     (case mg_connect al url of
        Some e \<Rightarrow> (Inl e, w)
      | None \<Rightarrow>
          (case body (w\<lparr>mw_connections := url # mw_connections w\<rparr>) of
             (r, t) \<Rightarrow> (r, t\<lparr>mw_connections := remove1 url (mw_connections t)\<rparr>)))"

definition run_migrations_online :: "alembic \<Rightarrow> options \<Rightarrow> (migration_world, unit) prog" where
  "run_migrations_online al opts =
     bind_prog (lift_res (bind_res (interpolate_all opts opts) (\<lambda>section. mg_engine al section ''sqlalchemy.'')))
       (\<lambda>url. bind_prog (\<lambda>w. (Inr (), w\<lparr>mw_engines := url # mw_engines w\<rparr>)) (\<lambda>_.
        bind_prog (with_connection al url (do_run_migrations al url)) (\<lambda>_ w.
          (Inr (), w\<lparr>mw_engines := remove1 url (mw_engines w)\<rparr>))))"

text \<open>The module: \<open>opts\<close> are the options of the section \<^verbatim>\<open>[alembic]\<close> of \<^verbatim>\<open>alembic.ini\<close>.\<close>

definition run_env :: "alembic \<Rightarrow> settings \<Rightarrow> options \<Rightarrow> (migration_world, unit) prog" where
  "run_env al s opts =
     bind_prog (lift_res (case mg_file_name al of
          None \<Rightarrow> Inr ()
        | Some f \<Rightarrow> (case mg_file_config al f of None \<Rightarrow> Inr () | Some e \<Rightarrow> Inl e)))
       (\<lambda>_. bind_prog (lift_res (set_option ''sqlalchemy.url'' (database_url s) opts)) (\<lambda>configured.
          if mg_offline al then run_migrations_offline al configured else run_migrations_online al configured))"

end
