(* ===== verification/Schema_Thms.thy ===== *)
theory Schema_Thms
  imports Schema Booking_Thms
begin

text \<open>
  The migrations build the schema of the models, and that schema accepts exactly the rows that the
  statements of \<open>DB\<close> and \<open>CRM\<close> accept.
\<close>

section \<open>Statements and rows\<close>

text \<open>A statement that neither reads nor writes rows.\<close>

definition row_blind :: "(database \<Rightarrow> database res) \<Rightarrow> bool" where
  "row_blind s \<longleftrightarrow> (\<forall>db r. s (db\<lparr>db_rows := r\<rparr>) = map_sum id (\<lambda>d. d\<lparr>db_rows := r\<rparr>) (s db))"

lemma relation_names_rows [simp]: "relation_names (db\<lparr>db_rows := r\<rparr>) = relation_names db"
  by (simp add: relation_names_def)

lemma row_blind_steps:
  "row_blind (drop_constraint n t)" "row_blind (create_index n t cs False)" "row_blind (drop_index n)"
  by (auto simp: row_blind_def drop_constraint_def create_index_def drop_index_def split: option.split)

lemma row_blind_run: "list_all row_blind ss \<Longrightarrow> row_blind (run_steps ss)"
proof (induction ss)
  case Nil
  show ?case by (simp add: row_blind_def)
next
  case (Cons s ss)
  then have "s (db\<lparr>db_rows := r\<rparr>) = map_sum id (\<lambda>d. d\<lparr>db_rows := r\<rparr>) (s db)"
    "run_steps ss (db\<lparr>db_rows := r\<rparr>) = map_sum id (\<lambda>d. d\<lparr>db_rows := r\<rparr>) (run_steps ss db)" for db r
    by (simp_all add: row_blind_def)
  then show ?case by (auto simp: row_blind_def bind_res_def split: sum.split)
qed

lemma create_unique_rows:
  "create_unique_constraint n t cs (db\<lparr>db_rows := r\<rparr>) =
     (case create_unique_constraint n t cs (db\<lparr>db_rows := (\<lambda>t. [])\<rparr>) of
        Inl e \<Rightarrow> Inl e
      | Inr d \<Rightarrow> if no_duplicates cs (r t) then Inr (d\<lparr>db_rows := r\<rparr>)
                else Inl (IntegrityError ''could not create unique index''))"
  by (simp add: create_unique_constraint_def no_duplicates_def split: option.split)

lemma drop_table_rows:
  "drop_table n (db\<lparr>db_rows := r\<rparr>) = map_sum id (\<lambda>d. d\<lparr>db_rows := r(n := [])\<rparr>) (drop_table n db)"
  by (simp add: drop_table_def)

section \<open>The revisions\<close>

lemma Inr_or_default: "\<not> isl x \<Longrightarrow> x = Inr (case x of Inr d \<Rightarrow> d | Inl e \<Rightarrow> z)"
  by (cases x) simp_all

lemma upgrade_0001_empty: "upgrade_0001 empty_database = Inr revision_0001"
  unfolding revision_0001_def by (rule Inr_or_default) code_simp

lemma upgrade_0002_revision: "upgrade_0002 revision_0001 = Inr revision_0002"
  unfolding revision_0002_def by (rule Inr_or_default) code_simp

lemma revision_0002_schema: "same_schema revision_0002 models_database"
  by code_simp

lemma upgrade_0002_rows:
  "upgrade_0002 (revision_0001\<lparr>db_rows := r\<rparr>) = Inr (revision_0002\<lparr>db_rows := r\<rparr>)"
proof -
  have "row_blind upgrade_0002"
    unfolding upgrade_0002_def by (rule row_blind_run) (simp add: row_blind_steps)
  then show ?thesis by (simp add: row_blind_def upgrade_0002_revision)
qed

text \<open>What \<^verbatim>\<open>downgrade\<close> of 0002 leaves of a database without rows.\<close>

definition downgraded :: database where
  "downgraded = (case downgrade_0002 revision_0002 of Inr db \<Rightarrow> db | Inl e \<Rightarrow> empty_database)"

lemma downgrade_0002_revision: "downgrade_0002 revision_0002 = Inr downgraded"
  unfolding downgraded_def by (rule Inr_or_default) code_simp

lemma downgraded_schema: "same_schema downgraded revision_0001"
  by code_simp

lemma no_rows_0002: "db_rows revision_0002 = (\<lambda>t. [])"
  by (rule ext) (code_simp, simp)

section \<open>The tables after both revisions\<close>

lemmas column_defs = primary_key_column_def now_column_def references_column_def sa_column_def
  timestamp_columns_def table_of_def column_constraints_def

lemma clients_table:
  "map_of (db_tables revision_0002) ''clients'' = Some (table_of ''clients''
     ([primary_key_column ''id'', sa_column ''phone_number'' (String_Type 32) False,
       sa_column ''full_name'' (String_Type 255) True, sa_column ''email'' (String_Type 255) True,
       sa_column ''notes'' Text_Type True] @ timestamp_columns) [])"
  by code_simp

lemma calls_table:
  "map_of (db_tables revision_0002) ''calls'' = Some (table_of ''calls''
     ([primary_key_column ''id'', references_column ''client_id'' ''clients'' SET_NULL True,
       sa_column ''livekit_room_name'' (String_Type 255) False,
       sa_column ''direction'' (String_Type 16) False, sa_column ''status'' (String_Type 32) False,
       now_column ''started_at'', sa_column ''ended_at'' Timestamptz_Type True,
       sa_column ''summary'' Text_Type True] @ timestamp_columns) [])"
  by code_simp

lemma transcripts_table:
  "map_of (db_tables revision_0002) ''call_transcripts'' = Some (table_of ''call_transcripts''
     ([primary_key_column ''id'', references_column ''call_id'' ''calls'' CASCADE False,
       sa_column ''sequence'' Integer_Type False, sa_column ''role'' (String_Type 16) False,
       sa_column ''text'' Text_Type False, now_column ''spoken_at''] @ timestamp_columns)
     [(''uq_call_transcript_sequence'', Unique [''call_id'', ''sequence''])])"
  by code_simp

lemma appointments_table:
  "map_of (db_tables revision_0002) ''appointments'' = Some (table_of ''appointments''
     ([primary_key_column ''id'', references_column ''client_id'' ''clients'' CASCADE False,
       references_column ''call_id'' ''calls'' SET_NULL True, sa_column ''starts_at'' Timestamptz_Type False,
       sa_column ''ends_at'' Timestamptz_Type False, sa_column ''status'' (String_Type 16) False,
       sa_column ''calendar_event_id'' (String_Type 255) True, sa_column ''notes'' Text_Type True]
      @ timestamp_columns)
     [(''ck_appointment_ends_after_starts'', Greater ''ends_at'' ''starts_at'')])"
  by code_simp

lemma unique_indexes:
  "filter (\<lambda>(n, i). ix_unique i) (db_indexes revision_0002) =
     [(''ix_clients_phone_number'', \<lparr>ix_table = ''clients'', ix_columns = [''phone_number''], ix_unique = True\<rparr>)]"
  by code_simp

lemma index_check:
  "list_all (\<lambda>(n, i). ix_table i = t \<and> ix_unique i \<longrightarrow> P (ix_columns i)) (db_indexes revision_0002) \<longleftrightarrow>
     (t = ''clients'' \<longrightarrow> P [''phone_number''])"
proof -
  have "list_all (\<lambda>(n, i). ix_table i = t \<and> ix_unique i \<longrightarrow> P (ix_columns i)) xs \<longleftrightarrow>
      list_all (\<lambda>(n, i). ix_table i = t \<longrightarrow> P (ix_columns i)) (filter (\<lambda>(n, i). ix_unique i) xs)"
    for xs :: "(string \<times> db_index) list"
    by (induction xs) auto
  then show ?thesis by (auto simp: unique_indexes)
qed

section \<open>Which rows are accepted\<close>

lemma nullable_simps [simp]:
  "nullable f None = Null" "nullable f (Some x) = f x" "instant_cell d = C_Instant (dt_instant d)"
  by (simp_all add: nullable_def instant_cell_def)

lemma column_ok_simps [simp]:
  "column_ok \<lparr>co_name = n, co_type = UUID_Type, co_nullable = b, co_server_default = e\<rparr> (C_UUID i)"
  "column_ok \<lparr>co_name = n, co_type = UUID_Type, co_nullable = True, co_server_default = e\<rparr> (nullable C_UUID oi)"
  "column_ok \<lparr>co_name = n, co_type = Text_Type, co_nullable = b, co_server_default = e\<rparr> (C_String s)"
  "column_ok \<lparr>co_name = n, co_type = Text_Type, co_nullable = True, co_server_default = e\<rparr> (nullable C_String os)"
  "column_ok \<lparr>co_name = n, co_type = String_Type k, co_nullable = b, co_server_default = e\<rparr> (C_String s)
     \<longleftrightarrow> length s \<le> k"
  "column_ok \<lparr>co_name = n, co_type = String_Type k, co_nullable = True, co_server_default = e\<rparr> (nullable C_String os)
     \<longleftrightarrow> fits k os"
  "column_ok \<lparr>co_name = n, co_type = Timestamptz_Type, co_nullable = b, co_server_default = e\<rparr> (C_Instant t)
     \<longleftrightarrow> wall_ok t"
  "column_ok \<lparr>co_name = n, co_type = Timestamptz_Type, co_nullable = True, co_server_default = e\<rparr>
     (nullable instant_cell od) \<longleftrightarrow> (case od of None \<Rightarrow> True | Some d \<Rightarrow> storable d)"
  "column_ok \<lparr>co_name = n, co_type = Integer_Type, co_nullable = b, co_server_default = e\<rparr> (C_Integer j)
     \<longleftrightarrow> - (2 ^ 31) \<le> j \<and> j < 2 ^ 31"
  by (auto simp: column_ok_def cell_ok_def fits_def nullable_def storable_def split: option.splits)

lemma names_fit [simp]:
  "length (appointment_status_name st) \<le> 16" "length (call_direction_name d) \<le> 16"
  "length (call_status_name cst) \<le> 32" "length (speaker_role_name sr) \<le> 16"
     apply (cases st; simp)
    apply (cases d; simp)
   apply (cases cst; simp)
  apply (cases sr; simp)
  done

lemma client_cells:
  "client_row now c ''id'' = C_UUID (cl_id c)" "client_row now c ''phone_number'' = C_String (cl_phone_number c)"
  "client_row now c ''full_name'' = nullable C_String (cl_full_name c)"
  "client_row now c ''email'' = nullable C_String (cl_email c)"
  "client_row now c ''notes'' = nullable C_String (cl_notes c)"
  "client_row now c ''created_at'' = C_Instant now" "client_row now c ''updated_at'' = C_Instant now"
  by (simp_all add: client_row_def stamped_row_def)

lemma call_cells:
  "call_table_row now a ''id'' = C_UUID (ca_id a)"
  "call_table_row now a ''client_id'' = nullable C_UUID (ca_client_id a)"
  "call_table_row now a ''livekit_room_name'' = C_String (ca_livekit_room_name a)"
  "call_table_row now a ''direction'' = C_String (call_direction_name (ca_direction a))"
  "call_table_row now a ''status'' = C_String (call_status_name (ca_status a))"
  "call_table_row now a ''started_at'' = C_Instant (dt_instant (ca_started_at a))"
  "call_table_row now a ''ended_at'' = nullable instant_cell (ca_ended_at a)"
  "call_table_row now a ''summary'' = nullable C_String (ca_summary a)"
  "call_table_row now a ''created_at'' = C_Instant now" "call_table_row now a ''updated_at'' = C_Instant now"
  by (simp_all add: call_table_row_def stamped_row_def)

lemma transcript_cells:
  "transcript_row now t ''id'' = C_UUID (tr_id t)" "transcript_row now t ''call_id'' = C_UUID (tr_call_id t)"
  "transcript_row now t ''sequence'' = C_Integer (tr_sequence t)"
  "transcript_row now t ''role'' = C_String (speaker_role_name (tr_role t))"
  "transcript_row now t ''text'' = C_String (tr_text t)" "transcript_row now t ''spoken_at'' = C_Instant now"
  "transcript_row now t ''created_at'' = C_Instant now" "transcript_row now t ''updated_at'' = C_Instant now"
  by (simp_all add: transcript_row_def stamped_row_def)

lemma appointment_cells:
  "appointment_row now b ''id'' = C_UUID (ap_id b)" "appointment_row now b ''client_id'' = C_UUID (ap_client_id b)"
  "appointment_row now b ''call_id'' = nullable C_UUID (ap_call_id b)"
  "appointment_row now b ''starts_at'' = C_Instant (dt_instant (ap_starts_at b))"
  "appointment_row now b ''ends_at'' = C_Instant (dt_instant (ap_ends_at b))"
  "appointment_row now b ''status'' = C_String (appointment_status_name (ap_status b))"
  "appointment_row now b ''calendar_event_id'' = nullable C_String (ap_calendar_event_id b)"
  "appointment_row now b ''notes'' = nullable C_String (ap_notes b)"
  "appointment_row now b ''created_at'' = C_Instant now" "appointment_row now b ''updated_at'' = C_Instant now"
  by (simp_all add: appointment_row_def stamped_row_def)

lemma rows_of_tables:
  "db_rows (database_of now w) ''clients'' = map (client_row now) (w_clients w)"
  "db_rows (database_of now w) ''calls'' = map (call_table_row now) (w_calls w)"
  "db_rows (database_of now w) ''call_transcripts'' = map (transcript_row now) (w_transcripts w)"
  "db_rows (database_of now w) ''appointments'' = map (appointment_row now) (w_appointments w)"
  by (simp_all add: database_of_def table_rows_def)

lemma accepts_iff:
  assumes "map_of (db_tables revision_0002) t = Some tb"
  shows "accepts (database_of now w) t r \<longleftrightarrow>
    list_all (\<lambda>c. column_ok c (r (co_name c))) (tb_columns tb) \<and>
    list_all (\<lambda>(n, c). constraint_ok (database_of now w) (db_rows (database_of now w) t) r c) (tb_constraints tb) \<and>
    (t = ''clients'' \<longrightarrow> key_free [''phone_number''] (db_rows (database_of now w) t) r)"
  using assms index_check [of t "\<lambda>cs. key_free cs (db_rows (database_of now w) t) r"]
  by (simp add: accepts_def database_of_def)

lemma constraint_ok_simps:
  "constraint_ok db rs r (Primary_Key [a]) \<longleftrightarrow> key_free [a] rs r \<and> r a \<noteq> Null"
  "constraint_ok db rs r (Unique cs) \<longleftrightarrow> key_free cs rs r"
  "constraint_ok db rs r (Foreign_Key a \<lparr>fk_table = u, fk_column = b, fk_ondelete = x\<rparr>) \<longleftrightarrow>
     r a = Null \<or> r a \<in> (\<lambda>x. x b) ` set (db_rows db u)"
  "constraint_ok db rs r (Greater a b) \<longleftrightarrow>
     (case (r a, r b) of (C_Instant x, C_Instant y) \<Rightarrow> y < x | _ \<Rightarrow> True)"
  "key_free [a] rs r \<longleftrightarrow> r a = Null \<or> r a \<notin> (\<lambda>x. x a) ` set rs"
  by (auto simp: constraint_ok_def key_free_def)

lemmas acceptance = column_defs constraint_ok_simps image_iff rows_of_tables

lemma accepts_client:
  assumes "wall_ok now"
  shows "accepts (database_of now w) ''clients'' (client_row now c) \<longleftrightarrow> client_row_error c w = None"
proof -
  have "accepts (database_of now w) ''clients'' (client_row now c) \<longleftrightarrow>
      length (cl_phone_number c) \<le> 32 \<and> fits 255 (cl_full_name c) \<and> fits 255 (cl_email c) \<and>
      cl_id c \<notin> cl_id ` set (w_clients w) \<and> cl_phone_number c \<notin> cl_phone_number ` set (w_clients w)"
    using assms by (auto simp: accepts_iff [OF clients_table] acceptance client_cells)
  then show ?thesis by (auto simp: client_row_error_def)
qed

lemma nullable_reference:
  "nullable C_UUID x = Null \<or> nullable C_UUID x \<in> (\<lambda>x. x n) ` f ` A \<longleftrightarrow>
     (case x of None \<Rightarrow> True | Some i \<Rightarrow> \<exists>a \<in> A. C_UUID i = f a n)"
  by (auto simp: image_iff split: option.split)

lemma accepts_call:
  assumes "wall_ok now" and "storable (ca_started_at a)"
    and "case ca_ended_at a of None \<Rightarrow> True | Some d \<Rightarrow> storable d"
  shows "accepts (database_of now w) ''calls'' (call_table_row now a) \<longleftrightarrow>
    ca_id a \<notin> ca_id ` set (w_calls w) \<and> call_row_error a w = None"
proof -
  have "accepts (database_of now w) ''calls'' (call_table_row now a) \<longleftrightarrow>
      length (ca_livekit_room_name a) \<le> 255 \<and> ca_id a \<notin> ca_id ` set (w_calls w) \<and>
      (case ca_client_id a of None \<Rightarrow> True | Some i \<Rightarrow> i \<in> cl_id ` set (w_clients w))"
    using assms
    by (auto simp: accepts_iff [OF calls_table] acceptance nullable_reference call_cells client_cells
        storable_def split: option.splits)
  then show ?thesis by (auto simp: call_row_error_def split: option.splits)
qed

lemma accepts_transcript:
  assumes "wall_ok now" and "- (2 ^ 31) \<le> tr_sequence t" and "tr_sequence t < 2 ^ 31"
    and "transcript_rows_error [] w = None"
  shows "accepts (database_of now w) ''call_transcripts'' (transcript_row now t) \<longleftrightarrow>
    transcript_rows_error [t] w = None"
proof -
  have "accepts (database_of now w) ''call_transcripts'' (transcript_row now t) \<longleftrightarrow>
      tr_id t \<notin> tr_id ` set (w_transcripts w) \<and>
      (tr_call_id t, tr_sequence t) \<notin> (\<lambda>t. (tr_call_id t, tr_sequence t)) ` set (w_transcripts w) \<and>
      tr_call_id t \<in> ca_id ` set (w_calls w)"
    using assms(1-3)
    by (auto simp: accepts_iff [OF transcripts_table] acceptance key_free_def call_cells transcript_cells)
  then show ?thesis using assms(4) by (auto simp: transcript_rows_error_def split: if_splits)
qed

lemma accepts_appointment:
  assumes "wall_ok now" and "storable (ap_starts_at b)" and "storable (ap_ends_at b)"
  shows "accepts (database_of now w) ''appointments'' (appointment_row now b) \<longleftrightarrow>
    ap_id b \<notin> ap_id ` set (w_appointments w) \<and> appointment_row_error b w = None"
proof -
  have "accepts (database_of now w) ''appointments'' (appointment_row now b) \<longleftrightarrow>
      fits 255 (ap_calendar_event_id b) \<and> ap_id b \<notin> ap_id ` set (w_appointments w) \<and>
      dt_less (ap_starts_at b) (ap_ends_at b) \<and> ap_client_id b \<in> cl_id ` set (w_clients w) \<and>
      (case ap_call_id b of None \<Rightarrow> True | Some i \<Rightarrow> i \<in> ca_id ` set (w_calls w))"
    using assms
    by (auto simp: accepts_iff [OF appointments_table] acceptance nullable_reference appointment_cells
        call_cells client_cells storable_def dt_less_def split: option.splits)
  then show ?thesis using assms(2,3) by (auto simp: row_error_None split: option.splits)
qed

section \<open>Down again\<close>

lemma downgrade_0002_rows:
  "downgrade_0002 (db\<lparr>db_rows := r\<rparr>) =
     (case downgrade_0002 (db\<lparr>db_rows := (\<lambda>t. [])\<rparr>) of
        Inl e \<Rightarrow> Inl e
      | Inr d \<Rightarrow> if no_duplicates [''livekit_room_name''] (r ''calls'') then Inr (d\<lparr>db_rows := r\<rparr>)
                else Inl (IntegrityError ''could not create unique index''))"
proof -
  have "drop_index n (db\<lparr>db_rows := q\<rparr>) = map_sum id (\<lambda>d. d\<lparr>db_rows := q\<rparr>) (drop_index n db)" for n q
    using row_blind_steps(3) by (simp add: row_blind_def)
  then show ?thesis
    by (cases "drop_index ''ix_calls_livekit_room_name'' db")
      (simp_all add: downgrade_0002_def bind_res_def
        create_unique_rows [where r = r] split: sum.split)
qed

lemma rooms_no_duplicates:
  "no_duplicates [''livekit_room_name''] (map (call_table_row now) cs) \<longleftrightarrow> distinct (map ca_livekit_room_name cs)"
proof -
  have "filter (\<lambda>v. Null \<notin> set v) (map (\<lambda>r. map r [''livekit_room_name'']) (map (call_table_row now) cs)) =
      map (\<lambda>n. [C_String n]) (map ca_livekit_room_name cs)"
    by (induction cs) (simp_all add: call_cells)
  moreover have "distinct (map (\<lambda>n. [C_String n]) ns) = distinct ns" for ns
    by (simp add: distinct_map inj_on_def)
  ultimately show ?thesis unfolding no_duplicates_def by (simp only:)
qed

lemma downgrade_0002_world:
  "downgrade_0002 (database_of now w) =
     (if distinct (map ca_livekit_room_name (w_calls w)) then Inr (downgraded\<lparr>db_rows := table_rows now w\<rparr>)
      else Inl (IntegrityError ''could not create unique index''))"
proof -
  have "revision_0002\<lparr>db_rows := (\<lambda>t. [])\<rparr> = revision_0002"
    using no_rows_0002 by (metis database.surjective database.update_convs(3))
  then show ?thesis
    using downgrade_0002_rows [where db = revision_0002 and r = "table_rows now w"]
    by (simp add: database_of_def downgrade_0002_revision rooms_no_duplicates rows_of_tables [unfolded database_of_def, simplified])
qed

lemma downgrade_0001_rows:
  "downgrade_0001 (revision_0001\<lparr>db_rows := r\<rparr>) = Inr (empty_database\<lparr>db_rows :=
     r(''appointments'' := [], ''call_transcripts'' := [], ''calls'' := [], ''clients'' := [])\<rparr>)"
proof -
  have steps: "run_steps (map drop_table ns) (db\<lparr>db_rows := q\<rparr>) =
      map_sum id (\<lambda>d. d\<lparr>db_rows := fold (\<lambda>n q. q(n := [])) ns q\<rparr>) (run_steps (map drop_table ns) db)" for ns db q
  proof (induction ns arbitrary: db q)
    case Nil
    show ?case by simp
  next
    case (Cons n ns)
    show ?case
      using Cons.IH [where q = "q(n := [])"]
      by (cases "drop_table n db") (simp_all add: drop_table_rows bind_res_def del: fun_upd_apply)
  qed
  have "downgrade_0001 = run_steps (map drop_table [''appointments'', ''call_transcripts'', ''calls'', ''clients''])"
    by (simp add: downgrade_0001_def)
  moreover have "\<not> isl (downgrade_0001 revision_0001)" by code_simp
  moreover have "(case downgrade_0001 revision_0001 of Inr d \<Rightarrow> (db_tables d, db_indexes d) | Inl e \<Rightarrow> undefined) = ([], [])"
    by code_simp
  ultimately show ?thesis
    using steps [where ns = "[''appointments'', ''call_transcripts'', ''calls'', ''clients'']" and db = revision_0001 and q = r]
    by (cases "downgrade_0001 revision_0001") (auto simp: empty_database_def)
qed

section \<open>Properties\<close>

text \<open>
  (C34) The migrations are right: from an empty database they build exactly the tables, columns,
  constraints and indexes that the models declare; the second one never fails on rows written under
  the first and keeps them all; its downgrade gives the first schema and every row back, and is
  refused, without a change, exactly when two calls share a room name; the first one's downgrade
  leaves nothing.
\<close>

theorem migrations_build_the_models:
  "upgrade_0001 empty_database = Inr revision_0001 \<and>
   upgrade_0002 (revision_0001\<lparr>db_rows := r\<rparr>) = Inr (revision_0002\<lparr>db_rows := r\<rparr>) \<and>
   same_schema revision_0002 models_database \<and>
   (if distinct (map ca_livekit_room_name (w_calls w))
    then \<exists>d. downgrade_0002 (database_of now w) = Inr d \<and> same_schema d revision_0001 \<and> db_rows d = table_rows now w
    else downgrade_0002 (database_of now w) = Inl (IntegrityError ''could not create unique index'')) \<and>
   downgrade_0001 (revision_0001\<lparr>db_rows := r\<rparr>) = Inr (empty_database\<lparr>db_rows :=
     r(''appointments'' := [], ''call_transcripts'' := [], ''calls'' := [], ''clients'' := [])\<rparr>)"
proof -
  have "same_schema (downgraded\<lparr>db_rows := q\<rparr>) revision_0001" for q
    using downgraded_schema by (simp add: same_schema_def)
  then show ?thesis
    by (simp add: upgrade_0001_empty upgrade_0002_rows revision_0002_schema downgrade_0002_world downgrade_0001_rows)
qed

text \<open>
  (C35) The migrated schema and the statements of the services agree: a row can be inserted into the
  tables that the migrations build exactly if the statement of the model accepts it, for clients,
  calls, transcripts and appointments alike.
\<close>

theorem schema_accepts_what_the_statements_accept:
  assumes "wall_ok now" and "storable (ca_started_at a)"
    and "case ca_ended_at a of None \<Rightarrow> True | Some d \<Rightarrow> storable d"
    and "- (2 ^ 31) \<le> tr_sequence t \<and> tr_sequence t < 2 ^ 31" and "transcript_rows_error [] w = None"
    and "storable (ap_starts_at b) \<and> storable (ap_ends_at b)"
  shows "(accepts (database_of now w) ''clients'' (client_row now c) \<longleftrightarrow> client_row_error c w = None) \<and>
    (accepts (database_of now w) ''calls'' (call_table_row now a) \<longleftrightarrow>
      ca_id a \<notin> ca_id ` set (w_calls w) \<and> call_row_error a w = None) \<and>
    (accepts (database_of now w) ''call_transcripts'' (transcript_row now t) \<longleftrightarrow>
      transcript_rows_error [t] w = None) \<and>
    (accepts (database_of now w) ''appointments'' (appointment_row now b) \<longleftrightarrow>
      ap_id b \<notin> ap_id ` set (w_appointments w) \<and> appointment_row_error b w = None)"
  using assms accepts_client accepts_call accepts_transcript accepts_appointment by blast

definition ann_room_call :: call where
  "ann_room_call = \<lparr>ca_id = 5, ca_client_id = Some 1, ca_livekit_room_name = ''room'', ca_direction = INBOUND,
     ca_status = IN_PROGRESS, ca_started_at = hour_slot 9 0, ca_ended_at = None, ca_summary = None\<rparr>"

definition ann_line :: transcript where
  "ann_line = \<lparr>tr_id = 6, tr_call_id = 5, tr_sequence = 0, tr_role = CALLER, tr_text = ''hi''\<rparr>"

theorem schema_accepts_what_the_statements_accept_witness:
  "accepts (database_of 0 (ann_world [])) ''appointments'' (appointment_row 0 (ann_appointment 9 SCHEDULED 9)) \<and>
   accepts (database_of 0 (ann_world [])) ''calls'' (call_table_row 0 ann_room_call) \<and>
   \<not> accepts (database_of 0 (ann_world [])) ''call_transcripts'' (transcript_row 0 ann_line) \<and>
   \<not> accepts (database_of 0 (ann_world [])) ''clients'' (client_row 0 ann)"
proof -
  let ?w = "ann_world []" and ?b = "ann_appointment 9 SCHEDULED 9"
  have "wall_ok 0" by code_simp
  moreover have "storable (ca_started_at ann_room_call)" "storable (ap_starts_at ?b) \<and> storable (ap_ends_at ?b)"
    "transcript_rows_error [] ?w = None" "appointment_row_error ?b ?w = None" "call_row_error ann_room_call ?w = None"
    "client_row_error ann ?w \<noteq> None" "transcript_rows_error [ann_line] ?w \<noteq> None"
    by code_simp+
  moreover have "ca_ended_at ann_room_call = None" "tr_sequence ann_line = 0" "w_calls ?w = []" "w_appointments ?w = []"
    by (simp_all add: ann_room_call_def ann_line_def ann_world_def)
  ultimately show ?thesis
    using schema_accepts_what_the_statements_accept [of 0 ann_room_call ann_line ?w ?b ann] by simp
qed

end
