(* ===== verification/Migrate_Thms.thy ===== *)
theory Migrate_Thms
  imports Migrate Schema_Thms
begin

text \<open>
  The migrations reach the database of the application exactly if its URL has no percent sign: a plain
  URL passes the interpolation of Alembic's options unchanged, any other is refused or altered by it.
\<close>

section \<open>Interpolation\<close>

abbreviation percent :: char where
  "percent \<equiv> CHR 0x25"

abbreviation plain :: "string \<Rightarrow> bool" where
  "plain s \<equiv> percent \<notin> set s"

lemma key_match_plain: "plain s \<Longrightarrow> key_match s = None"
  by (cases s) (auto simp: key_match_def Let_def)

lemma strip_keys_plain: "plain s \<Longrightarrow> strip_keys s = s"
  by (induction s) (simp_all add: key_match_plain)

lemma set_option_plain: "plain v \<Longrightarrow> set_option k v opts = Inr (AList.update k v opts)"
  by (simp add: set_option_def py_replace_absent [where c = percent] strip_keys_plain)

lemma interpolate_plain: "plain s \<Longrightarrow> interpolate opts l s = Inr s"
  by (induction s) auto

lemma interpolate_all_plain: "\<forall>(k, v) \<in> set kvs. plain v \<Longrightarrow> interpolate_all opts kvs = Inr kvs"
  by (induction kvs) (auto simp: interpolate_plain)

lemma plain_update:
  "\<forall>(k, v) \<in> set opts. plain v \<Longrightarrow> plain u \<Longrightarrow> \<forall>(k, v) \<in> set (AList.update key u opts). plain v"
  by (induction opts) auto

lemma interpolate_all_value:
  "interpolate_all opts kvs = Inr ys \<Longrightarrow> map_of kvs k = Some v \<Longrightarrow>
   \<exists>x. map_of ys k = Some x \<and> interpolate opts 9 v = Inr x"
  by (induction kvs arbitrary: ys) (auto simp: bind_res_Inr split: if_splits)

text \<open>Where only plain values are referenced, every percent sign that is read is used up.\<close>

abbreviation percents :: "string \<Rightarrow> nat" where
  "percents s \<equiv> length (filter (\<lambda>c. c = percent) s)"

lemma key_match_form:
  assumes "key_match s = Some (n, t)"
  shows "s = percent # CHR ''('' # n @ CHR '')'' # CHR ''s'' # t"
proof -
  obtain zs where "s = percent # CHR ''('' # zs" "n = takeWhile (\<lambda>c. c \<noteq> CHR '')'') zs"
    "dropWhile (\<lambda>c. c \<noteq> CHR '')'') zs = CHR '')'' # CHR ''s'' # t"
    using assms by (auto simp: key_match_def Let_def prefix_def split: if_splits)
  then show ?thesis using takeWhile_dropWhile_id [of "\<lambda>c. c \<noteq> CHR '')''" zs] by simp
qed

lemma key_match_tail: "key_match s = Some (n, t) \<Longrightarrow> percents t < percents s"
  by (drule key_match_form) simp

lemma interpolate_uses_up:
  "interpolate opts 0 s = Inr x \<Longrightarrow>
   percents x \<le> percents s \<and>
   (percent \<in> set s \<longrightarrow> percents x < percents s)"
proof (induction s arbitrary: x rule: length_induct)
  case (1 s)
  show ?case
  proof (cases s)
    case Nil
    with 1 show ?thesis by simp
  next
    case (Cons c r)
    consider "c \<noteq> percent" | "c = percent" "prefix [percent] r" | "c = percent" "\<not> prefix [percent] r" by blast
    then show ?thesis
    proof cases
      case 1
      with "1.prems" Cons obtain y where "interpolate opts 0 r = Inr y" "x = c # y" by (auto simp: bind_res_Inr)
      with "1.IH" Cons 1 show ?thesis by auto
    next
      case 2
      with "1.prems" Cons obtain y where y: "interpolate opts 0 (tl r) = Inr y" "x = c # y" by (auto simp: bind_res_Inr)
      from 2 obtain q where "r = percent # q" by (cases r) auto
      moreover from this have "percents y \<le> percents q" using "1.IH" Cons y by simp
      ultimately show ?thesis using Cons y 2 by simp
    next
      case 3
      with "1.prems" Cons obtain n t v y where parts: "key_match s = Some (n, t)" "plain v"
        "interpolate opts 0 t = Inr y" "x = v @ y"
        by (auto simp: bind_res_Inr split: option.splits if_splits)
      have "filter (\<lambda>c. c = percent) v = []" using parts(2) by (auto simp: filter_empty_conv)
      moreover have "percents y \<le> percents t" using "1.IH" parts(3) key_match_shorter [OF parts(1)] by simp
      ultimately show ?thesis using parts(4) key_match_tail [OF parts(1)] by simp
    qed
  qed
qed

text \<open>A reference to the value under interpolation itself never ends well.\<close>

lemma interpolate_levels:
  assumes "\<And>n v. map_of opts n = Some v \<Longrightarrow> plain v \<or> v = u"
  shows "interpolate opts l s = Inr x \<Longrightarrow> interpolate opts 0 s = Inr x \<or>
    (isl (interpolate opts 0 s) \<and> 0 < l \<and> \<not> isl (interpolate opts (l - 1) u))"
proof (induction s arbitrary: x rule: length_induct)
  case (1 s)
  show ?case
  proof (cases s)
    case Nil
    with 1 show ?thesis by simp
  next
    case (Cons c r)
    consider "c \<noteq> percent" | "c = percent" "prefix [percent] r" | "c = percent" "\<not> prefix [percent] r" by blast
    then show ?thesis
    proof cases
      case 1
      with "1.prems" Cons obtain y where "interpolate opts l r = Inr y" "x = c # y" by (auto simp: bind_res_Inr)
      with "1.IH" Cons 1 show ?thesis by (fastforce simp: bind_res_def split: sum.split)
    next
      case 2
      with "1.prems" Cons obtain y where y: "interpolate opts l (tl r) = Inr y" "x = c # y" by (auto simp: bind_res_Inr)
      moreover have "length (tl r) < length s" using Cons by simp
      ultimately show ?thesis using "1.IH" Cons 2 by (fastforce simp: bind_res_def split: sum.split)
    next
      case 3
      with "1.prems" Cons obtain n t v w y where parts: "key_match s = Some (n, t)"
        "map_of opts (py_lower n) = Some v" "interpolate opts l t = Inr y" "x = w @ y"
        "if plain v then w = v else 0 < l \<and> interpolate opts (l - 1) v = Inr w"
        by (auto simp: bind_res_Inr split: option.splits if_splits)
      show ?thesis
      proof (cases "plain v")
        case True
        with "1.IH" parts key_match_shorter [OF parts(1)] Cons 3 show ?thesis
          by (fastforce simp: bind_res_def split: sum.split)
      next
        case False
        with assms parts(2) have "v = u" by blast
        with False parts Cons 3 show ?thesis by simp
      qed
    qed
  qed
qed

lemma interpolate_itself:
  assumes "\<And>n v. map_of opts n = Some v \<Longrightarrow> plain v \<or> v = u" and "interpolate opts l u = Inr x"
  shows "interpolate opts 0 u = Inr x"
  using assms(2)
proof (induction l arbitrary: x)
  case (Suc l)
  with interpolate_levels [OF assms(1) Suc.prems] show ?case by (cases "interpolate opts l u") fastforce+
qed simp

lemma interpolation_alters:
  assumes "\<forall>(k, v) \<in> set opts. plain v" and "\<not> plain u"
    and "interpolate (AList.update key u opts) l u = Inr x"
  shows "x \<noteq> u"
proof -
  have "plain v \<or> v = u" if "map_of (AList.update key u opts) n = Some v" for n v
    using that assms(1) by (auto simp: update_conv' split: if_splits dest!: map_of_SomeD)
  from interpolate_uses_up [OF interpolate_itself [OF this assms(3)]] assms(2) show ?thesis by auto
qed

section \<open>What Alembic documents\<close>

text \<open>
  An engine is built from the option that the prefix leads to; an upgrade runs the revisions that follow
  the database's own, one after the other. The chain is as long as there are revisions at most.
\<close>

fun climb :: "nat \<Rightarrow> revision list \<Rightarrow> versioned \<Rightarrow> versioned res" where
  "climb 0 revs v = Inr v"
| "climb (Suc n) revs (v, d) =
     (case find (\<lambda>r. rv_down_revision r = v) revs of
        None \<Rightarrow> Inr (v, d)
      | Some r \<Rightarrow> bind_res (rv_upgrade r d) (\<lambda>e. climb n revs (Some (rv_revision r), e)))"

definition documented_alembic :: "alembic \<Rightarrow> bool" where
  "documented_alembic al \<longleftrightarrow>
     (\<forall>opts_read u. map_of opts_read ''sqlalchemy.url'' = Some u \<longrightarrow> mg_engine al opts_read ''sqlalchemy.'' = Inr u) \<and>
     (\<forall>revs cx v. mg_run al revs cx v = climb (length revs) revs v)"

text \<open>The databases that the revisions leave, with their rows.\<close>

definition at_revision :: "(string \<Rightarrow> row list) \<Rightarrow> versioned \<Rightarrow> bool" where
  "at_revision r v \<longleftrightarrow>
     v = (None, empty_database) \<and> r = (\<lambda>t. []) \<or>
     v = (Some ''0001'', revision_0001\<lparr>db_rows := r\<rparr>) \<or> v = (Some ''0002'', revision_0002\<lparr>db_rows := r\<rparr>)"

lemma climb_to_head:
  assumes "at_revision r v"
  shows "climb (length revisions) revisions v = Inr (Some ''0002'', revision_0002\<lparr>db_rows := r\<rparr>)"
proof -
  have "revision_0002\<lparr>db_rows := (\<lambda>t. [])\<rparr> = revision_0002"
    using no_rows_0002 by (metis database.surjective database.update_convs(3))
  with assms show ?thesis
    by (auto simp: at_revision_def revisions_def initial_revision_def room_name_revision_def upgrade_0001_empty
        upgrade_0002_revision upgrade_0002_rows)
qed

section \<open>A run of env.py\<close>

definition logging_configured :: "alembic \<Rightarrow> bool" where
  "logging_configured al \<longleftrightarrow> (case mg_file_name al of None \<Rightarrow> True | Some f \<Rightarrow> mg_file_config al f = None)"

lemma run_env_online:
  assumes "logging_configured al" and "\<not> mg_offline al"
    and "set_option ''sqlalchemy.url'' (database_url s) opts = Inr configured"
  shows "run_env al s opts w = run_migrations_online al configured w"
  using assms by (auto simp: run_env_def logging_configured_def bind_prog_apply split: option.splits)

lemma online_run:
  assumes "documented_alembic al" and "interpolate_all opts opts = Inr opts_read"
    and "map_of opts_read ''sqlalchemy.url'' = Some url"
  shows "run_migrations_online al opts w =
    (case mg_connect al url of
       Some e \<Rightarrow> (Inl e, w\<lparr>mw_engines := url # mw_engines w\<rparr>)
     | None \<Rightarrow>
         (case climb (length revisions) revisions (mw_databases w url) of
            Inl e \<Rightarrow> (Inl e, w\<lparr>mw_engines := url # mw_engines w\<rparr>)
          | Inr d \<Rightarrow> (Inr (), w\<lparr>mw_databases := (mw_databases w)(url := d)\<rparr>)))"
proof -
  have "mg_engine al opts_read ''sqlalchemy.'' = Inr url" "mg_run al revs cx v = climb (length revs) revs v" for revs cx v
    using assms(1,3) unfolding documented_alembic_def by blast+
  then show ?thesis
    using assms(2) by (simp add: run_migrations_online_def bind_prog_apply with_connection_def do_run_migrations_def
        split: option.split sum.split)
qed

lemma plain_run:
  assumes "documented_alembic al" and "logging_configured al" and "\<not> mg_offline al"
    and "\<forall>(k, v) \<in> set opts. plain v" and "plain (database_url s)" and "mg_connect al (database_url s) = None"
    and "at_revision r (mw_databases w (database_url s))"
  shows "run_env al s opts w =
    (Inr (), w\<lparr>mw_databases := (mw_databases w)(database_url s := (Some ''0002'', revision_0002\<lparr>db_rows := r\<rparr>))\<rparr>)"
proof -
  let ?configured = "AList.update ''sqlalchemy.url'' (database_url s) opts"
  have "\<forall>(k, v) \<in> set ?configured. plain v"
    using assms(4,5) by (rule plain_update)
  from online_run [OF assms(1) interpolate_all_plain [OF this]] show ?thesis
    using assms by (simp add: run_env_online set_option_plain update_conv' climb_to_head)
qed

lemma other_run:
  assumes "documented_alembic al" and "logging_configured al" and "\<not> mg_offline al"
    and "\<forall>(k, v) \<in> set opts. plain v" and "\<not> plain (database_url s)"
  shows "mw_databases (snd (run_env al s opts w)) (database_url s) = mw_databases w (database_url s)"
proof (cases "set_option ''sqlalchemy.url'' (database_url s) opts")
  case (Inl e)
  then show ?thesis using assms(2) by (auto simp: run_env_def logging_configured_def bind_prog_apply split: option.splits)
next
  case (Inr configured)
  note ready = run_env_online [OF assms(2,3) Inr]
  from Inr have configured: "configured = AList.update ''sqlalchemy.url'' (database_url s) opts"
    by (simp add: set_option_def split: if_splits)
  show ?thesis
  proof (cases "interpolate_all configured configured")
    case (Inl e)
    then show ?thesis by (simp add: ready run_migrations_online_def bind_prog_apply)
  next
    case (Inr opts_read)
    from interpolate_all_value [OF this, of "''sqlalchemy.url''" "database_url s"] obtain url where
      url: "map_of opts_read ''sqlalchemy.url'' = Some url" "interpolate configured 9 (database_url s) = Inr url"
      by (auto simp: configured update_conv')
    with interpolation_alters [OF assms(4,5)] have "url \<noteq> database_url s" by (auto simp: configured)
    then show ?thesis
      by (simp add: ready online_run [OF assms(1) Inr url(1)]
          split: option.split sum.split)
  qed
qed

section \<open>Property\<close>

text \<open>
  (C40) The migrations run on the database of the application exactly if its URL has no percent sign.
  Then, from no schema or any revision, they end at the schema of the models, keep every row, and
  leave no connection and no engine open. A URL with a percent sign, as an encoded password has one,
  is refused before anything happens or altered on its way through \<^verbatim>\<open>ConfigParser\<close>, and the
  database that the application will use stays as it was; it is always refused when its percent
  signs are neither doubled nor the start of a reference. \<^verbatim>\<open>alembic.ini\<close> has none of its own.
\<close>

theorem migrations_reach_the_applications_database:
  assumes "documented_alembic al" and "logging_configured al" and "\<not> mg_offline al"
    and "\<forall>(k, v) \<in> set opts. CHR 0x25 \<notin> set v" and "url = ea_url (engine_args_of s)"
    and "mg_connect al url = None" and "at_revision r (mw_databases w url)"
  shows "(CHR 0x25 \<notin> set url \<longrightarrow>
      run_env al s opts w =
        (Inr (), w\<lparr>mw_databases := (mw_databases w)(url := (Some ''0002'', revision_0002\<lparr>db_rows := r\<rparr>))\<rparr>) \<and>
      same_schema (revision_0002\<lparr>db_rows := r\<rparr>) models_database) \<and>
    (CHR 0x25 \<in> set url \<longrightarrow> mw_databases (snd (run_env al s opts w)) url = mw_databases w url) \<and>
    (CHR 0x25 \<in> set (strip_keys (py_replace [CHR 0x25, CHR 0x25] [] url)) \<longrightarrow>
      run_env al s opts w = (Inl (ValueError ''invalid interpolation syntax''), w))"
proof -
  have url: "url = database_url s" using assms(5) by (simp add: engine_args_of_def)
  have "same_schema (revision_0002\<lparr>db_rows := r\<rparr>) models_database"
    using revision_0002_schema by (simp add: same_schema_def)
  moreover have "run_env al s opts w = (Inl (ValueError ''invalid interpolation syntax''), w)"
    if "CHR 0x25 \<in> set (strip_keys (py_replace [CHR 0x25, CHR 0x25] [] (database_url s)))"
    using that assms(2) by (auto simp: run_env_def logging_configured_def bind_prog_apply set_option_def split: option.splits)
  ultimately show ?thesis
    using plain_run [OF assms(1-4)] other_run [OF assms(1-4)] assms(6,7) unfolding url by blast
qed

text \<open>A run from nothing, and one whose password has an encoded \<^verbatim>\<open>@\<close>.\<close>

definition plain_alembic :: alembic where
  "plain_alembic = \<lparr>mg_offline = False, mg_file_name = Some ''alembic.ini'', mg_file_config = (\<lambda>f. None),
     mg_engine = (\<lambda>opts_read prefix. case map_of opts_read (prefix @ ''url'') of
        Some u \<Rightarrow> Inr u | None \<Rightarrow> Inl (OtherError ''KeyError'' ''url'')),
     mg_connect = (\<lambda>url. None), mg_run = (\<lambda>revs cx. climb (length revs) revs), mg_sql = (\<lambda>revs cx. ([], None))\<rparr>"

definition ini_options :: options where
  "ini_options = [(''script_location'', ''migrations''), (''prepend_sys_path'', ''.'')]"

definition new_databases :: migration_world where
  "new_databases = \<lparr>mw_databases = (\<lambda>url. (None, empty_database)), mw_engines = [], mw_connections = [], mw_stdout = []\<rparr>"

theorem migrations_reach_the_applications_database_witness:
  "run_env plain_alembic (default_settings ''key'' ''postgresql://ann:p@db/calls'') ini_options new_databases =
     (Inr (), new_databases\<lparr>mw_databases := (mw_databases new_databases)
        (''postgresql://ann:p@db/calls'' := (Some ''0002'', revision_0002\<lparr>db_rows := (\<lambda>t. [])\<rparr>))\<rparr>) \<and>
   run_env plain_alembic (default_settings ''key'' (''postgresql://ann:p'' @ CHR 0x25 # ''40@db/calls'')) ini_options new_databases =
     (Inl (ValueError ''invalid interpolation syntax''), new_databases)"
proof -
  let ?calm = "default_settings ''key'' ''postgresql://ann:p@db/calls''"
  let ?encoded = "default_settings ''key'' (''postgresql://ann:p'' @ CHR 0x25 # ''40@db/calls'')"
  have facts: "documented_alembic plain_alembic" "logging_configured plain_alembic" "\<not> mg_offline plain_alembic"
    "\<forall>(k, v) \<in> set ini_options. CHR 0x25 \<notin> set v" "mg_connect plain_alembic url = None"
    "at_revision (\<lambda>t. []) (mw_databases new_databases url)" for url
    by (simp_all add: documented_alembic_def logging_configured_def plain_alembic_def ini_options_def
        at_revision_def new_databases_def)
  have "ea_url (engine_args_of ?calm) = ''postgresql://ann:p@db/calls''"
    "ea_url (engine_args_of ?encoded) = ''postgresql://ann:p'' @ CHR 0x25 # ''40@db/calls''"
    by (simp_all add: engine_args_of_def default_settings_def)
  moreover have "CHR 0x25 \<in> set (strip_keys (py_replace [CHR 0x25, CHR 0x25] [] (''postgresql://ann:p'' @ CHR 0x25 # ''40@db/calls'')))"
    by code_simp
  ultimately show ?thesis
    using migrations_reach_the_applications_database [OF facts(1-4) refl facts(5,6), where s = ?calm]
      migrations_reach_the_applications_database [OF facts(1-4) refl facts(5,6), where s = ?encoded]
    by simp
qed

end
