(* ===== verification/Spec2Isabelle.thy ===== *)
theory Spec2Isabelle
  imports Conversation_Thms Booking_Slots_Thms Booking_Interleaving Booking_Tools_Thms LLM_Providers_Thms Config_Thms
    Api_Thms Providers_Thms Voice_Thms Agent_Thms Prompts_Thms Worker_Live Escalation Metrics Migrate_Thms Process
begin

text \<open>
  \<^bold>\<open>OpenVoice, a voice agent for phone calls: a verification development.\<close>

  OpenVoice answers phone calls. LiveKit connects the caller to a worker
  (\<^verbatim>\<open>telephony/worker.py\<close>), whose agent (\<^verbatim>\<open>telephony/livekit_agent.py\<close>) transcribes each
  utterance, hands the text to a conversation manager (\<^verbatim>\<open>agent/conversation.py\<close>) and speaks what that
  streams back. The manager asks a language model (\<^verbatim>\<open>llm/\<close>), which may call booking tools
  (\<^verbatim>\<open>agent/tools/booking.py\<close>); these act through the booking service (\<^verbatim>\<open>booking/service.py\<close>) on the
  database (\<^verbatim>\<open>db/\<close>), a calendar (\<^verbatim>\<open>calendar/\<close>) and messaging services (\<^verbatim>\<open>notifications/\<close>). When a
  call ends its row and transcript are written and a background task (\<^verbatim>\<open>tasks/\<close>) summarizes it. A
  REST API (\<^verbatim>\<open>api/\<close>) serves the same data. All paths below are under \<^verbatim>\<open>src/src/openvoice\<close>, migrations
  under \<^verbatim>\<open>src/migrations\<close>.

  \<^bold>\<open>How the code is translated.\<close> A function without effects is a HOL function of the same name. One
  with effects is a \<open>('w, 'a) prog\<close> of \<open>Prelude\<close>: from a world to a result or a raised exception (\<open>exc\<close>,
  with the exception classes of the code as constructors) and the world after it; \<open>bind_prog\<close> is the
  sequence, \<open>try_prog\<close> the handler, so every early return, raise and handler is a branch. An object
  is a record of its fields. Interfaces (the providers of language models, speech, calendars,
  messages) are records of programs, as \<^verbatim>\<open>llm/base.py\<close> and its siblings declare them. What is not in
  the repository is an argument: the vendors' SDKs, \<^verbatim>\<open>httpx\<close>, \<^verbatim>\<open>tenacity\<close>, numpy's \<^verbatim>\<open>interp\<close>, \<^verbatim>\<open>zoneinfo\<close>,
  the clock, the source of UUIDs, the connection to the database, which may fail at any statement.
  Theorems that need a documented law of one of these name it as a hypothesis and have an instance
  that satisfies it. Python integers are \<open>int\<close>, times are microseconds, a datetime is its wall time
  and its offset, a UUID a \<open>128 word\<close>, a 16-bit sample a \<open>16 word\<close>, text is \<open>string\<close>: the characters
  up to 255.

  \<^bold>\<open>The theories.\<close>

  \<^item> \<open>Prelude\<close>: exceptions, programs, Python's list and string operations; the locales \<open>frame\<close> (a
    relation that a sequence of steps keeps), \<open>codec\<close> (a text form and its reader) and \<open>simulation\<close>
    (steps against an abstract system), which the later theories interpret on the code's model.
  \<^item> \<open>Py_Time\<close>, \<open>Py_ISO\<close>, \<open>Py_Text\<close>, \<open>Py_JSON\<close>, \<open>Py_JSON_Thms\<close>, \<open>Py_URL\<close>: what the sources use of
    Python's \<^verbatim>\<open>datetime\<close>, \<^verbatim>\<open>isoformat\<close> and \<^verbatim>\<open>fromisoformat\<close>, \<^verbatim>\<open>uuid\<close>, \<^verbatim>\<open>json\<close> and \<^verbatim>\<open>urlparse\<close>, with the
    round trips of each.
  \<^item> \<open>Agent_Base\<close>, \<open>Structured_Reply\<close>: intents, replies, the parser of a completion with its
    \<^verbatim>\<open>INTENT:\<close> marker and the extractor that does the same on a stream (\<^verbatim>\<open>agent/base.py\<close>,
    \<^verbatim>\<open>agent/structured_reply.py\<close>). The extractor speaks the reply and never the marker, however the
    stream is cut, and agrees with the parser.
  \<^item> \<open>LLM_Base\<close>, \<open>Conversation\<close>, \<open>Conversation_Props\<close>, \<open>Conversation_Thms\<close>, \<open>Conversation_Frame\<close>: the
    manager, with the points at which a reply can be cancelled: while a stream is consumed, while a
    response is awaited, while a tool is executing. A call is a sequence of such events (\<open>run_call\<close>). In
    every reachable state the history is a sequence of turns, well-formed unless a tool was cut, whose turn
    ends with an unanswered request; an utterance gets a reply; a failed turn leaves no trace; the
    number of model calls is bounded; a call stays within what its tools may touch.
  \<^item> \<open>LLM_Wire\<close>, \<open>Retry\<close>, \<open>LLM_Providers\<close> and their \<open>_Thms\<close>: the translations to the two wire formats,
    the retry policies and the two providers (\<^verbatim>\<open>llm/providers\<close>). Every request of a conversation
    in which no tool was cut and every message says something meets the documented rules of the service
    it goes to; a streamed completion that is only the marker leaves an empty message, which does not.
  \<^item> \<open>DB\<close>: the rows, constraints and statements; \<open>Schema\<close>, \<open>Schema_Thms\<close>: the migrations, the models'
    declarations and the proof that both describe the same schema, which accepts exactly the rows that
    the statements accept; \<open>Migrate\<close>, \<open>Migrate_Thms\<close>: the run of \<^verbatim>\<open>migrations/env.py\<close>, with the interpolation that
    the URL of the database passes on its way; \<open>Engine\<close>: the cached engine and session factory (\<^verbatim>\<open>db/session.py\<close>) under all
    interleavings.
  \<^item> \<open>Calendar_Base\<close>, \<open>Booking_Slots\<close>, \<open>Booking_Service\<close>, \<open>Booking_Thms\<close>, \<open>Booking_Slots_Thms\<close>: the slot search
    and the service (\<^verbatim>\<open>booking/service.py\<close>). The search returns exactly the free business-hour slots;
    bookings never clash, also (\<open>Booking_Interleaving\<close>) when tasks run between the points where a
    booking waits, as long as no client has two under way; \<open>Booking_Ledger\<close> states the contract without columns and events, a
    register of whom an identifier belongs to and which time it holds, and proves that the service refines it.
  \<^item> \<open>Booking_Tools\<close>, \<open>Booking_Tools_Thms\<close>: the tools of the model. Nothing happens unconfirmed, and a
    caller reaches only the caller's own appointments.
  \<^item> \<open>CRM\<close>, \<open>CRM_Thms\<close>: clients, calls, the end of a call and its summary (\<^verbatim>\<open>crm/service.py\<close>,
    \<^verbatim>\<open>worker.finalize_call\<close>, \<^verbatim>\<open>tasks/summarize_call.py\<close>).
  \<^item> \<open>HTTP_Client\<close>, \<open>Notifications\<close>, \<open>Google_Calendar\<close>, \<open>Providers_Thms\<close>: Twilio, Resend and Google Calendar
    against the interfaces that the booking service relies on.
  \<^item> \<open>Config\<close>, \<open>Config_Thms\<close>, \<open>Process\<close>: the settings with their validators, every factory, and what a
    process sets up at its start. What is installed and what opening a client, a key file or a speech
    model raises are parameters (\<open>extras\<close>), as is what \<^verbatim>\<open>sentry_sdk.init\<close> raises for a DSN.
  \<^item> \<open>Audio\<close>, \<open>Voice_Providers\<close>, \<open>Voice_Agent\<close>, \<open>Voice_Thms\<close>, \<open>Agent_Thms\<close>: resampling, the speech providers, the
    three nodes of the agent and the pipeline.
  \<^item> \<open>Prompts\<close>, \<open>Worker\<close> and their \<open>_Thms\<close>: the prompt, and a whole call from the set-up of its process
    to its last row, with the transfer to a human: the composition of nearly everything above.
  \<^item> \<open>Worker_Live\<close>: on a deployment that can be started (valid settings, a level and a DSN that are
    accepted, a known zone, clients that can be built), when the room connects, the database answers and
    \<^verbatim>\<open>uuid4\<close> gives new values, every call gets its row, its agent and its end. \<open>Escalation\<close>: a turn of the agent with the
    transfer that it may start, so that a caller who needs a human gets one where the platform can transfer.
    \<open>Metrics\<close>: what a process counts (\<^verbatim>\<open>metrics.py\<close>), and that its counts agree with its calls.
  \<^item> \<open>Api\<close>, \<open>Api_Thms\<close>: every endpoint, the dependencies, the exception handlers and the health report.

  \<^bold>\<open>Where components meet.\<close> A client's lemmas are proved once in a locale and instantiated by its
  provider: \<open>frame\<close> by the tables, the callers' rows and the runs of the service; \<open>conv_frame\<close> by the
  conversation with and without booking tools; \<open>codec\<close> by intents, UUIDs, datetimes and JSON;
  \<open>delta_consumer\<close> by the extractor; \<open>turn_kind\<close> by the turns of a conversation with and
  without an interrupted tool; \<open>simulation\<close> by the booking service over its register.

  \<^bold>\<open>Loops and bounds.\<close> The tool loop runs on its iteration budget, which is the code's own bound
  (\<^verbatim>\<open>max_tool_iterations\<close>), so no other fuel is needed. The two loops of the slot search may run for
  ever and are \<open>partial_function (option)\<close>: that they end for every duration but zero, and do not for
  zero, is proved. Retries run over the attempts that the policy allows. The JSON reader recurses on
  the length of the text. Every other recursion is structural or has a measure.

  \<^bold>\<open>Not modelled.\<close> What the third parties do inside: LiveKit's session (voice activity detection, turn
  taking, interruption) beyond the calls it makes to the nodes, Celery's queue, the HTTP and SDK
  clients, PostgreSQL beyond constraints and statements (one statement is one step; concurrent
  transactions of other processes are not interleaved within one), the parsing of requests and
  environment variables by FastAPI and pydantic, whose results are the inputs of the model. The times of
  a request body are aware; the schemas also accept naive ones, whose meaning is the driver's and the
  server's. A tool that is cancelled has had all its effects on the world or none. Log lines
  and the values of the durations that \<^verbatim>\<open>metrics.py\<close> observes are left out; no code
  reads them. \<^verbatim>\<open>created_at\<close> and \<^verbatim>\<open>updated_at\<close> appear only in the schema. The
  package files contain no logic of their own. Characters above 255 are outside the text type, so the
  one paragraph of the default prompt that has a dash is a parameter.
\<close>

end
